(* ===== verification/Prelude.thy ===== *)
theory Prelude
  imports
    Complex_Main
    "HOL-Library.AList"
    "HOL-Library.Char_ord"
    "HOL-Library.List_Lexorder"
    "HOL-Library.Sublist"
begin

text \<open>
  Shared vocabulary of the development.

  \<^item> Python values as they travel through the BFF (JSON documents, session dicts, request
    bodies) are the type \<open>json\<close>; a dict keeps its insertion order and is an association
    list with Python's \<open>get\<close>, assignment and \<open>pop\<close>.
  \<^item> Text is \<open>string\<close>, one \<open>char\<close> per code point below 256.
  \<^item> Clock readings are exact rationals, where the code has floats.
  \<^item> Effects are actions \<open>'s \<Rightarrow> (exc + 'a) \<times> 's\<close>: a raise is a value \<open>Inl\<close> that skips the rest
    of the handler, and the state keeps every effect performed before it.
  \<^item> The collections: \<open>dict_simps\<close> (dict laws), \<open>act_simps\<close> (how an action runs),
    \<open>stable_intros\<close> (relations kept by every step of an action).
\<close>

named_theorems dict_simps
named_theorems act_simps
named_theorems stable_intros

section \<open>Python values\<close>

datatype json =
    JNull
  | JBool bool
  | JInt int
  | JFloat rat
  | JStr string
  | JList "json list"
  | JObj "(string \<times> json) list"

type_synonym dict = "(string \<times> json) list"
type_synonym time = rat

text \<open>Truth of a value in a Python condition.\<close>

fun truthy :: "json \<Rightarrow> bool" where
  "truthy JNull = False"
| "truthy (JBool b) = b"
| "truthy (JInt i) = (i \<noteq> 0)"
| "truthy (JFloat q) = (q \<noteq> 0)"
| "truthy (JStr s) = (s \<noteq> [])"
| "truthy (JList xs) = (xs \<noteq> [])"
| "truthy (JObj d) = (d \<noteq> [])"

text \<open>Python's \<open>a or b\<close>.\<close>

definition py_or :: "json \<Rightarrow> json \<Rightarrow> json" where
  "py_or a b = (if truthy a then a else b)"

fun is_dict :: "json \<Rightarrow> bool" where
  "is_dict (JObj d) = True"
| "is_dict _ = False"

fun is_str :: "json \<Rightarrow> bool" where
  "is_str (JStr s) = True"
| "is_str _ = False"

text \<open>\<open>isinstance(v, int)\<close> is true of booleans as well.\<close>

fun is_int :: "json \<Rightarrow> bool" where
  "is_int (JInt i) = True"
| "is_int (JBool b) = True"
| "is_int _ = False"

fun as_dict :: "json \<Rightarrow> dict option" where
  "as_dict (JObj d) = Some d"
| "as_dict _ = None"

fun as_str :: "json \<Rightarrow> string option" where
  "as_str (JStr s) = Some s"
| "as_str _ = None"

lemma is_dict_iff: "is_dict v \<longleftrightarrow> (\<exists>d. v = JObj d)"
  by (cases v) auto

lemma is_str_iff: "is_str v \<longleftrightarrow> (\<exists>s. v = JStr s)"
  by (cases v) auto

lemma as_dict_Some [simp]: "as_dict v = Some d \<longleftrightarrow> v = JObj d"
  by (cases v) auto

lemma as_str_Some [simp]: "as_str v = Some s \<longleftrightarrow> v = JStr s"
  by (cases v) auto

text \<open>
  Dicts. \<open>dict_get d k\<close> is \<open>d.get(k)\<close> (a missing key reads as \<open>None\<close>), \<open>dict_get_or d k v\<close> is
  \<open>d.get(k, v)\<close>, \<open>dict_set\<close> is \<open>d[k] = v\<close> (a present key keeps its position), \<open>dict_pop\<close> is
  \<open>d.pop(k, None)\<close> seen as the dict it leaves.
\<close>

definition dict_get :: "dict \<Rightarrow> string \<Rightarrow> json" where
  "dict_get d k = (case map_of d k of None \<Rightarrow> JNull | Some v \<Rightarrow> v)"

definition dict_get_or :: "dict \<Rightarrow> string \<Rightarrow> json \<Rightarrow> json" where
  "dict_get_or d k dflt = (case map_of d k of None \<Rightarrow> dflt | Some v \<Rightarrow> v)"

definition dict_has :: "dict \<Rightarrow> string \<Rightarrow> bool" where
  "dict_has d k = (map_of d k \<noteq> None)"

definition dict_set :: "string \<Rightarrow> json \<Rightarrow> dict \<Rightarrow> dict" where
  "dict_set k v d = AList.update k v d"

definition dict_pop :: "string \<Rightarrow> dict \<Rightarrow> dict" where
  "dict_pop k d = AList.delete k d"

lemma map_of_update: "map_of (AList.update k v al) = (map_of al)(k \<mapsto> v)"
  by (rule ext) (simp add: update_conv')

lemma map_of_delete: "map_of (AList.delete k al) = (map_of al)(k := None)"
  by (rule ext) (simp add: delete_conv')

lemma map_of_dict_set [dict_simps]: "map_of (dict_set k v d) = (map_of d)(k \<mapsto> v)"
  by (simp add: dict_set_def map_of_update)

lemma map_of_dict_pop [dict_simps]: "map_of (dict_pop k d) = (map_of d)(k := None)"
  by (simp add: dict_pop_def map_of_delete)

lemma dict_get_set [dict_simps]:
  "dict_get (dict_set k v d) k' = (if k' = k then v else dict_get d k')"
  by (simp add: dict_get_def map_of_dict_set)

lemma dict_get_pop [dict_simps]:
  "dict_get (dict_pop k d) k' = (if k' = k then JNull else dict_get d k')"
  by (simp add: dict_get_def map_of_dict_pop)

lemma dict_get_Nil [simp]: "dict_get [] k = JNull"
  by (simp add: dict_get_def)

lemma dict_get_Cons [simp]:
  "dict_get ((k, v) # d) k' = (if k' = k then v else dict_get d k')"
  by (simp add: dict_get_def)

lemma dict_has_set [dict_simps]: "dict_has (dict_set k v d) k' \<longleftrightarrow> k' = k \<or> dict_has d k'"
  by (auto simp: dict_has_def map_of_dict_set)

lemma dict_has_pop [dict_simps]: "dict_has (dict_pop k d) k' \<longleftrightarrow> k' \<noteq> k \<and> dict_has d k'"
  by (auto simp: dict_has_def map_of_dict_pop)

lemma distinct_dict_set: "distinct (map fst d) \<Longrightarrow> distinct (map fst (dict_set k v d))"
  by (simp add: dict_set_def distinct_update)

lemma distinct_dict_pop: "distinct (map fst d) \<Longrightarrow> distinct (map fst (dict_pop k d))"
  by (simp add: dict_pop_def distinct_delete)

section \<open>Text\<close>

abbreviation code :: "char \<Rightarrow> nat" where
  "code c \<equiv> of_char c"

text \<open>\<open>str.isspace\<close> on code points below 256.\<close>

definition is_space :: "char \<Rightarrow> bool" where
  "is_space c = (code c \<in> {9..13} \<or> code c \<in> {28..32} \<or> code c = 133 \<or> code c = 160)"

definition is_digit :: "char \<Rightarrow> bool" where
  "is_digit c = (48 \<le> code c \<and> code c \<le> 57)"

definition lower_char :: "char \<Rightarrow> char" where
  "lower_char c =
     (if 65 \<le> code c \<and> code c \<le> 90 \<or> 192 \<le> code c \<and> code c \<le> 222 \<and> code c \<noteq> 215
      then char_of (code c + 32) else c)"

definition py_lower :: "string \<Rightarrow> string" where
  "py_lower s = map lower_char s"

definition lstrip_by :: "(char \<Rightarrow> bool) \<Rightarrow> string \<Rightarrow> string" where
  "lstrip_by p s = dropWhile p s"

definition rstrip_by :: "(char \<Rightarrow> bool) \<Rightarrow> string \<Rightarrow> string" where
  "rstrip_by p s = rev (dropWhile p (rev s))"

definition py_strip :: "string \<Rightarrow> string" where
  "py_strip s = rstrip_by is_space (lstrip_by is_space s)"

fun split_on :: "char \<Rightarrow> string \<Rightarrow> string list" where
  "split_on c [] = [[]]"
| "split_on c (x # xs) =
     (if x = c then [] # split_on c xs
      else (case split_on c xs of [] \<Rightarrow> [[x]] | p # ps \<Rightarrow> (x # p) # ps))"

definition quoted :: "string \<Rightarrow> string" where
  "quoted t = CHR 0x27 # t @ [CHR 0x27]"

fun join_with :: "string \<Rightarrow> string list \<Rightarrow> string" where
  "join_with sep [] = []"
| "join_with sep [x] = x"
| "join_with sep (x # y # ys) = x @ sep @ join_with sep (y # ys)"

lemma split_on_not_Nil [simp]: "split_on c s \<noteq> []"
  by (induction s) (auto split: list.splits)

lemma split_on_no_sep: "p \<in> set (split_on c s) \<Longrightarrow> c \<notin> set p"
proof (induction s arbitrary: p)
  case Nil
  then show ?case by simp
next
  case (Cons x xs)
  obtain q qs where "split_on c xs = q # qs"
    using split_on_not_Nil by (cases "split_on c xs") auto
  with Cons show ?case by (auto split: if_splits)
qed

lemma join_split: "join_with [c] (split_on c s) = s"
proof (induction s)
  case Nil
  then show ?case by simp
next
  case (Cons x xs)
  obtain q qs where q: "split_on c xs = q # qs"
    using split_on_not_Nil by (cases "split_on c xs") auto
  show ?case
    using Cons q by (cases qs) auto
qed

text \<open>The comma-separated lists of the configuration and of \<open>X-Forwarded-For\<close>.\<close>

definition split_csv :: "string \<Rightarrow> string list" where
  "split_csv s = filter (\<lambda>e. e \<noteq> []) (map py_strip (split_on (CHR '','') s))"

text \<open>Decimal numerals.\<close>

definition digit :: "nat \<Rightarrow> char" where
  "digit d = char_of (48 + d)"

fun show_nat :: "nat \<Rightarrow> string" where
  "show_nat n = (if n < 10 then [digit n] else show_nat (n div 10) @ [digit (n mod 10)])"

declare show_nat.simps [simp del]

definition show_int :: "int \<Rightarrow> string" where
  "show_int i = (if i < 0 then CHR ''-'' # show_nat (nat (- i)) else show_nat (nat i))"

definition digits_val :: "string \<Rightarrow> nat" where
  "digits_val s = foldl (\<lambda>n c. 10 * n + (code c - 48)) 0 s"

lemma code_digit [simp]: "d < 10 \<Longrightarrow> code (digit d) = 48 + d"
  by (simp add: digit_def)

lemma is_digit_digit [simp]: "d < 10 \<Longrightarrow> is_digit (digit d)"
  by (simp add: is_digit_def)

lemma digits_val_snoc: "digits_val (s @ [c]) = 10 * digits_val s + (code c - 48)"
  by (simp add: digits_val_def)

lemma digits_val_show_nat [simp]: "digits_val (show_nat n) = n"
proof (induction n rule: show_nat.induct)
  case (1 n)
  show ?case
  proof (cases "n < 10")
    case True
    then show ?thesis by (subst show_nat.simps) (simp add: digits_val_def)
  next
    case False
    with 1 have "digits_val (show_nat (n div 10)) = n div 10" by simp
    moreover from False have "show_nat n = show_nat (n div 10) @ [digit (n mod 10)]"
      by (subst show_nat.simps) simp
    ultimately show ?thesis by (simp add: digits_val_snoc)
  qed
qed

lemma show_nat_inject [simp]: "show_nat m = show_nat n \<longleftrightarrow> m = n"
  by (metis digits_val_show_nat)

lemma show_nat_digits: "c \<in> set (show_nat n) \<Longrightarrow> is_digit c"
proof (induction n rule: show_nat.induct)
  case (1 n)
  then show ?case
    by (subst (asm) (2) show_nat.simps) (auto split: if_splits)
qed

lemma show_nat_not_Nil [simp]: "show_nat n \<noteq> []"
  by (subst show_nat.simps) simp

text \<open>A positive numeral has no leading zero.\<close>

lemma hd_show_nat: "0 < n \<Longrightarrow> hd (show_nat n) \<noteq> CHR ''0''"
proof (induction n rule: show_nat.induct)
  case (1 n)
  show ?case
  proof (cases "n < 10")
    case True
    have "code (digit n) \<noteq> code (CHR ''0'')"
      using True 1(2) by simp
    then have "digit n \<noteq> CHR ''0''" by metis
    then show ?thesis using True by (subst show_nat.simps) simp
  next
    case False
    with 1 have "hd (show_nat (n div 10)) \<noteq> CHR ''0''" by simp
    with False show ?thesis by (subst show_nat.simps) (simp add: hd_append)
  qed
qed

lemma show_int_inject [simp]: "show_int i = show_int j \<longleftrightarrow> i = j"
proof
  assume eq: "show_int i = show_int j"
  have no_minus: "show_nat n \<noteq> CHR ''-'' # t" for n t
    using show_nat_digits [of "CHR ''-''" n] by (auto simp: is_digit_def)
  from eq no_minus no_minus [symmetric] show "i = j"
    by (auto simp: show_int_def split: if_splits)
qed simp

text \<open>
  \<open>str(v)\<close> and \<open>repr\<close> of a value. A float prints as its decimal expansion (the form Python
  uses between \<open>1e-4\<close> and \<open>1e16\<close>).
\<close>

fun frac_digits :: "nat \<Rightarrow> rat \<Rightarrow> string" where
  "frac_digits 0 r = []"
| "frac_digits (Suc n) r =
     (let d = nat \<lfloor>10 * r\<rfloor>; r' = 10 * r - of_nat d
      in digit d # (if r' = 0 then [] else frac_digits n r'))"

definition show_float :: "rat \<Rightarrow> string" where
  "show_float q =
     (if q < 0 then ''-'' else '''') @ show_nat (nat \<lfloor>\<bar>q\<bar>\<rfloor>) @ ''.''
       @ frac_digits 17 (\<bar>q\<bar> - of_int \<lfloor>\<bar>q\<bar>\<rfloor>)"

text \<open>\<open>repr\<close> of a string: single quotes unless the text holds one and no double quote.\<close>

definition hex_digit :: "nat \<Rightarrow> char" where
  "hex_digit d = (if d < 10 then char_of (48 + d) else char_of (87 + d))"

definition repr_char :: "char \<Rightarrow> char \<Rightarrow> string" where
  "repr_char q c =
     (if c = q \<or> c = CHR 0x5C then [CHR 0x5C, c]
      else if code c = 10 then [CHR 0x5C, CHR ''n'']
      else if code c = 13 then [CHR 0x5C, CHR ''r'']
      else if code c = 9 then [CHR 0x5C, CHR ''t'']
      else if code c < 32 \<or> 127 \<le> code c \<and> code c \<le> 160 \<or> code c = 173
        then [CHR 0x5C, CHR ''x'', hex_digit (code c div 16), hex_digit (code c mod 16)]
      else [c])"

definition repr_str :: "string \<Rightarrow> string" where
  "repr_str s =
     (let q = (if CHR 0x27 \<in> set s \<and> CHR 0x22 \<notin> set s then CHR 0x22 else CHR 0x27)
      in [q] @ concat (map (repr_char q) s) @ [q])"

fun py_repr :: "json \<Rightarrow> string" where
  "py_repr JNull = ''None''"
| "py_repr (JBool b) = (if b then ''True'' else ''False'')"
| "py_repr (JInt i) = show_int i"
| "py_repr (JFloat q) = show_float q"
| "py_repr (JStr s) = repr_str s"
| "py_repr (JList xs) = ''['' @ join_with '', '' (map py_repr xs) @ '']''"
| "py_repr (JObj d) =
     ''{'' @ join_with '', '' (map (\<lambda>(k, v). repr_str k @ '': '' @ py_repr v) d) @ ''}''"

fun py_str :: "json \<Rightarrow> string" where
  "py_str (JStr s) = s"
| "py_str v = py_repr v"

text \<open>Headers and other string-keyed string lists; HTTP header names compare in lower case.\<close>

type_synonym headers = "(string \<times> string) list"

definition header_get :: "headers \<Rightarrow> string \<Rightarrow> string option" where
  "header_get hs k = map_of (map (\<lambda>(n, v). (py_lower n, v)) hs) (py_lower k)"

section \<open>Actions\<close>

text \<open>
  The exceptions the code raises or catches. \<open>HTTPException\<close> carries the status, the detail
  and the extra headers; \<open>HTTPError\<close> is a transport failure of \<open>httpx\<close>; the last constructor
  is any other Python error (a \<open>TypeError\<close>, an \<open>AttributeError\<close>), which the framework answers
  with a 500.
\<close>

datatype exc =
    HTTPException int json headers
  | HTTPError string
  | CatalogUnavailable string
  | CatalogMisconfigured string
  | TenantUnreachable string
  | OIDCError string
  | KeyError string
  | ValueError string
  | RuntimeError string
  | OSError string
  | PyError string

type_synonym ('s, 'a) act = "'s \<Rightarrow> (exc + 'a) \<times> 's"

definition ret :: "'a \<Rightarrow> ('s, 'a) act" where
  "ret x s = (Inr x, s)"

definition throw :: "exc \<Rightarrow> ('s, 'a) act" where
  "throw e s = (Inl e, s)"

definition andthen :: "('s, 'a) act \<Rightarrow> ('a \<Rightarrow> ('s, 'b) act) \<Rightarrow> ('s, 'b) act" where
  "andthen m k s = (case m s of (Inl e, s') \<Rightarrow> (Inl e, s') | (Inr x, s') \<Rightarrow> k x s')"

definition catch :: "('s, 'a) act \<Rightarrow> (exc \<Rightarrow> ('s, 'a) act) \<Rightarrow> ('s, 'a) act" where
  "catch m h s = (case m s of (Inl e, s') \<Rightarrow> h e s' | (Inr x, s') \<Rightarrow> (Inr x, s'))"

definition reading :: "('s \<Rightarrow> 'a) \<Rightarrow> ('s, 'a) act" where
  "reading f s = (Inr (f s), s)"

definition updating :: "('s \<Rightarrow> 's) \<Rightarrow> ('s, unit) act" where
  "updating f s = (Inr (), f s)"

text \<open>\<open>try ... finally\<close>: the clean-up runs on both paths; its own exception wins.\<close>

definition finally_do :: "('s, 'a) act \<Rightarrow> ('s, unit) act \<Rightarrow> ('s, 'a) act" where
  "finally_do m f s =
     (case m s of (r, s') \<Rightarrow> (case f s' of (Inl e, s'') \<Rightarrow> (Inl e, s'') | (Inr _, s'') \<Rightarrow> (r, s'')))"

lemmas act_defs = ret_def throw_def andthen_def catch_def reading_def updating_def finally_do_def

lemma run_ret [act_simps]: "ret x s = (Inr x, s)"
  by (simp add: ret_def)

lemma run_throw [act_simps]: "throw e s = (Inl e, s)"
  by (simp add: throw_def)

lemma run_reading [act_simps]: "reading f s = (Inr (f s), s)"
  by (simp add: reading_def)

lemma run_updating [act_simps]: "updating f s = (Inr (), f s)"
  by (simp add: updating_def)

lemma run_andthen [act_simps]:
  "andthen m k s = (case m s of (Inl e, s') \<Rightarrow> (Inl e, s') | (Inr x, s') \<Rightarrow> k x s')"
  by (simp add: andthen_def)

lemma run_catch [act_simps]:
  "catch m h s = (case m s of (Inl e, s') \<Rightarrow> h e s' | (Inr x, s') \<Rightarrow> (Inr x, s'))"
  by (simp add: catch_def)

lemma andthen_ret_left: "andthen (ret x) k = k x"
  by (rule ext) (simp add: act_simps)

lemma andthen_assoc: "andthen (andthen m k) h = andthen m (\<lambda>x. andthen (k x) h)"
  by (rule ext) (simp add: act_simps split: prod.splits sum.splits)

section \<open>Relations every step keeps\<close>

text \<open>
  \<open>stable R m\<close>: running \<open>m\<close> moves the state along \<open>R\<close>, whether it returns or raises. For a
  preorder \<open>R\<close> (the trace only grows, a field is untouched) it is closed under the combinators,
  so it is proved once per operation and composes along the handlers.
\<close>

definition stable :: "('s \<Rightarrow> 's \<Rightarrow> bool) \<Rightarrow> ('s, 'a) act \<Rightarrow> bool" where
  "stable R m \<longleftrightarrow> (\<forall>s. R s (snd (m s)))"

lemma stableD: "stable R m \<Longrightarrow> m s = (r, s') \<Longrightarrow> R s s'"
  unfolding stable_def by (metis snd_conv)

locale step_order =
  fixes R :: "'s \<Rightarrow> 's \<Rightarrow> bool"
  assumes R_refl: "R s s"
    and R_trans: "R s t \<Longrightarrow> R t u \<Longrightarrow> R s u"
begin

lemma stable_ret: "stable R (ret x)"
  by (simp add: stable_def act_simps R_refl)

lemma stable_throw: "stable R (throw e)"
  by (simp add: stable_def act_simps R_refl)

lemma stable_reading: "stable R (reading f)"
  by (simp add: stable_def act_simps R_refl)

lemma stable_updating: "(\<And>s. R s (f s)) \<Longrightarrow> stable R (updating f)"
  by (simp add: stable_def act_simps)

lemma stable_andthen:
  assumes "stable R m" and "\<And>x. stable R (k x)"
  shows "stable R (andthen m k)"
  unfolding stable_def
proof
  fix s
  obtain r s' where m: "m s = (r, s')" by (cases "m s")
  have "R s s'" using stableD [OF assms(1) m] .
  moreover have "R s' (snd (k x s'))" for x
    using assms(2) by (simp add: stable_def)
  ultimately show "R s (snd (andthen m k s))"
    using m by (auto simp: act_simps split: sum.splits intro: R_trans)
qed

lemma stable_catch:
  assumes "stable R m" and "\<And>e. stable R (h e)"
  shows "stable R (catch m h)"
  unfolding stable_def
proof
  fix s
  obtain r s' where m: "m s = (r, s')" by (cases "m s")
  have "R s s'" using stableD [OF assms(1) m] .
  moreover have "R s' (snd (h e s'))" for e
    using assms(2) by (simp add: stable_def)
  ultimately show "R s (snd (catch m h s))"
    using m by (auto simp: act_simps split: sum.splits intro: R_trans)
qed

lemma stable_if: "stable R a \<Longrightarrow> stable R b \<Longrightarrow> stable R (if c then a else b)"
  by simp

lemmas stable_combinators =
  stable_ret stable_throw stable_reading stable_andthen stable_catch stable_if

end

section \<open>What an action can raise\<close>

definition raises :: "(exc \<Rightarrow> bool) \<Rightarrow> ('s, 'a) act \<Rightarrow> bool" where
  "raises P m \<longleftrightarrow> (\<forall>s e s'. m s = (Inl e, s') \<longrightarrow> P e)"

named_theorems raises_intros

lemma raisesD: "raises P m \<Longrightarrow> m s = (Inl e, s') \<Longrightarrow> P e"
  unfolding raises_def by blast

lemma raises_ret [raises_intros]: "raises P (ret x)"
  by (simp add: raises_def act_simps)

lemma raises_throw [raises_intros]: "P e \<Longrightarrow> raises P (throw e)"
  by (simp add: raises_def act_simps)

lemma raises_reading [raises_intros]: "raises P (reading f)"
  by (simp add: raises_def act_simps)

lemma raises_updating [raises_intros]: "raises P (updating f)"
  by (simp add: raises_def act_simps)

lemma raises_andthen [raises_intros]:
  "raises P m \<Longrightarrow> (\<And>x. raises P (k x)) \<Longrightarrow> raises P (andthen m k)"
  by (fastforce simp: raises_def act_simps split: prod.splits sum.splits)

lemma raises_catch: "raises Q m \<Longrightarrow> (\<And>e. Q e \<Longrightarrow> raises P (h e)) \<Longrightarrow> raises P (catch m h)"
  by (fastforce simp: raises_def act_simps split: prod.splits sum.splits)

lemma raises_if [raises_intros]: "raises P a \<Longrightarrow> raises P b \<Longrightarrow> raises P (if c then a else b)"
  by simp

lemma raises_case_option [raises_intros]:
  "raises P a \<Longrightarrow> (\<And>x. raises P (f x)) \<Longrightarrow> raises P (case v of None \<Rightarrow> a | Some x \<Rightarrow> f x)"
  by (cases v) auto

lemma raises_mono: "raises Q m \<Longrightarrow> (\<And>e. Q e \<Longrightarrow> P e) \<Longrightarrow> raises P m"
  by (auto simp: raises_def)

lemma raises_any: "raises (\<lambda>_. True) m"
  by (simp add: raises_def)

end
