(* ===== verification/Ip_Address.thy ===== *)
theory Ip_Address
  imports Prelude "HOL-Library.Word"
begin

text \<open>
  What the code uses of the standard library's \<open>ipaddress\<close>: the address and network parsers for
  both versions, membership of an address in a network, and the IPv4 address inside an
  IPv4-mapped IPv6 one. Addresses are machine words of 32 and 128 bits; a parse failure (the
  library's \<open>ValueError\<close>) is \<open>None\<close>. A scope id is checked and dropped, because membership compares
  the integers only.
\<close>

unbundle bit_operations_syntax

datatype ip = V4 "32 word" | V6 "128 word"

text \<open>A network: its address with the host bits cleared and the length of its prefix.\<close>

datatype ip_net = Net4 "32 word" nat | Net6 "128 word" nat

section \<open>IPv4\<close>

definition parse_octet :: "string \<Rightarrow> int option" where
  "parse_octet s =
     (if s = [] then None
      else if \<not> list_all is_digit s then None
      else if 3 < length s then None
      else if s \<noteq> ''0'' \<and> hd s = CHR ''0'' then None
      else if 255 < digits_val s then None
      else Some (int (digits_val s)))"

definition parse_v4_int :: "string \<Rightarrow> int option" where
  "parse_v4_int s =
     (case map parse_octet (split_on (CHR ''.'') s) of
        [Some a, Some b, Some c, Some d] \<Rightarrow> Some (((a * 256 + b) * 256 + c) * 256 + d)
      | _ \<Rightarrow> None)"

definition parse_v4 :: "string \<Rightarrow> (32 word) option" where
  "parse_v4 s = map_option word_of_int (parse_v4_int s)"

section \<open>IPv6\<close>

definition hex_digit_val :: "char \<Rightarrow> int option" where
  "hex_digit_val c =
     (if is_digit c then Some (int (code c) - 48)
      else if 97 \<le> code c \<and> code c \<le> 102 then Some (int (code c) - 87)
      else if 65 \<le> code c \<and> code c \<le> 70 then Some (int (code c) - 55)
      else None)"

definition parse_hextet :: "string \<Rightarrow> int option" where
  "parse_hextet s =
     (if s = [] \<or> 4 < length s \<or> list_ex (\<lambda>c. hex_digit_val c = None) s then None
      else Some (foldl (\<lambda>n c. 16 * n + the (hex_digit_val c)) 0 s))"

fun show_hex :: "int \<Rightarrow> string" where
  "show_hex n =
     (if n < 16 then [hex_digit (nat n)] else show_hex (n div 16) @ [hex_digit (nat (n mod 16))])"

declare show_hex.simps [simp del]

text \<open>An IPv4-style suffix becomes two hexadecimal parts.\<close>

definition v6_parts :: "string \<Rightarrow> string list option" where
  "v6_parts s =
     (let parts = split_on (CHR '':'') s
      in if s = [] \<or> length parts < 3 then None
         else if CHR ''.'' \<in> set (last parts) then
           (case parse_v4_int (last parts) of
              None \<Rightarrow> None
            | Some n \<Rightarrow> Some (butlast parts @ [show_hex (n div 65536), show_hex (n mod 65536)]))
         else Some parts)"

text \<open>The layout of the parts: how many stand before the skipped run and how many after it.\<close>

definition v6_layout :: "string list \<Rightarrow> (nat \<times> nat \<times> nat) option" where
  "v6_layout parts =
     (let n = length parts
      in if 9 < n then None
         else (case filter (\<lambda>i. parts ! i = []) [1..<n - 1] of
                 [] \<Rightarrow> (if n \<noteq> 8 \<or> hd parts = [] \<or> last parts = [] then None else Some (n, 0, 0))
               | [i] \<Rightarrow>
                   (let hi = (if hd parts = [] then i - 1 else i);
                        lo = (if last parts = [] then n - i - 2 else n - i - 1)
                    in if hd parts = [] \<and> hi \<noteq> 0 then None
                       else if last parts = [] \<and> lo \<noteq> 0 then None
                       else if 8 < hi + lo + 1 then None
                       else Some (hi, 8 - (hi + lo), lo))
               | _ \<Rightarrow> None))"

definition hextets_val :: "int option list \<Rightarrow> int option" where
  "hextets_val hs =
     (if list_all (\<lambda>h. h \<noteq> None) hs then Some (foldl (\<lambda>n h. n * 65536 + the h) 0 hs) else None)"

definition parse_v6_int :: "string \<Rightarrow> int option" where
  "parse_v6_int s =
     (case v6_parts s of
        None \<Rightarrow> None
      | Some parts \<Rightarrow>
          (case v6_layout parts of
             None \<Rightarrow> None
           | Some (hi, skipped, lo) \<Rightarrow>
               hextets_val (map parse_hextet (take hi parts)
                            @ replicate skipped (Some 0)
                            @ map parse_hextet (drop (length parts - lo) parts))))"

definition split_scope :: "string \<Rightarrow> string option" where
  "split_scope s =
     (case split_on (CHR ''%'') s of
        [a] \<Rightarrow> Some a
      | [a, z] \<Rightarrow> (if z = [] then None else Some a)
      | _ \<Rightarrow> None)"

definition parse_v6 :: "string \<Rightarrow> (128 word) option" where
  "parse_v6 s =
     (case split_scope s of
        None \<Rightarrow> None
      | Some a \<Rightarrow> map_option word_of_int (parse_v6_int a))"

section \<open>Addresses and networks\<close>

definition ip_address :: "string \<Rightarrow> ip option" where
  "ip_address s =
     (if CHR ''/'' \<in> set s then None
      else (case parse_v4 s of
              Some w \<Rightarrow> Some (V4 w)
            | None \<Rightarrow> map_option V6 (parse_v6 s)))"

fun ipv4_mapped :: "ip \<Rightarrow> ip option" where
  "ipv4_mapped (V4 w) = None"
| "ipv4_mapped (V6 w) = (if drop_bit 32 w = 0xFFFF then Some (V4 (ucast w)) else None)"

text \<open>The netmask of a prefix: all ones but for the low bits.\<close>

definition netmask :: "nat \<Rightarrow> 'a::len word" where
  "netmask p = (- 1) XOR drop_bit p (- 1)"

definition prefix_of_string :: "nat \<Rightarrow> string \<Rightarrow> nat option" where
  "prefix_of_string mx s =
     (if s = [] \<or> \<not> list_all is_digit s then None
      else if mx < digits_val s then None
      else Some (digits_val s))"

fun trailing_zeros :: "nat \<Rightarrow> int \<Rightarrow> nat" where
  "trailing_zeros 0 n = 0"
| "trailing_zeros (Suc k) n = (if even n then Suc (trailing_zeros k (n div 2)) else 0)"

definition prefix_of_mask :: "int \<Rightarrow> nat option" where
  "prefix_of_mask n =
     (let z = trailing_zeros 32 n; p = 32 - z
      in if n div 2 ^ z = 2 ^ p - 1 then Some p else None)"

text \<open>An IPv4 mask may also be written as a dotted netmask or hostmask.\<close>

definition prefix_of_dotted :: "string \<Rightarrow> nat option" where
  "prefix_of_dotted s =
     (case parse_v4_int s of
        None \<Rightarrow> None
      | Some n \<Rightarrow>
          (case prefix_of_mask n of
             Some p \<Rightarrow> Some p
           | None \<Rightarrow> prefix_of_mask (2 ^ 32 - 1 - n)))"

definition split_netmask :: "string \<Rightarrow> (string \<times> string option) option" where
  "split_netmask s =
     (case split_on (CHR ''/'') s of
        [a] \<Rightarrow> Some (a, None)
      | [a, m] \<Rightarrow> Some (a, Some m)
      | _ \<Rightarrow> None)"

definition v4_network :: "string \<times> string option \<Rightarrow> ip_net option" where
  "v4_network am =
     (case parse_v4 (fst am) of
        None \<Rightarrow> None
      | Some w \<Rightarrow>
          (case (case snd am of
                   None \<Rightarrow> Some 32
                 | Some m \<Rightarrow> (case prefix_of_string 32 m of
                               Some p \<Rightarrow> Some p | None \<Rightarrow> prefix_of_dotted m)) of
             None \<Rightarrow> None
           | Some p \<Rightarrow> Some (Net4 (w AND netmask p) p)))"

definition v6_network :: "string \<times> string option \<Rightarrow> ip_net option" where
  "v6_network am =
     (case parse_v6 (fst am) of
        None \<Rightarrow> None
      | Some w \<Rightarrow>
          (case (case snd am of None \<Rightarrow> Some 128 | Some m \<Rightarrow> prefix_of_string 128 m) of
             None \<Rightarrow> None
           | Some p \<Rightarrow> Some (Net6 (w AND netmask p) p)))"

text \<open>\<open>ip_network(text, strict=False)\<close>.\<close>

definition ip_network :: "string \<Rightarrow> ip_net option" where
  "ip_network s =
     (case split_netmask s of
        None \<Rightarrow> None
      | Some am \<Rightarrow> (case v4_network am of Some n \<Rightarrow> Some n | None \<Rightarrow> v6_network am))"

fun in_net :: "ip \<Rightarrow> ip_net \<Rightarrow> bool" where
  "in_net (V4 w) (Net4 a p) = (w AND netmask p = a)"
| "in_net (V6 w) (Net6 a p) = (w AND netmask p = a)"
| "in_net _ _ = False"

section \<open>Membership is agreement on the prefix\<close>

lemma bit_netmask:
  "bit (netmask p :: 'a::len word) i \<longleftrightarrow> i < LENGTH('a) \<and> LENGTH('a) \<le> p + i"
  by (auto simp: netmask_def bit_xor_iff bit_drop_bit_eq bit_not_iff bit_mask_iff)

lemma and_netmask_eq_iff:
  fixes v w :: "'a::len word"
  assumes "p \<le> LENGTH('a)"
  shows "v AND netmask p = w AND netmask p \<longleftrightarrow>
         drop_bit (LENGTH('a) - p) v = drop_bit (LENGTH('a) - p) w"
proof
  assume eq: "v AND netmask p = w AND netmask p"
  show "drop_bit (LENGTH('a) - p) v = drop_bit (LENGTH('a) - p) w"
  proof (rule bit_word_eqI)
    fix i assume "i < LENGTH('a)"
    have "bit (v AND netmask p) (LENGTH('a) - p + i) = bit (w AND netmask p) (LENGTH('a) - p + i)"
      using eq by simp
    then have "LENGTH('a) - p + i < LENGTH('a) \<Longrightarrow>
        bit v (LENGTH('a) - p + i) = bit w (LENGTH('a) - p + i)"
      using assms by (simp add: bit_and_iff bit_netmask)
    then show "bit (drop_bit (LENGTH('a) - p) v) i = bit (drop_bit (LENGTH('a) - p) w) i"
      by (metis bit_drop_bit_eq bit_imp_le_length comp_apply leI not_le)
  qed
next
  assume eq: "drop_bit (LENGTH('a) - p) v = drop_bit (LENGTH('a) - p) w"
  show "v AND netmask p = w AND netmask p"
  proof (rule bit_word_eqI)
    fix i assume i: "i < LENGTH('a)"
    have "bit v i = bit w i" if "LENGTH('a) \<le> p + i"
    proof -
      have "bit (drop_bit (LENGTH('a) - p) v) (i - (LENGTH('a) - p)) =
            bit (drop_bit (LENGTH('a) - p) w) (i - (LENGTH('a) - p))"
        using eq by simp
      then show ?thesis using that assms by (simp add: bit_drop_bit_eq)
    qed
    then show "bit (v AND netmask p) i = bit (w AND netmask p) i"
      using i by (auto simp: bit_and_iff bit_netmask)
  qed
qed

lemma in_net_v4_prefix:
  "p \<le> 32 \<Longrightarrow> in_net (V4 v) (Net4 (w AND netmask p) p) \<longleftrightarrow> drop_bit (32 - p) v = drop_bit (32 - p) w"
  using and_netmask_eq_iff [where 'a = 32, of p v w] by simp

lemma in_net_v6_prefix:
  "p \<le> 128 \<Longrightarrow> in_net (V6 v) (Net6 (w AND netmask p) p) \<longleftrightarrow> drop_bit (128 - p) v = drop_bit (128 - p) w"
  using and_netmask_eq_iff [where 'a = 128, of p v w] by simp

text \<open>The parsers only produce prefixes that fit, and values that fit the word.\<close>

lemma prefix_of_string_le: "prefix_of_string mx s = Some p \<Longrightarrow> p \<le> mx"
  by (auto simp: prefix_of_string_def split: if_splits)

lemma prefix_of_mask_le: "prefix_of_mask n = Some p \<Longrightarrow> p \<le> 32"
  by (auto simp: prefix_of_mask_def Let_def split: if_splits)

lemma parse_octet_bounds: "parse_octet s = Some n \<Longrightarrow> 0 \<le> n \<and> n \<le> 255"
  by (auto simp: parse_octet_def split: if_splits)

lemma parse_v4_int_bound:
  assumes "parse_v4_int s = Some n"
  shows "0 \<le> n \<and> n < 2 ^ 32"
proof -
  from assms obtain a b c d where eq: "map parse_octet (split_on (CHR ''.'') s) = [Some a, Some b, Some c, Some d]"
    and n: "n = ((a * 256 + b) * 256 + c) * 256 + d"
    by (auto simp: parse_v4_int_def split: list.splits option.splits)
  have "Some x \<in> set [Some a, Some b, Some c, Some d] \<Longrightarrow> 0 \<le> x \<and> x \<le> 255" for x
    unfolding eq [symmetric] using parse_octet_bounds by fastforce
  then have "0 \<le> a \<and> a \<le> 255" "0 \<le> b \<and> b \<le> 255" "0 \<le> c \<and> c \<le> 255" "0 \<le> d \<and> d \<le> 255"
    by auto
  then show ?thesis unfolding n by simp
qed

lemma parse_v4_exact: "parse_v4 s = Some w \<Longrightarrow> parse_v4_int s = Some (uint w)"
proof -
  assume "parse_v4 s = Some w"
  then obtain n where n: "parse_v4_int s = Some n" "w = word_of_int n"
    by (auto simp: parse_v4_def)
  from parse_v4_int_bound [OF n(1)] have "n mod 2 ^ 32 = n" by simp
  with n show ?thesis by (simp add: uint_word_of_int)
qed

lemma ip_network_v4_sound:
  assumes "ip_network s = Some (Net4 a p)"
  shows "p \<le> 32 \<and> a AND netmask p = a"
proof -
  obtain am where am: "v4_network am = Some (Net4 a p)"
    using assms by (auto simp: ip_network_def v6_network_def split: option.splits)
  then obtain w where "a = w AND netmask p"
    by (auto simp: v4_network_def split: option.splits)
  moreover have "p \<le> 32"
    using am prefix_of_string_le prefix_of_mask_le
    by (auto simp: v4_network_def prefix_of_dotted_def split: option.splits)
  ultimately show ?thesis by (simp add: and.assoc)
qed

end
