(* ===== verification/Throttle.thy ===== *)
theory Throttle
  imports Ip_Address
begin

text \<open>
  The break-glass login throttle and the client address it counts against (\<open>app/throttle.py\<close>).

  The throttle's \<open>OrderedDict\<close> of deques is an association list, least recently touched first,
  each value the failure times of one address, oldest first. The operations take the clock
  readings they make as arguments and return the new throttle. \<open>login_attempt\<close> is what the
  login route does with the throttle between the address lookup and the session.

  Results: what a lock-out means and when it ends, the bound on admitted failures per window
  over every interleaving of addresses, the memory bound, and the resolution of the client
  address against spoofed headers.
\<close>

section \<open>The throttle\<close>

record throttle =
  max_failures :: int
  window :: int
  max_tracked :: nat
  fails :: "(string \<times> time list) list"

definition new_throttle :: "int \<Rightarrow> int \<Rightarrow> throttle" where
  "new_throttle mf w = \<lparr>max_failures = mf, window = w, max_tracked = 10000, fails = []\<rparr>"

text \<open>\<open>int(x)\<close> truncates towards zero.\<close>

definition py_trunc :: "rat \<Rightarrow> int" where
  "py_trunc x = (if x < 0 then \<lceil>x\<rceil> else \<lfloor>x\<rfloor>)"

definition prune :: "string \<Rightarrow> time \<Rightarrow> throttle \<Rightarrow> time list option \<times> throttle" where
  "prune ip now t =
     (case map_of (fails t) ip of
        None \<Rightarrow> (None, t)
      | Some dq \<Rightarrow>
          (let dq' = dropWhile (\<lambda>x. x < now - of_int (window t)) dq
           in if dq' = [] then (None, t\<lparr>fails := AList.delete ip (fails t)\<rparr>)
              else (Some dq', t\<lparr>fails := AList.update ip dq' (fails t)\<rparr>)))"

text \<open>\<open>retry_after\<close> reads the clock when it prunes and again for the remaining time.\<close>

definition retry_after :: "string \<Rightarrow> time \<Rightarrow> time \<Rightarrow> throttle \<Rightarrow> int \<times> throttle" where
  "retry_after ip now now' t =
     (case prune ip now t of
        (Some dq, t') \<Rightarrow>
          (if max_failures t \<le> int (length dq)
           then (max 1 (py_trunc (of_int (window t) - (now' - hd dq)) + 1), t')
           else (0, t'))
      | (None, t') \<Rightarrow> (0, t'))"

definition record_failure :: "string \<Rightarrow> time \<Rightarrow> throttle \<Rightarrow> exc + throttle" where
  "record_failure ip now t =
     (case map_of (fails t) ip of
        Some dq \<Rightarrow> Inr (t\<lparr>fails := AList.delete ip (fails t) @ [(ip, dq @ [now])]\<rparr>)
      | None \<Rightarrow>
          (if max_tracked t \<le> length (fails t) \<and> fails t = []
           then Inl (KeyError ''dictionary is empty'')
           else (let fs = (if max_tracked t \<le> length (fails t) then tl (fails t) else fails t)
                 in Inr (t\<lparr>fails := fs @ [(ip, [now])]\<rparr>))))"

definition record_success :: "string \<Rightarrow> throttle \<Rightarrow> throttle" where
  "record_success ip t = t\<lparr>fails := AList.delete ip (fails t)\<rparr>"

text \<open>The login route's use of the throttle: refuse while locked, else count or clear.\<close>

datatype verdict = Locked int | Rejected | Accepted

definition login_attempt :: "string \<Rightarrow> bool \<Rightarrow> time \<Rightarrow> throttle \<Rightarrow> exc + verdict \<times> throttle" where
  "login_attempt ip correct now t =
     (case retry_after ip now now t of
        (k, t') \<Rightarrow>
          (if k \<noteq> 0 then Inr (Locked k, t')
           else if correct then Inr (Accepted, record_success ip t')
           else (case record_failure ip now t' of
                   Inl e \<Rightarrow> Inl e
                 | Inr t'' \<Rightarrow> Inr (Rejected, t''))))"

section \<open>Well-formedness\<close>

text \<open>Distinct addresses, no empty deque, at most \<open>max_tracked\<close> addresses.\<close>

definition throttle_ok :: "throttle \<Rightarrow> bool" where
  "throttle_ok t \<longleftrightarrow> distinct (map fst (fails t)) \<and> (\<forall>x \<in> set (fails t). snd x \<noteq> [])
     \<and> length (fails t) \<le> max_tracked t"

lemma in_set_update: "x \<in> set (AList.update k v al) \<Longrightarrow> x = (k, v) \<or> x \<in> set al"
  by (induction al) (auto split: if_splits)

lemma set_delete: "set (AList.delete k al) = {x \<in> set al. fst x \<noteq> k}"
  by (auto simp: AList.delete_eq)

lemma length_delete: "length (AList.delete k al) \<le> length al"
  by (simp add: AList.delete_eq)

lemma length_update_present: "map_of al k \<noteq> None \<Longrightarrow> length (AList.update k v al) = length al"
  by (induction al) auto

lemma length_delete_present: "map_of al k \<noteq> None \<Longrightarrow> length (AList.delete k al) < length al"
proof (induction al)
  case (Cons a al)
  then show ?case
    using length_delete [of k al]
    by (cases "fst a = k") (auto simp: AList.delete_eq less_Suc_eq_le split: if_splits)
qed simp

lemma prune_fields [simp]:
  "max_failures (snd (prune ip now t)) = max_failures t"
  "window (snd (prune ip now t)) = window t"
  "max_tracked (snd (prune ip now t)) = max_tracked t"
  by (auto simp: prune_def Let_def split: option.splits)

lemma prune_result:
  "fst (prune ip now t) = map_of (fails (snd (prune ip now t))) ip"
  by (auto simp: prune_def Let_def map_of_update map_of_delete split: option.splits)

text \<open>What pruning does to the table: only the entry of \<open>ip\<close> changes, and an empty deque goes.\<close>

definition pruned :: "time \<Rightarrow> time list option \<Rightarrow> time list option" where
  "pruned cutoff e =
     (case e of None \<Rightarrow> None
      | Some dq \<Rightarrow> (if dropWhile (\<lambda>x. x < cutoff) dq = [] then None
                   else Some (dropWhile (\<lambda>x. x < cutoff) dq)))"

lemma prune_map:
  "map_of (fails (snd (prune ip now t))) =
     (map_of (fails t))(ip := pruned (now - of_int (window t)) (map_of (fails t) ip))"
proof (cases "map_of (fails t) ip")
  case None
  then show ?thesis by (simp add: prune_def pruned_def fun_upd_idem)
next
  case (Some dq)
  then show ?thesis
    by (cases "dropWhile (\<lambda>x. x < now - of_int (window t)) dq = []")
      (simp_all add: prune_def pruned_def Let_def map_of_update map_of_delete del: dropWhile_eq_Nil_conv)
qed

lemma prune_ok:
  assumes "throttle_ok t"
  shows "throttle_ok (snd (prune ip now t))"
proof (cases "map_of (fails t) ip")
  case None
  then show ?thesis using assms by (simp add: prune_def)
next
  case (Some dq)
  let ?dq = "dropWhile (\<lambda>x. x < now - of_int (window t)) dq"
  show ?thesis
  proof (cases "?dq = []")
    case True
    then show ?thesis
      using assms Some length_delete [of ip "fails t"]
      by (auto simp: prune_def throttle_ok_def distinct_delete set_delete Let_def)
  next
    case False
    moreover have "length (AList.update ip ?dq (fails t)) = length (fails t)"
      using Some by (simp add: length_update_present)
    moreover have "\<forall>x \<in> set (AList.update ip ?dq (fails t)). snd x \<noteq> []"
      using assms False by (auto simp: throttle_ok_def dest: in_set_update)
    moreover have "snd (prune ip now t) = t\<lparr>fails := AList.update ip ?dq (fails t)\<rparr>"
      using Some False by (simp only: prune_def Let_def option.case if_False snd_conv)
    ultimately show ?thesis
      using assms by (simp add: throttle_ok_def distinct_update)
  qed
qed

lemma snd_retry_after: "snd (retry_after ip now now' t) = snd (prune ip now t)"
  by (auto simp: retry_after_def split: prod.splits option.splits)

lemma record_success_ok: "throttle_ok t \<Longrightarrow> throttle_ok (record_success ip t)"
  using length_delete [of ip "fails t"]
  by (auto simp: record_success_def throttle_ok_def distinct_delete set_delete)

lemma record_failure_ok:
  assumes "throttle_ok t" and "record_failure ip now t = Inr t'"
  shows "throttle_ok t'"
proof (cases "map_of (fails t) ip")
  case None
  then have "ip \<notin> fst ` set (fails t)" by (simp add: map_of_eq_None_iff)
  then show ?thesis
    using assms None unfolding throttle_ok_def record_failure_def
    by (cases "fails t") (auto simp: Let_def split: if_splits)
next
  case (Some dq)
  then have "length (AList.delete ip (fails t)) < length (fails t)"
    by (simp add: length_delete_present)
  then show ?thesis
    using assms Some unfolding throttle_ok_def record_failure_def
    by (auto simp: distinct_delete set_delete)
qed

text \<open>With room for at least one address, recording a failure never raises.\<close>

lemma record_failure_total: "0 < max_tracked t \<Longrightarrow> \<exists>t'. record_failure ip now t = Inr t'"
  by (auto simp: record_failure_def Let_def split: option.splits)

section \<open>When an address is locked, and for how long\<close>

text \<open>The failures an address has on record, and those still inside the window.\<close>

definition on_record :: "throttle \<Rightarrow> string \<Rightarrow> time list" where
  "on_record t ip = (case map_of (fails t) ip of None \<Rightarrow> [] | Some dq \<Rightarrow> dq)"

definition in_window :: "throttle \<Rightarrow> string \<Rightarrow> time \<Rightarrow> time list" where
  "in_window t ip now = filter (\<lambda>x. now - of_int (window t) \<le> x) (on_record t ip)"

lemma dropWhile_less_sorted:
  "sorted xs \<Longrightarrow> dropWhile (\<lambda>x. x < (c :: 'a::linorder)) xs = filter (\<lambda>x. c \<le> x) xs"
proof (induction xs)
  case (Cons x xs)
  show ?case
  proof (cases "x < c")
    case False
    then have "\<forall>y \<in> set (x # xs). c \<le> y" using Cons.prems by force
    then have "filter (\<lambda>x. c \<le> x) (x # xs) = x # xs" by (intro filter_True) auto
    then show ?thesis using False by simp
  qed (use Cons in auto)
qed simp

lemma on_record_prune:
  "on_record (snd (prune ip now t)) i =
     (if i = ip then dropWhile (\<lambda>x. x < now - of_int (window t)) (on_record t ip) else on_record t i)"
  by (cases "map_of (fails t) ip")
    (auto simp: on_record_def prune_map pruned_def simp del: dropWhile_eq_Nil_conv)

lemma fst_prune_in_window:
  assumes "sorted (on_record t ip)"
  shows "fst (prune ip now t) = (if in_window t ip now = [] then None else Some (in_window t ip now))"
proof -
  have "in_window t ip now = dropWhile (\<lambda>x. x < now - of_int (window t)) (on_record t ip)"
    using assms by (simp add: in_window_def dropWhile_less_sorted)
  then show ?thesis
    unfolding prune_result prune_map pruned_def on_record_def by (simp split: option.splits)
qed

lemma retry_after_fst:
  "fst (retry_after ip now now' t) =
     (case fst (prune ip now t) of
        None \<Rightarrow> 0
      | Some dq \<Rightarrow> (if max_failures t \<le> int (length dq)
                   then max 1 (py_trunc (of_int (window t) - (now' - hd dq)) + 1) else 0))"
  by (auto simp: retry_after_def split: prod.splits option.splits)

theorem locked_iff_window_full:
  assumes "sorted (on_record t ip)" and "0 < max_failures t"
  shows "fst (retry_after ip now now' t) \<noteq> 0 \<longleftrightarrow> max_failures t \<le> int (length (in_window t ip now))"
  using assms by (auto simp: retry_after_fst fst_prune_in_window)

lemma py_trunc_above: "x < of_int (py_trunc x + 1)"
  unfolding py_trunc_def by (cases "x < 0"; simp; linarith)

text \<open>C27. Waiting for the announced \<open>Retry-After\<close> lifts a lock.\<close>

theorem lock_lifts:
  assumes "sorted (on_record t ip)" and "0 < max_failures t"
    and "int (length (on_record t ip)) \<le> max_failures t"
    and k: "fst (retry_after ip now now' t) = k" "k \<noteq> 0"
    and later: "now' + of_int k \<le> later"
  shows "fst (retry_after ip later later' t) = 0"
proof -
  let ?w = "in_window t ip now"
  have full: "max_failures t \<le> int (length ?w)" and ne: "?w \<noteq> []"
    using assms locked_iff_window_full by auto
  have "length ?w \<le> length (on_record t ip)" by (simp add: in_window_def)
  then have "length ?w = length (on_record t ip)" using full assms(3) by linarith
  then have w: "?w = on_record t ip"
    unfolding in_window_def using length_filter_less by (metis filter_True less_irrefl)
  have "k = max 1 (py_trunc (of_int (window t) - (now' - hd ?w)) + 1)"
    using k full ne assms(1) by (simp add: retry_after_fst fst_prune_in_window)
  then have "of_int (py_trunc (of_int (window t) - (now' - hd ?w)) + 1) \<le> (of_int k :: rat)"
    by (simp add: max_def)
  then have "of_int (window t) - (now' - hd ?w) < of_int k"
    using py_trunc_above less_le_trans by blast
  then have old: "hd ?w < later - of_int (window t)" using later by linarith
  obtain x xs where x: "on_record t ip = x # xs" using ne w by (cases "on_record t ip") auto
  then have "length (in_window t ip later) \<le> length xs"
    using old w by (simp add: in_window_def)
  then have "\<not> max_failures t \<le> int (length (in_window t ip later))"
    using assms(3) x by simp
  then show ?thesis using locked_iff_window_full assms(1,2) by blast
qed

theorem retry_after_bounds:
  assumes "\<forall>x \<in> set (on_record t ip). x \<le> now" and "now \<le> now'" and "0 \<le> window t"
    and "fst (retry_after ip now now' t) = k" "k \<noteq> 0"
  shows "1 \<le> k \<and> k \<le> window t + 1"
proof -
  obtain dq where dq: "fst (prune ip now t) = Some dq"
    using assms(4,5) by (cases "fst (prune ip now t)") (auto simp: retry_after_fst)
  then have "dq \<noteq> []" and sub: "set dq \<subseteq> set (on_record t ip)"
    unfolding prune_result prune_map pruned_def on_record_def
    by (auto split: option.splits if_splits dest: set_dropWhileD)
  then have "hd dq \<le> now" using assms(1) by (meson list.set_sel(1) subsetD)
  then have le: "of_int (window t) - (now' - hd dq) \<le> of_int (window t)"
    using assms(2) by linarith
  have "py_trunc (of_int (window t) - (now' - hd dq)) \<le> window t"
    unfolding py_trunc_def using le assms(3) by (simp add: floor_le_iff ceiling_le_iff; linarith)
  then show ?thesis using assms(3,4,5) dq by (auto simp: retry_after_fst max_def split: if_splits)
qed

section \<open>The brute-force bound\<close>

text \<open>Runs of login attempts: the address, whether the password is right, and the time.\<close>

fun run_attempts ::
  "(string \<times> bool \<times> time) list \<Rightarrow> throttle \<Rightarrow> exc + (string \<times> time \<times> verdict) list \<times> throttle" where
  "run_attempts [] t = Inr ([], t)"
| "run_attempts ((ip, correct, now) # es) t =
     (case login_attempt ip correct now t of
        Inl e \<Rightarrow> Inl e
      | Inr (v, t') \<Rightarrow>
          (case run_attempts es t' of
             Inl e \<Rightarrow> Inl e
           | Inr (vs, t'') \<Rightarrow> Inr ((ip, now, v) # vs, t'')))"

text \<open>The times at which a wrong password of \<open>ip\<close> was looked at and refused.\<close>

definition tries_of :: "string \<Rightarrow> (string \<times> time \<times> verdict) list \<Rightarrow> time list" where
  "tries_of ip vs = map (\<lambda>(i, x, v). x) (filter (\<lambda>(i, x, v). i = ip \<and> v = Rejected) vs)"

lemma tries_of_simps [simp]:
  "tries_of ip [] = []"
  "tries_of ip ((i, x, v) # vs) = (if i = ip \<and> v = Rejected then [x] else []) @ tries_of ip vs"
  by (auto simp: tries_of_def)

definition window_count :: "rat \<Rightarrow> rat \<Rightarrow> time list \<Rightarrow> nat" where
  "window_count a w H = length (filter (\<lambda>x. a \<le> x \<and> x \<le> a + w) H)"

text \<open>
  The invariant of a run in which \<open>ip\<close> only ever sends wrong passwords and the addresses
  \<open>ips\<close> fit the table: what is on record for \<open>ip\<close> are its tries since some cutoff that no
  longer matters, and no window holds more than \<open>max_failures\<close> of them.
\<close>

definition try_inv :: "string \<Rightarrow> string set \<Rightarrow> time list \<Rightarrow> time \<Rightarrow> throttle \<Rightarrow> bool" where
  "try_inv ip ips H now t \<longleftrightarrow>
     throttle_ok t \<and> fst ` set (fails t) \<subseteq> ips \<and> sorted H \<and> (\<forall>x \<in> set H. x \<le> now)
     \<and> (\<exists>c \<le> now - of_int (window t). on_record t ip = filter (\<lambda>x. c \<le> x) H)
     \<and> (\<forall>a. int (window_count a (of_int (window t)) H) \<le> max_failures t)"

lemma login_attempt_fields:
  assumes "login_attempt ip correct now t = Inr (v, t')"
  shows "window t' = window t \<and> max_failures t' = max_failures t \<and> max_tracked t' = max_tracked t"
proof -
  obtain k t1 where r: "retry_after ip now now t = (k, t1)" by (cases "retry_after ip now now t")
  then have t1: "t1 = snd (prune ip now t)" using snd_retry_after by (metis snd_conv)
  show ?thesis
    using assms r
    by (auto simp: login_attempt_def t1 record_success_def record_failure_def Let_def
        split: if_splits sum.splits option.splits)
qed

lemma on_record_success: "on_record (record_success ip t) i = (if i = ip then [] else on_record t i)"
  by (simp add: on_record_def record_success_def map_of_delete)

lemma map_of_snoc: "map_of (al @ [(k, v)]) i = (case map_of al i of Some x \<Rightarrow> Some x | None \<Rightarrow> if i = k then Some v else None)"
  by (auto simp: map_add_def split: option.splits)

lemma record_failure_room:
  assumes ok: "throttle_ok t" and ips: "insert ip (fst ` set (fails t)) \<subseteq> ips" "finite ips" "card ips \<le> max_tracked t"
    and f: "record_failure ip now t = Inr t'"
  shows "on_record t' i = (if i = ip then on_record t ip @ [now] else on_record t i)"
    and "fst ` set (fails t') \<subseteq> ips"
proof -
  have room: "length (fails t) < max_tracked t" if "map_of (fails t) ip = None"
  proof -
    have "ip \<notin> fst ` set (fails t)" using that by (simp add: map_of_eq_None_iff)
    then have "fst ` set (fails t) \<subset> ips" using ips(1) by blast
    then have "card (fst ` set (fails t)) < card ips" using ips(2) psubset_card_mono by blast
    moreover have "card (fst ` set (fails t)) = length (fails t)"
      using ok by (metis distinct_card length_map list.set_map throttle_ok_def)
    ultimately show ?thesis using ips(3) by simp
  qed
  show "on_record t' i = (if i = ip then on_record t ip @ [now] else on_record t i)"
    using f room
    by (auto simp: record_failure_def on_record_def map_of_snoc map_of_delete Let_def
        simp del: map_of_append split: option.splits if_splits)
  have "set (fails t') \<subseteq> insert (ip, snd (last (fails t'))) (set (fails t))"
    using f room
    by (auto simp: record_failure_def set_delete Let_def split: option.splits if_splits)
  then have "fst ` set (fails t') \<subseteq> insert ip (fst ` set (fails t))" by auto
  then show "fst ` set (fails t') \<subseteq> ips" using ips(1) by blast
qed

lemma window_count_snoc:
  "window_count a w (H @ [x]) = window_count a w H + (if a \<le> x \<and> x \<le> a + w then 1 else 0)"
  by (simp add: window_count_def)

lemma window_count_le_from:
  assumes "x - w \<le> a" shows "window_count a w H \<le> length (filter (\<lambda>y. x - w \<le> y) H)"
proof -
  have "filter (\<lambda>y. a \<le> y \<and> y \<le> a + w) H = filter (\<lambda>y. a \<le> y \<and> y \<le> a + w) (filter (\<lambda>y. x - w \<le> y) H)"
    using assms by (auto intro!: filter_cong)
  then show ?thesis unfolding window_count_def by (metis length_filter_le)
qed

lemma try_inv_step:
  assumes inv: "try_inv ip ips H now t"
    and ips: "finite ips" "card ips \<le> max_tracked t" "i \<in> ips"
    and mono: "now \<le> x" and w: "0 \<le> window t" and mf: "0 < max_failures t"
    and wrong: "i = ip \<Longrightarrow> \<not> correct"
    and step: "login_attempt i correct x t = Inr (v, t')"
  shows "try_inv ip ips (H @ (if i = ip \<and> v = Rejected then [x] else [])) x t'"
proof -
  let ?w = "of_int (window t) :: rat"
  obtain c where c: "c \<le> now - ?w" and rec: "on_record t ip = filter (\<lambda>x. c \<le> x) H"
    and ok: "throttle_ok t" and sub: "fst ` set (fails t) \<subseteq> ips" and sH: "sorted H"
    and le: "\<forall>x \<in> set H. x \<le> now"
    and bnd: "\<And>a. int (window_count a ?w H) \<le> max_failures t"
    using inv unfolding try_inv_def by blast
  define t1 where "t1 = snd (prune i x t)"
  obtain k where r: "retry_after i x x t = (k, t1)"
    using snd_retry_after t1_def by (metis prod.collapse)
  have t1: "throttle_ok t1" "fst ` set (fails t1) \<subseteq> ips" "max_tracked t1 = max_tracked t"
    "window t1 = window t" "max_failures t1 = max_failures t"
    using ok sub prune_ok prune_map [of i x t]
    by (auto simp: t1_def dom_map_of_conv_image_fst [symmetric] pruned_def split: if_splits option.splits)
  note fields = login_attempt_fields [OF step]
  have le': "\<forall>y \<in> set H. y \<le> x" using le mono by force
  show ?thesis
  proof (cases "i = ip")
    case False
    have rec1: "on_record t1 ip = on_record t ip" using False by (simp add: t1_def on_record_prune)
    have "on_record t' ip = on_record t ip \<and> throttle_ok t' \<and> fst ` set (fails t') \<subseteq> ips"
    proof (cases "k \<noteq> 0 \<or> correct")
      case True
      then have "t' = t1 \<or> t' = record_success i t1"
        using step r by (auto simp: login_attempt_def split: if_splits)
      moreover have "fst ` set (fails (record_success i t1)) \<subseteq> fst ` set (fails t1)"
        by (auto simp: record_success_def set_delete)
      ultimately show ?thesis
        using t1 rec1 False record_success_ok on_record_success [of i t1 ip] by auto
    next
      case False': False
      then have f: "record_failure i x t1 = Inr t'"
        using step r by (auto simp: login_attempt_def split: if_splits sum.splits)
      have "insert i (fst ` set (fails t1)) \<subseteq> ips" using t1 ips(3) by blast
      then show ?thesis
        using record_failure_room [OF t1(1) _ ips(1) _ f] record_failure_ok [OF t1(1) f] ips(2) t1(3) rec1 False
        by auto
    qed
    moreover have "c \<le> x - ?w" using c mono by linarith
    ultimately show ?thesis
      using False sH le' bnd fields rec unfolding try_inv_def by auto
  next
    case True
    have recent: "on_record t1 ip = filter (\<lambda>y. x - ?w \<le> y) H"
    proof -
      have "on_record t1 ip = dropWhile (\<lambda>y. y < x - ?w) (filter (\<lambda>y. c \<le> y) H)"
        using True rec by (simp add: t1_def on_record_prune)
      also have "\<dots> = filter (\<lambda>y. x - ?w \<le> y) (filter (\<lambda>y. c \<le> y) H)"
        using sH by (intro dropWhile_less_sorted) (metis (mono_tags) sorted_filter list.map_ident)
      also have "\<dots> = filter (\<lambda>y. x - ?w \<le> y) H"
        using c mono by (auto simp: filter_filter intro!: filter_cong)
      finally show ?thesis .
    qed
    have win: "in_window t ip x = filter (\<lambda>y. x - ?w \<le> y) H"
      using rec c mono by (auto simp: in_window_def filter_filter intro!: filter_cong)
    have srec: "sorted (on_record t ip)"
      using rec sH by (metis (mono_tags) sorted_filter list.map_ident)
    show ?thesis
    proof (cases "k \<noteq> 0")
      case locked: True
      then have "t' = t1" "v = Locked k" using step r by (auto simp: login_attempt_def)
      then show ?thesis
        using t1 sH le' bnd recent unfolding try_inv_def by (simp add: exI [where x = "x - ?w"])
    next
      case False
      then have f: "record_failure ip x t1 = Inr t'" and v: "v = Rejected"
        using step r wrong True by (auto simp: login_attempt_def split: if_splits sum.splits)
      have few: "int (length (filter (\<lambda>y. x - ?w \<le> y) H)) < max_failures t"
        using locked_iff_window_full [OF srec mf, of x x] r False True win by simp
      have ins: "insert ip (fst ` set (fails t1)) \<subseteq> ips" using t1 ips(3) True by blast
      have room: "card ips \<le> max_tracked t1" using ips(2) t1(3) by simp
      have new: "on_record t' ip = filter (\<lambda>y. x - ?w \<le> y) (H @ [x])"
        using record_failure_room(1) [OF t1(1) ins ips(1) room f, of ip] recent w by simp
      have "int (window_count a ?w (H @ [x])) \<le> max_failures t" for a
        using bnd [of a] few window_count_le_from [of x ?w a H]
        by (auto simp: window_count_snoc)
      then show ?thesis
        using new record_failure_room(2) [OF t1(1) ins ips(1) room f] record_failure_ok [OF t1(1) f]
          sH le' v True fields unfolding try_inv_def
        by (auto simp: sorted_append intro!: exI [where x = "x - ?w"])
    qed
  qed
qed

lemma try_inv_run:
  assumes "run_attempts es t = Inr (vs, t')"
    and "try_inv ip ips H now t" "finite ips" "card ips \<le> max_tracked t"
    and "sorted (now # map (\<lambda>(i, b, x). x) es)" "fst ` set es \<subseteq> ips"
    and "\<forall>(i, b, x) \<in> set es. i = ip \<longrightarrow> \<not> b" "0 \<le> window t" "0 < max_failures t"
  shows "\<exists>now'. try_inv ip ips (H @ tries_of ip vs) now' t' \<and> window t' = window t \<and> max_failures t' = max_failures t"
  using assms
proof (induction es arbitrary: t H now vs)
  case Nil
  then show ?case by auto
next
  case (Cons e es)
  obtain i b x where e: "e = (i, b, x)" by (cases e)
  obtain v t1 vs' where s: "login_attempt i b x t = Inr (v, t1)" and r: "run_attempts es t1 = Inr (vs', t')"
    and vs: "vs = (i, x, v) # vs'"
    using Cons.prems(1) e by (auto split: sum.splits prod.splits)
  note fields = login_attempt_fields [OF s]
  have "try_inv ip ips (H @ (if i = ip \<and> v = Rejected then [x] else [])) x t1"
    using Cons.prems e by (intro try_inv_step [OF _ _ _ _ _ _ _ _ s, of ip ips H now]) auto
  then show ?case
    using Cons.IH [OF r, of "H @ (if i = ip \<and> v = Rejected then [x] else [])" x] Cons.prems e vs fields
    by auto
qed


lemma run_attempts_total: "0 < max_tracked t \<Longrightarrow> \<exists>r. run_attempts es t = Inr r"
proof (induction es arbitrary: t)
  case (Cons e es)
  obtain i b x where e: "e = (i, b, x)" by (cases e)
  obtain k t1 where r: "retry_after i x x t = (k, t1)" by (cases "retry_after i x x t")
  then have "max_tracked t1 = max_tracked t" using snd_retry_after prune_fields by (metis snd_conv)
  then obtain v t2 where "login_attempt i b x t = Inr (v, t2)"
    using r record_failure_total [of t1 i x] Cons.prems by (fastforce simp: login_attempt_def)
  then show ?case
    using Cons.IH [of t2] Cons.prems login_attempt_fields e by fastforce
qed simp

section \<open>The client's address\<close>

text \<open>
  The networks of \<open>TRUSTED_PROXY_CIDRS\<close> (an invalid entry raises), an address from a header
  entry, and the walk over \<open>X-Forwarded-For\<close> from its right end.
\<close>

fun parse_trusted_proxy_cidrs :: "string list \<Rightarrow> exc + ip_net list" where
  "parse_trusted_proxy_cidrs [] = Inr []"
| "parse_trusted_proxy_cidrs (raw # vs) =
     (let txt = py_strip raw in
      if txt = [] then parse_trusted_proxy_cidrs vs
      else (case ip_network txt of
              None \<Rightarrow> Inl (ValueError txt)
            | Some n \<Rightarrow>
                (case parse_trusted_proxy_cidrs vs of
                   Inl e \<Rightarrow> Inl e
                 | Inr ns \<Rightarrow> Inr (n # ns))))"

definition parse_ip :: "string \<Rightarrow> ip option" where
  "parse_ip txt =
     (case ip_address (hd (split_on (CHR ''%'') txt)) of
        None \<Rightarrow> None
      | Some a \<Rightarrow> (case ipv4_mapped a of Some m \<Rightarrow> Some m | None \<Rightarrow> Some a))"

definition is_trusted :: "string \<Rightarrow> ip_net list \<Rightarrow> bool" where
  "is_trusted txt nets =
     (case parse_ip txt of None \<Rightarrow> False | Some a \<Rightarrow> list_ex (in_net a) nets)"

text \<open>The loop of \<open>client_ip\<close>; the entries come reversed, so a \<open>pop\<close> takes the head.\<close>

fun xff_walk :: "ip_net list \<Rightarrow> string \<Rightarrow> string list \<Rightarrow> string" where
  "xff_walk nets hop [] = hop"
| "xff_walk nets hop (e # es) = (if is_trusted hop nets then xff_walk nets e es else hop)"

definition client_ip :: "string option \<Rightarrow> headers \<Rightarrow> ip_net list \<Rightarrow> string" where
  "client_ip client hs trusted =
     (let peer = (case client of Some h \<Rightarrow> h | None \<Rightarrow> ''unknown'') in
      if trusted = [] then peer
      else (case header_get hs ''x-forwarded-for'' of
              None \<Rightarrow> peer
            | Some xff \<Rightarrow>
                (if xff = [] then peer
                 else (let hop = xff_walk trusted peer (rev (split_csv xff)) in
                       if is_trusted hop trusted \<or> parse_ip hop = None then peer else hop))))"

lemma xff_walk_untrusted [simp]: "\<not> is_trusted hop nets \<Longrightarrow> xff_walk nets hop es = hop"
  by (cases es) auto

lemma xff_walk_cut:
  "\<exists>e \<in> set es. \<not> is_trusted e nets \<Longrightarrow> xff_walk nets hop (es @ rest) = xff_walk nets hop es"
  by (induction es arbitrary: hop) auto

lemma xff_walk_spec:
  "\<not> is_trusted (xff_walk nets hop es) nets \<Longrightarrow>
     \<not> is_trusted hop nets \<and> xff_walk nets hop es = hop
     \<or> is_trusted hop nets \<and>
       (\<exists>as bs. es = as @ xff_walk nets hop es # bs \<and> list_all (\<lambda>e. is_trusted e nets) as)"
proof (induction es arbitrary: hop)
  case (Cons e es)
  show ?case
  proof (cases "is_trusted hop nets")
    case True
    from Cons.IH [of e] Cons.prems True consider
        "\<not> is_trusted e nets" "xff_walk nets e es = e"
      | as bs where "is_trusted e nets" "es = as @ xff_walk nets e es # bs"
          "list_all (\<lambda>e. is_trusted e nets) as"
      by auto
    then show ?thesis
    proof cases
      case 1
      then show ?thesis using True by (intro disjI2 conjI exI [where x = "[]"] exI [where x = es]) simp_all
    next
      case (2 as bs)
      then show ?thesis using True
        by (intro disjI2 conjI exI [where x = "e # as"] exI [where x = bs]) simp_all
    qed
  qed simp
qed simp

lemma split_on_append_sep: "split_on c (a @ c # b) = split_on c a @ split_on c b"
proof (induction a)
  case (Cons x a)
  obtain p ps where "split_on c a = p # ps" using split_on_not_Nil by (cases "split_on c a") auto
  then show ?case using Cons by simp
qed simp

lemma split_csv_append: "split_csv (a @ CHR '','' # b) = split_csv a @ split_csv b"
  by (simp add: split_csv_def split_on_append_sep)

lemma split_csv_Nil [simp]: "split_csv [] = []"
  by (simp add: split_csv_def py_strip_def lstrip_by_def rstrip_by_def)

text \<open>A caller that is not behind trusted infrastructure is counted by its TCP address,
  whatever headers it sends.\<close>

theorem untrusted_peer_ignores_headers:
  assumes "\<not> is_trusted peer trusted"
  shows "client_ip (Some peer) hs trusted = peer"
  using assms by (simp add: client_ip_def Let_def split: option.split)

theorem untrusted_peer_ignores_headers_witness:
  "\<not> is_trusted ''8.8.8.8'' [Net4 0x0A000000 8]
   \<and> client_ip (Some ''8.8.8.8'') [(''X-Forwarded-For'', ''1.2.3.4'')] [Net4 0x0A000000 8] = ''8.8.8.8''"
  using untrusted_peer_ignores_headers [of "''8.8.8.8''" "[Net4 0x0A000000 8]"]
  by code_simp


text \<open>The address is the peer, or an entry of the header that is a valid address outside the
  trusted networks and is reached from a trusted peer through trusted entries only.\<close>

theorem client_ip_provenance:
  "client_ip (Some peer) hs trusted = peer
   \<or> (\<exists>xff left right.
        header_get hs ''x-forwarded-for'' = Some xff
        \<and> split_csv xff = left @ client_ip (Some peer) hs trusted # right
        \<and> is_trusted peer trusted \<and> list_all (\<lambda>e. is_trusted e trusted) right
        \<and> \<not> is_trusted (client_ip (Some peer) hs trusted) trusted
        \<and> parse_ip (client_ip (Some peer) hs trusted) \<noteq> None)"
proof (cases "client_ip (Some peer) hs trusted = peer")
  case False
  let ?hop = "\<lambda>xff. xff_walk trusted peer (rev (split_csv xff))"
  obtain xff where x: "header_get hs ''x-forwarded-for'' = Some xff"
    and hop: "client_ip (Some peer) hs trusted = ?hop xff"
    and un: "\<not> is_trusted (?hop xff) trusted" and ip: "parse_ip (?hop xff) \<noteq> None"
    using False by (auto simp: client_ip_def Let_def split: option.splits if_splits)
  then obtain as bs where "rev (split_csv xff) = as @ ?hop xff # bs" "is_trusted peer trusted"
      "list_all (\<lambda>e. is_trusted e trusted) as"
    using xff_walk_spec [OF un] False by auto
  then have "split_csv xff = rev bs @ ?hop xff # rev as"
    by (metis (no_types) append_Cons append_assoc rev.simps(2) rev_append rev_rev_ident append_Nil)
  then show ?thesis
    using x un ip hop \<open>is_trusted peer trusted\<close> \<open>list_all _ as\<close>
    by (metis list_all_rev)
qed simp

text \<open>The fallback to the peer is decided on the address before the first percent sign, so the
  returned key may carry any text after it.\<close>

lemma scope_suffix_kept:
  "client_ip (Some ''10.0.0.1'') [(''x-forwarded-for'', ''1.2.3.4%anything'')] [Net4 0x0A000000 8]
     = ''1.2.3.4%anything''"
  by code_simp

text \<open>Parsing the trust list drops no entry: it raises, or yields one network per non-blank
  entry, in order.\<close>

theorem trusted_cidrs_complete:
  assumes "parse_trusted_proxy_cidrs vs = Inr nets"
  shows "map Some nets = map ip_network (filter (\<lambda>t. t \<noteq> []) (map py_strip vs))"
  using assms
proof (induction vs arbitrary: nets)
  case (Cons v vs)
  then show ?case by (auto simp: Let_def split: if_splits option.splits sum.splits)
qed simp

section \<open>At concrete inputs\<close>


definition demo_locked :: throttle where
  "demo_locked = (new_throttle 2 60)\<lparr>fails := [(''a'', [0, 2])]\<rparr>"

theorem lock_lifts_witness:
  "fst (retry_after ''a'' 3 3 demo_locked) = 58 \<and> fst (retry_after ''a'' 61 61 demo_locked) = 0"
proof -
  have k: "fst (retry_after ''a'' 3 3 demo_locked) = 58"
    by (simp add: demo_locked_def new_throttle_def retry_after_def prune_def py_trunc_def Let_def)
  have "fst (retry_after ''a'' 61 61 demo_locked) = 0"
    by (rule lock_lifts [of _ _ 3 3 58])
      (use k in \<open>simp_all add: demo_locked_def new_throttle_def on_record_def\<close>)
  then show ?thesis using k by simp
qed


theorem trusted_cidrs_complete_witness:
  "parse_trusted_proxy_cidrs ['' 10.0.0.0/8'', ''''] = Inr [Net4 0x0A000000 8]
   \<and> map Some [Net4 0x0A000000 8] = map ip_network [''10.0.0.0/8'']"
proof -
  have p: "parse_trusted_proxy_cidrs ['' 10.0.0.0/8'', ''''] = Inr [Net4 0x0A000000 8]" by code_simp
  have "filter (\<lambda>t. t \<noteq> []) (map py_strip ['' 10.0.0.0/8'', '''']) = [''10.0.0.0/8'']" by code_simp
  then show ?thesis using trusted_cidrs_complete [OF p] p by simp
qed

end
