(* ===== verification/Json_Text.thy ===== *)
theory Json_Text
  imports Prelude
begin

text \<open>
  The text form of JSON values, as the code's \<open>json.dumps\<close> and \<open>json.loads\<close> calls use it: the
  writer with \<open>ensure_ascii\<close> escapes and either separator style, \<open>sort_keys\<close> as the
  normalisation \<open>canon\<close>, and the reader of the standard library's decoder. The result of the
  theory is the round trip: reading what was written gives the value back.

  Bounds: code points above 255 and the literals \<open>NaN\<close>, \<open>Infinity\<close> and \<open>-Infinity\<close> are outside
  the value type, so the reader refuses them. The reader's fuel is the length of the text plus
  one, which \<open>json_loads_dumps\<close> shows to be enough for every text the writer makes.
\<close>

section \<open>Writing\<close>

definition escape_char :: "char \<Rightarrow> string" where
  "escape_char c =
     (if c = CHR 0x22 then [CHR 0x5C, CHR 0x22]
      else if c = CHR 0x5C then [CHR 0x5C, CHR 0x5C]
      else if code c = 10 then [CHR 0x5C, CHR ''n'']
      else if code c = 13 then [CHR 0x5C, CHR ''r'']
      else if code c = 9 then [CHR 0x5C, CHR ''t'']
      else if code c = 12 then [CHR 0x5C, CHR ''f'']
      else if code c = 8 then [CHR 0x5C, CHR ''b'']
      else if 32 \<le> code c \<and> code c \<le> 126 then [c]
      else [CHR 0x5C, CHR ''u'', CHR ''0'', CHR ''0'',
            hex_digit (code c div 16), hex_digit (code c mod 16)])"

definition string_text :: "string \<Rightarrow> string" where
  "string_text s = [CHR 0x22] @ concat (map escape_char s) @ [CHR 0x22]"

text \<open>The argument \<open>sp\<close> is what follows a comma or a colon: \<open>''''\<close> for the compact separators
  \<open>(",", ":")\<close>, one blank for the default ones.\<close>

fun json_text :: "string \<Rightarrow> json \<Rightarrow> string" where
  "json_text sp JNull = ''null''"
| "json_text sp (JBool b) = (if b then ''true'' else ''false'')"
| "json_text sp (JInt i) = show_int i"
| "json_text sp (JFloat q) = show_float q"
| "json_text sp (JStr s) = string_text s"
| "json_text sp (JList xs) =
     ''['' @ join_with ('','' @ sp) (map (json_text sp) xs) @ '']''"
| "json_text sp (JObj d) =
     ''{'' @ join_with ('','' @ sp)
              (map (\<lambda>(k, v). string_text k @ '':'' @ sp @ json_text sp v) d) @ ''}''"

text \<open>\<open>sort_keys=True\<close>: every dict in ascending key order.\<close>

fun canon :: "json \<Rightarrow> json" where
  "canon (JList xs) = JList (map canon xs)"
| "canon (JObj d) = JObj (sort_key fst (map (\<lambda>(k, v). (k, canon v)) d))"
| "canon v = v"

definition json_dumps :: "json \<Rightarrow> string" where
  "json_dumps v = json_text '' '' v"

definition json_dumps_sorted :: "json \<Rightarrow> string" where
  "json_dumps_sorted v = json_text '''' (canon v)"

section \<open>Reading\<close>

definition json_ws :: "char \<Rightarrow> bool" where
  "json_ws c = (code c = 32 \<or> code c = 9 \<or> code c = 10 \<or> code c = 13)"

definition skip_ws :: "string \<Rightarrow> string" where
  "skip_ws s = dropWhile json_ws s"

definition hex_val :: "char \<Rightarrow> nat option" where
  "hex_val c =
     (if is_digit c then Some (code c - 48)
      else if 97 \<le> code c \<and> code c \<le> 102 then Some (code c - 87)
      else if 65 \<le> code c \<and> code c \<le> 70 then Some (code c - 55)
      else None)"

definition hex4 :: "char \<Rightarrow> char \<Rightarrow> char \<Rightarrow> char \<Rightarrow> nat option" where
  "hex4 a b c d =
     (case (hex_val a, hex_val b, hex_val c, hex_val d) of
        (Some i, Some j, Some k, Some l) \<Rightarrow> Some (((i * 16 + j) * 16 + k) * 16 + l)
      | _ \<Rightarrow> None)"

definition unescape :: "char \<Rightarrow> char option" where
  "unescape e =
     (if e = CHR 0x22 \<or> e = CHR 0x5C \<or> e = CHR ''/'' then Some e
      else if e = CHR ''b'' then Some (char_of (8 :: nat))
      else if e = CHR ''f'' then Some (char_of (12 :: nat))
      else if e = CHR ''n'' then Some (char_of (10 :: nat))
      else if e = CHR ''r'' then Some (char_of (13 :: nat))
      else if e = CHR ''t'' then Some (char_of (9 :: nat))
      else None)"

definition cons_fst :: "char \<Rightarrow> (string \<times> string) option \<Rightarrow> (string \<times> string) option" where
  "cons_fst x r = map_option (\<lambda>(t, u). (x # t, u)) r"

fun parse_str :: "string \<Rightarrow> (string \<times> string) option" where
  "parse_str [] = None"
| "parse_str (c # cs) =
     (if c = CHR 0x22 then Some ([], cs)
      else if c = CHR 0x5C then
        (case cs of
           [] \<Rightarrow> None
         | e # r \<Rightarrow>
             (if e = CHR ''u'' then
                (case r of
                   h1 # h2 # h3 # h4 # r' \<Rightarrow>
                     (case hex4 h1 h2 h3 h4 of
                        None \<Rightarrow> None
                      | Some v \<Rightarrow> (if v < 256 then cons_fst (char_of v) (parse_str r') else None))
                 | _ \<Rightarrow> None)
              else
                (case unescape e of
                   None \<Rightarrow> None
                 | Some x \<Rightarrow> cons_fst x (parse_str r))))
      else if code c < 32 then None
      else cons_fst c (parse_str cs))"

text \<open>Numbers: an integer part, then an optional fraction and an optional exponent.\<close>

definition frac_part :: "string \<Rightarrow> string \<times> string" where
  "frac_part s =
     (case s of
        [] \<Rightarrow> ([], s)
      | c # r \<Rightarrow> (if c = CHR ''.'' \<and> takeWhile is_digit r \<noteq> []
                 then (takeWhile is_digit r, dropWhile is_digit r) else ([], s)))"

definition exp_part :: "string \<Rightarrow> int option \<times> string" where
  "exp_part s =
     (case s of
        [] \<Rightarrow> (None, s)
      | c # r \<Rightarrow>
          (if c = CHR ''e'' \<or> c = CHR ''E'' then
             (let neg = (r \<noteq> [] \<and> hd r = CHR ''-'');
                  u = (if r \<noteq> [] \<and> (hd r = CHR ''-'' \<or> hd r = CHR ''+'') then tl r else r);
                  ds = takeWhile is_digit u
              in if ds = [] then (None, s)
                 else (Some (if neg then - int (digits_val ds) else int (digits_val ds)),
                       dropWhile is_digit u))
           else (None, s)))"

definition int_part :: "string \<Rightarrow> (string \<times> string) option" where
  "int_part s =
     (case s of
        [] \<Rightarrow> None
      | c # r \<Rightarrow> (if c = CHR ''0'' then Some ([c], r)
                 else if is_digit c then Some (takeWhile is_digit s, dropWhile is_digit s)
                 else None))"

definition scale10 :: "rat \<Rightarrow> int \<Rightarrow> rat" where
  "scale10 q e = (if 0 \<le> e then q * 10 ^ nat e else q / 10 ^ nat (- e))"

definition parse_num :: "string \<Rightarrow> (json \<times> string) option" where
  "parse_num s =
     (let neg = (s \<noteq> [] \<and> hd s = CHR ''-''); t = (if neg then tl s else s)
      in case int_part t of
           None \<Rightarrow> None
         | Some (ds, r) \<Rightarrow>
             (case frac_part r of
                (fs, r1) \<Rightarrow>
                  (case exp_part r1 of
                     (e, r2) \<Rightarrow>
                       (if fs = [] \<and> e = None then
                          Some (JInt (if neg then - int (digits_val ds) else int (digits_val ds)), r2)
                        else
                          (let m = scale10 (of_nat (digits_val (ds @ fs)))
                                     ((case e of None \<Rightarrow> 0 | Some i \<Rightarrow> i) - int (length fs))
                           in Some (JFloat (if neg then - m else m), r2))))))"

definition parse_word :: "string \<Rightarrow> (json \<times> string) option" where
  "parse_word s =
     (if prefix ''null'' s then Some (JNull, drop 4 s)
      else if prefix ''true'' s then Some (JBool True, drop 4 s)
      else if prefix ''false'' s then Some (JBool False, drop 5 s)
      else parse_num s)"

definition dict_of_pairs :: "(string \<times> json) list \<Rightarrow> dict" where
  "dict_of_pairs kvs = fold (\<lambda>(k, v) d. dict_set k v d) kvs []"

fun parse_val :: "nat \<Rightarrow> string \<Rightarrow> (json \<times> string) option"
  and parse_elems :: "nat \<Rightarrow> string \<Rightarrow> (json list \<times> string) option"
  and parse_members :: "nat \<Rightarrow> string \<Rightarrow> ((string \<times> json) list \<times> string) option" where
  "parse_val 0 s = None"
| "parse_val (Suc n) s =
     (case s of
        [] \<Rightarrow> None
      | c # cs \<Rightarrow>
          (if c = CHR 0x22 then map_option (\<lambda>(t, r). (JStr t, r)) (parse_str cs)
           else if c = CHR ''{'' then
             (case skip_ws cs of
                [] \<Rightarrow> None
              | b # bs \<Rightarrow>
                  (if b = CHR ''}'' then Some (JObj [], bs)
                   else map_option (\<lambda>(kvs, r). (JObj (dict_of_pairs kvs), r))
                          (parse_members n (b # bs))))
           else if c = CHR ''['' then
             (case skip_ws cs of
                [] \<Rightarrow> None
              | b # bs \<Rightarrow>
                  (if b = CHR '']'' then Some (JList [], bs)
                   else map_option (\<lambda>(xs, r). (JList xs, r)) (parse_elems n (b # bs))))
           else parse_word s))"
| "parse_elems 0 s = None"
| "parse_elems (Suc n) s =
     (case parse_val n s of
        None \<Rightarrow> None
      | Some (v, r) \<Rightarrow>
          (case skip_ws r of
             [] \<Rightarrow> None
           | b # bs \<Rightarrow>
               (if b = CHR '']'' then Some ([v], bs)
                else if b = CHR '','' then
                  map_option (\<lambda>(xs, u). (v # xs, u)) (parse_elems n (skip_ws bs))
                else None)))"
| "parse_members 0 s = None"
| "parse_members (Suc n) s =
     (case s of
        [] \<Rightarrow> None
      | c # cs \<Rightarrow>
          (if c \<noteq> CHR 0x22 then None
           else (case parse_str cs of
                   None \<Rightarrow> None
                 | Some (k, r) \<Rightarrow>
                     (case skip_ws r of
                        [] \<Rightarrow> None
                      | b # bs \<Rightarrow>
                          (if b \<noteq> CHR '':'' then None
                           else (case parse_val n (skip_ws bs) of
                                   None \<Rightarrow> None
                                 | Some (v, u) \<Rightarrow>
                                     (case skip_ws u of
                                        [] \<Rightarrow> None
                                      | e # es \<Rightarrow>
                                          (if e = CHR ''}'' then Some ([(k, v)], es)
                                           else if e = CHR '','' then
                                             map_option (\<lambda>(kvs, w). ((k, v) # kvs, w))
                                               (parse_members n (skip_ws es))
                                           else None))))))))"

text \<open>\<open>json.loads\<close>: \<open>None\<close> stands for the \<open>ValueError\<close> of malformed text.\<close>

definition json_loads :: "string \<Rightarrow> json option" where
  "json_loads s =
     (case parse_val (Suc (length s)) (skip_ws s) of
        None \<Rightarrow> None
      | Some (v, r) \<Rightarrow> (if skip_ws r = [] then Some v else None))"

section \<open>The round trip\<close>

text \<open>
  \<open>text_ok\<close>: values the round trip covers, every dict with distinct keys (as a Python dict has)
  and no float.
\<close>

fun text_ok :: "json \<Rightarrow> bool" where
  "text_ok (JFloat q) = False"
| "text_ok (JList xs) = list_all text_ok xs"
| "text_ok (JObj d) = (distinct (map fst d) \<and> list_all (\<lambda>(k, v). text_ok v) d)"
| "text_ok v = True"

lemma hex_val_hex_digit [simp]: "d < 16 \<Longrightarrow> hex_val (hex_digit d) = Some d"
  by (auto simp: hex_val_def hex_digit_def is_digit_def)

lemma hex4_code: "hex4 (CHR ''0'') (CHR ''0'') (hex_digit (code c div 16)) (hex_digit (code c mod 16))
    = Some (code (c :: char))"
proof -
  have z: "hex_val (CHR ''0'') = Some 0" by (simp add: hex_val_def is_digit_def)
  have "code c div 16 < 16" using nat_of_char_less_256 [of c] by linarith
  then show ?thesis by (simp add: hex4_def z)
qed

lemma code_eq_char: "code (c :: char) = n \<Longrightarrow> char_of n = c"
  by auto

lemma parse_str_escape: "parse_str (escape_char c @ t) = cons_fst c (parse_str t)"
proof -
  consider (special) "c = CHR 0x22 \<or> c = CHR 0x5C \<or> code c \<in> {8, 9, 10, 12, 13}"
    | (direct) "c \<noteq> CHR 0x22" "c \<noteq> CHR 0x5C" "32 \<le> code c" "code c \<le> 126"
    | (hex) "c \<noteq> CHR 0x22" "c \<noteq> CHR 0x5C" "code c \<notin> {8, 9, 10, 12, 13}"
        "\<not> (32 \<le> code c \<and> code c \<le> 126)"
    by auto
  then show ?thesis
  proof cases
    case special
    then show ?thesis
      by (auto simp: escape_char_def unescape_def code_eq_char)
  next
    case direct
    then show ?thesis by (simp add: escape_char_def)
  next
    case hex
    then have "escape_char c = [CHR 0x5C, CHR ''u'', CHR ''0'', CHR ''0'',
            hex_digit (code c div 16), hex_digit (code c mod 16)]"
      by (auto simp: escape_char_def)
    then show ?thesis by (simp add: hex4_code)
  qed
qed

lemma parse_str_text: "parse_str (concat (map escape_char s) @ CHR 0x22 # r) = Some (s, r)"
  by (induction s) (simp_all add: parse_str_escape cons_fst_def)

text \<open>What follows a number must not continue it.\<close>

definition stops :: "string \<Rightarrow> bool" where
  "stops r = (case r of [] \<Rightarrow> True | c # _ \<Rightarrow> c \<in> {CHR '','', CHR '']'', CHR ''}''})"


lemma stops_simps [simp]: "stops []" "stops (CHR '','' # r)" "stops (CHR '']'' # r)" "stops (CHR ''}'' # r)"
  by (simp_all add: stops_def)

lemma takeWhile_digits_stop:
  "list_all is_digit ds \<Longrightarrow> stops r \<Longrightarrow> takeWhile is_digit (ds @ r) = ds \<and> dropWhile is_digit (ds @ r) = r"
  by (induction ds) (auto simp: stops_def is_digit_def split: list.splits)

lemma list_all_show_nat: "list_all is_digit (show_nat n)"
  by (auto simp: list_all_iff show_nat_digits)

lemma int_part_show_nat: "stops r \<Longrightarrow> int_part (show_nat n @ r) = Some (show_nat n, r)"
proof (cases "n = 0")
  case True
  have "show_nat 0 = [CHR ''0'']" by code_simp
  with True show ?thesis by (simp add: int_part_def)
next
  case False
  assume r: "stops r"
  obtain c cs where s: "show_nat n = c # cs"
    using show_nat_not_Nil by (cases "show_nat n") auto
  have "is_digit c" using show_nat_digits [of c n] s by simp
  moreover have "c \<noteq> CHR ''0''" using hd_show_nat [of n] False s by simp
  ultimately show ?thesis
    using takeWhile_digits_stop [OF list_all_show_nat r, of n] s by (simp add: int_part_def)
qed

lemma stops_frac: "stops r \<Longrightarrow> frac_part r = ([], r)" and stops_exp: "stops r \<Longrightarrow> exp_part r = (None, r)"
  by (auto simp: stops_def frac_part_def exp_part_def split: list.splits)

lemma show_nat_first: "show_nat n = c # cs \<Longrightarrow> is_digit c"
  using show_nat_digits [of c n] by simp

lemma parse_num_show_int: "stops r \<Longrightarrow> parse_num (show_int i @ r) = Some (JInt i, r)"
proof -
  assume r: "stops r"
  have no_minus: "\<not> (show_nat n @ r \<noteq> [] \<and> hd (show_nat n @ r) = CHR ''-'')" for n
    using show_nat_first [of n] by (cases "show_nat n") (auto simp: is_digit_def)
  show ?thesis
    using int_part_show_nat [OF r] no_minus r
    by (simp add: parse_num_def show_int_def stops_frac stops_exp Let_def)
qed

lemma parse_word_show_int: "stops r \<Longrightarrow> parse_word (show_int i @ r) = Some (JInt i, r)"
proof -
  assume r: "stops r"
  obtain c cs where s: "show_int i = c # cs" and c: "c = CHR ''-'' \<or> is_digit c"
    using show_nat_first [of "nat i"] show_nat_not_Nil [of "nat i"]
    by (cases "show_nat (nat i)"; cases "i < 0") (auto simp: show_int_def)
  then have "\<not> prefix ''null'' (show_int i @ r)" "\<not> prefix ''true'' (show_int i @ r)"
    "\<not> prefix ''false'' (show_int i @ r)"
    by (auto simp: is_digit_def)
  then show ?thesis using parse_num_show_int [OF r] by (simp add: parse_word_def)
qed

text \<open>The first character of a written value is never a blank, a bracket's end or a comma.\<close>

definition starts_value :: "string \<Rightarrow> bool" where
  "starts_value s = (s \<noteq> [] \<and> \<not> json_ws (hd s) \<and> hd s \<notin> {CHR '']'', CHR ''}''})"

lemma starts_value_text: "text_ok v \<Longrightarrow> starts_value (json_text sp v @ r)"
proof (cases v)
  case (JInt i)
  have "show_int i \<noteq> []" by (simp add: show_int_def)
  then obtain c cs where s: "show_int i = c # cs" by (cases "show_int i") auto
  then have "c = CHR ''-'' \<or> is_digit c"
    using show_nat_first [of "nat i"] by (auto simp: show_int_def split: if_splits)
  then show ?thesis using JInt s by (auto simp: starts_value_def json_ws_def is_digit_def)
qed (auto simp: starts_value_def json_ws_def string_text_def)

lemma skip_ws_value: "starts_value s \<Longrightarrow> skip_ws s = s"
  by (cases s) (auto simp: starts_value_def skip_ws_def)

lemma skip_ws_nonblank [simp]: "\<not> json_ws c \<Longrightarrow> skip_ws (c # s) = c # s"
  by (simp add: skip_ws_def)

lemma nonblank [simp]: "\<not> json_ws (CHR '','')" "\<not> json_ws (CHR '']'')" "\<not> json_ws (CHR ''}'')"
   "\<not> json_ws (CHR '':'')" "\<not> json_ws (CHR 0x22)"
  by (simp_all add: json_ws_def)

lemma skip_ws_sp: "list_all json_ws sp \<Longrightarrow> skip_ws (sp @ s) = skip_ws s"
  by (induction sp) (auto simp: skip_ws_def)

lemma dict_of_pairs_distinct:
  "distinct (map fst (acc @ kvs)) \<Longrightarrow> fold (\<lambda>(k, v) d. dict_set k v d) kvs acc = acc @ kvs"
proof (induction kvs arbitrary: acc)
  case Nil
  then show ?case by simp
next
  case (Cons kv kvs)
  obtain k v where kv: "kv = (k, v)" by (cases kv)
  have "k \<notin> fst ` set acc" using Cons.prems kv by auto
  then have "AList.update k v acc = acc @ [(k, v)]" by (induction acc) auto
  then have "dict_set k v acc = acc @ [(k, v)]" by (simp add: dict_set_def)
  with Cons kv show ?case by simp
qed

fun need :: "json \<Rightarrow> nat" where
  "need (JList xs) = Suc (sum_list (map (\<lambda>x. Suc (need x)) xs))"
| "need (JObj d) = Suc (sum_list (map (\<lambda>(k, v). Suc (need v)) d))"
| "need v = Suc 0"


lemma need_pos: "0 < need v"
  by (cases v) auto

lemma join_with_Cons: "xs \<noteq> [] \<Longrightarrow> join_with sep (x # xs) = x @ sep @ join_with sep xs"
  by (cases xs) auto

definition elems_text :: "string \<Rightarrow> json list \<Rightarrow> string" where
  "elems_text sp xs = join_with ('','' @ sp) (map (json_text sp) xs)"

definition members_text :: "string \<Rightarrow> dict \<Rightarrow> string" where
  "members_text sp d =
     join_with ('','' @ sp) (map (\<lambda>(k, v). string_text k @ '':'' @ sp @ json_text sp v) d)"

lemma json_text_JList [simp]: "json_text sp (JList xs) = CHR ''['' # elems_text sp xs @ '']''"
  and json_text_JObj [simp]: "json_text sp (JObj d) = CHR ''{'' # members_text sp d @ ''}''"
  by (simp_all add: elems_text_def members_text_def)

declare json_text.simps(6,7) [simp del]

lemma elems_text_Nil [simp]: "elems_text sp [] = []"
  by (simp add: elems_text_def)

lemma elems_text_Cons [simp]:
  "elems_text sp (x # xs) =
     json_text sp x @ (if xs = [] then [] else CHR '','' # sp @ elems_text sp xs)"
  by (simp add: elems_text_def join_with_Cons)

lemma members_text_Nil [simp]: "members_text sp [] = []"
  by (simp add: members_text_def)

lemma members_text_Cons [simp]:
  "members_text sp ((k, v) # d) =
     CHR 0x22 # concat (map escape_char k) @ CHR 0x22 # CHR '':'' # sp @ json_text sp v
       @ (if d = [] then [] else CHR '','' # sp @ members_text sp d)"
  by (simp add: members_text_def string_text_def join_with_Cons)

lemma starts_elems: "list_all text_ok xs \<Longrightarrow> xs \<noteq> [] \<Longrightarrow> starts_value (elems_text sp xs @ r)"
  by (cases xs) (auto simp: starts_value_text)

lemma starts_members: "d \<noteq> [] \<Longrightarrow> starts_value (members_text sp d @ r)"
  by (cases d) (auto simp: starts_value_def)

lemma parse_val_word:
  "c \<noteq> CHR 0x22 \<Longrightarrow> c \<noteq> CHR ''{'' \<Longrightarrow> c \<noteq> CHR ''['' \<Longrightarrow> parse_val (Suc n) (c # cs) = parse_word (c # cs)"
  by simp

lemma parse_val_int: "stops r \<Longrightarrow> parse_val (Suc n) (show_int i @ r) = Some (JInt i, r)"
proof -
  assume r: "stops r"
  obtain c cs where s: "show_int i = c # cs" and c: "c = CHR ''-'' \<or> is_digit c"
    using show_nat_first [of "nat i"] show_nat_not_Nil [of "nat i"]
    by (cases "show_nat (nat i)"; cases "i < 0") (auto simp: show_int_def)
  from c have "parse_val (Suc n) (show_int i @ r) = parse_word (show_int i @ r)"
    unfolding s append_Cons by (intro parse_val_word) (auto simp: is_digit_def)
  then show ?thesis by (simp add: parse_word_show_int [OF r])
qed

lemma parse_json_text:
  assumes sp: "list_all json_ws sp"
  shows "text_ok v \<Longrightarrow> stops r \<Longrightarrow> need v \<le> n \<Longrightarrow>
           parse_val n (json_text sp v @ r) = Some (v, r)"
    and "list_all text_ok xs \<Longrightarrow> xs \<noteq> [] \<Longrightarrow> sum_list (map (\<lambda>x. Suc (need x)) xs) \<le> n \<Longrightarrow>
           parse_elems n (elems_text sp xs @ CHR '']'' # r) = Some (xs, r)"
    and "list_all (\<lambda>(k, v). text_ok v) d \<Longrightarrow> d \<noteq> [] \<Longrightarrow> sum_list (map (\<lambda>(k, v). Suc (need v)) d) \<le> n \<Longrightarrow>
           parse_members n (members_text sp d @ CHR ''}'' # r) = Some (d, r)"
proof (induction n arbitrary: v xs d r)
  case 0
  {
    case 1
    then show ?case using need_pos [of v] by simp
  next
    case 2
    then show ?case by (cases xs) auto
  next
    case 3
    then show ?case by (cases d) auto
  }
next
  case (Suc n)
  {
    case 1
    show ?case
    proof (cases v)
      case (JInt i)
      then show ?thesis using 1 by (simp add: parse_val_int del: parse_val.simps)
    next
      case (JList xs)
      show ?thesis
      proof (cases "xs = []")
        case False
        with JList 1 have *: "parse_elems n (elems_text sp xs @ CHR '']'' # r) = Some (xs, r)"
          by (intro Suc.IH(2)) auto
        obtain b bs where b: "elems_text sp xs @ CHR '']'' # r = b # bs" and "\<not> json_ws b" "b \<noteq> CHR '']''"
          using starts_elems [of xs sp "CHR '']'' # r"] False JList 1
          by (cases "elems_text sp xs @ CHR '']'' # r") (auto simp: starts_value_def)
        then show ?thesis using JList * by (simp add: b)
      qed (simp add: JList)
    next
      case (JObj d)
      show ?thesis
      proof (cases "d = []")
        case False
        with JObj 1 have *: "parse_members n (members_text sp d @ CHR ''}'' # r) = Some (d, r)"
          by (intro Suc.IH(3)) auto
        obtain b bs where b: "members_text sp d @ CHR ''}'' # r = b # bs" and "\<not> json_ws b" "b \<noteq> CHR ''}''"
          using starts_members [of d sp "CHR ''}'' # r"] False
          by (cases "members_text sp d @ CHR ''}'' # r") (auto simp: starts_value_def)
        moreover have "dict_of_pairs d = d"
          using JObj 1 dict_of_pairs_distinct [of "[]" d] by (simp add: dict_of_pairs_def)
        ultimately show ?thesis using JObj * by (simp add: b)
      qed (simp add: JObj)
    qed (use 1 in \<open>auto simp: parse_word_def string_text_def parse_str_text\<close>)
  next
    case 2
    obtain x ys where xs: "xs = x # ys" using 2 by (cases xs) auto
    let ?r = "if ys = [] then CHR '']'' # r else CHR '','' # sp @ elems_text sp ys @ CHR '']'' # r"
    have t: "elems_text sp xs @ CHR '']'' # r = json_text sp x @ ?r"
      by (simp add: xs)
    have v: "parse_val n (json_text sp x @ ?r) = Some (x, ?r)"
      using 2 xs by (intro Suc.IH(1)) auto
    show ?case
    proof (cases "ys = []")
      case False
      then have "parse_elems n (elems_text sp ys @ CHR '']'' # r) = Some (ys, r)"
        using 2 xs by (intro Suc.IH(2)) auto
      moreover have "skip_ws (sp @ elems_text sp ys @ CHR '']'' # r) = elems_text sp ys @ CHR '']'' # r"
        using False 2 xs by (simp add: skip_ws_sp [OF sp] skip_ws_value starts_elems)
      ultimately show ?thesis unfolding t using False v xs by simp
    qed (use t v xs in simp)
  next
    case 3
    obtain k x e where d: "d = (k, x) # e" using 3 by (cases d) auto
    let ?r = "if e = [] then CHR ''}'' # r else CHR '','' # sp @ members_text sp e @ CHR ''}'' # r"
    have t: "members_text sp d @ CHR ''}'' # r =
        CHR 0x22 # concat (map escape_char k) @ CHR 0x22 # CHR '':'' # sp @ json_text sp x @ ?r"
      by (simp add: d members_text_Cons)
    have v: "parse_val n (json_text sp x @ ?r) = Some (x, ?r)"
      using 3 d by (intro Suc.IH(1)) auto
    have w: "skip_ws (sp @ json_text sp x @ ?r) = json_text sp x @ ?r"
      using 3 d by (simp add: skip_ws_sp [OF sp] skip_ws_value starts_value_text)
    show ?case
    proof (cases "e = []")
      case False
      then have "parse_members n (members_text sp e @ CHR ''}'' # r) = Some (e, r)"
        using 3 d by (intro Suc.IH(3)) auto
      moreover have "skip_ws (sp @ members_text sp e @ CHR ''}'' # r) = members_text sp e @ CHR ''}'' # r"
        using False by (simp add: skip_ws_sp [OF sp] skip_ws_value starts_members)
      ultimately show ?thesis unfolding t using False v w d by (simp add: parse_str_text)
    qed (use t v w d in \<open>simp add: parse_str_text\<close>)
  }
qed

lemma length_string_text: "2 \<le> length (string_text s)"
  by (simp add: string_text_def)

lemma need_le_text:
  "need v \<le> length (json_text sp v)"
proof (induction v)
  case (JInt i)
  then show ?case by (simp add: show_int_def Suc_leI)
next
  case (JFloat q)
  then show ?case by (simp add: show_float_def)
next
  case (JList xs)
  have "sum_list (map (\<lambda>x. Suc (need x)) xs) \<le> Suc (length (elems_text sp xs))"
    using JList by (induction xs) force+
  then show ?case by simp
next
  case (JObj d)
  have "sum_list (map (\<lambda>(k, v). Suc (need v)) d) \<le> Suc (length (members_text sp d))"
    using JObj
  proof (induction d)
    case (Cons kv d)
    obtain k v where kv: "kv = (k, v)" by (cases kv)
    have "need v \<le> length (json_text sp v)" using Cons.prems kv by fastforce
    moreover have "sum_list (map (\<lambda>(k, v). Suc (need v)) d) \<le> Suc (length (members_text sp d))"
      using Cons by fastforce
    ultimately show ?case using kv by (simp)
  qed simp
  then show ?case by simp
qed (auto simp: string_text_def)

lemma json_loads_text:
  assumes "list_all json_ws sp" and "text_ok v"
  shows "json_loads (json_text sp v) = Some v"
proof -
  have "skip_ws (json_text sp v) = json_text sp v"
    using starts_value_text [OF assms(2), of sp "[]"] by (simp add: skip_ws_value)
  moreover have "parse_val (Suc (length (json_text sp v))) (json_text sp v @ []) = Some (v, [])"
    using assms need_le_text [of v sp] by (intro parse_json_text(1)) auto
  ultimately show ?thesis by (simp add: json_loads_def skip_ws_def del: parse_val.simps)
qed

section \<open>Sorted keys\<close>

lemma distinct_keys_sort: "distinct (map fst xs) \<Longrightarrow> distinct (map fst (sort_key fst xs))"
  unfolding distinct_map by simp

lemma text_ok_canon: "text_ok v \<Longrightarrow> text_ok (canon v)"
proof (induction v)
  case (JList xs)
  then show ?case by (auto simp: list_all_iff)
next
  case (JObj d)
  have fst: "fst \<circ> (\<lambda>(k, v). (k, canon v)) = fst" by auto
  from JObj.prems have "distinct (map fst (map (\<lambda>(k, v). (k, canon v)) d))" by (simp add: fst)
  then have "distinct (map fst (sort_key fst (map (\<lambda>(k, v). (k, canon v)) d)))"
    by (rule distinct_keys_sort)
  moreover have "list_all (\<lambda>(k, v). text_ok v) (sort_key fst (map (\<lambda>(k, v). (k, canon v)) d))"
    using JObj by (fastforce simp: list_all_iff)
  ultimately show ?case by simp
qed auto

lemma canon_idem [simp]: "canon (canon v) = canon v"
proof (induction v)
  case (JObj d)
  let ?f = "\<lambda>(k, v). (k, canon v)" and ?d = "sort_key fst (map (\<lambda>(k, v). (k, canon v)) d)"
  have "map ?f ?d = ?d"
  proof (rule map_idI)
    fix kv assume "kv \<in> set ?d"
    then obtain k v where "kv = (k, canon v)" "(k, v) \<in> set d" by auto
    then show "?f kv = kv" using JObj [of "(k, v)" v] by auto
  qed
  then show ?case by (simp add: sort_key_id_if_sorted)
qed simp_all

lemma canon_JObj_cong:
  assumes "distinct (map fst d)" "distinct (map fst e)" "map_of d = map_of e"
  shows "canon (JObj d) = canon (JObj e)"
proof -
  let ?f = "\<lambda>(k, v). (k, canon v)"
  have fst: "fst \<circ> ?f = fst" by auto
  have d: "distinct (map fst (map ?f d))" and e: "distinct (map fst (map ?f e))"
    using assms by (simp_all add: fst)
  have "set d = set e" using assms map_of_inject_set by blast
  then have set: "set (sort_key fst (map ?f d)) = set (sort_key fst (map ?f e))" by simp
  have inj: "inj_on fst (set (map ?f d) \<union> set (map ?f e))"
    using d \<open>set d = set e\<close> unfolding distinct_map by simp
  have "sort_key fst (map ?f d) = sort_key fst (map ?f e)"
  proof (rule map_sorted_distinct_set_unique)
    show "inj_on fst (set (sort_key fst (map ?f d)) \<union> set (sort_key fst (map ?f e)))"
      using inj by simp
    show "distinct (map fst (sort_key fst (map ?f d)))" "distinct (map fst (sort_key fst (map ?f e)))"
      by (rule distinct_keys_sort [OF d], rule distinct_keys_sort [OF e])
  qed (use set in \<open>simp_all del: set_sort\<close>)
  then show ?thesis by simp
qed

theorem json_loads_dumps_sorted: "text_ok v \<Longrightarrow> json_loads (json_dumps_sorted v) = Some (canon v)"
  by (simp add: json_dumps_sorted_def json_loads_text text_ok_canon)

theorem json_loads_dumps: "text_ok v \<Longrightarrow> json_loads (json_dumps v) = Some v"
  by (simp add: json_dumps_def json_loads_text json_ws_def)

lemma json_dumps_sorted_inject:
  "text_ok v \<Longrightarrow> text_ok w \<Longrightarrow> json_dumps_sorted v = json_dumps_sorted w \<longleftrightarrow> canon v = canon w"
  by (metis json_dumps_sorted_def json_loads_dumps_sorted option.inject)

text \<open>A written value is one line of printable ASCII, so a file of records can be read line by line.\<close>

definition printable :: "char \<Rightarrow> bool" where
  "printable c = (32 \<le> code c \<and> code c \<le> 126)"

lemma printable_hex_digit: "d < 16 \<Longrightarrow> printable (hex_digit d)"
  by (auto simp: printable_def hex_digit_def)

lemma printable_escape: "x \<in> set (escape_char c) \<Longrightarrow> printable x"
proof -
  have "code c div 16 < 16" using nat_of_char_less_256 [of c] by linarith
  then have "printable (hex_digit (code c div 16))" "printable (hex_digit (code c mod 16))"
    by (simp_all add: printable_hex_digit)
  then show "x \<in> set (escape_char c) \<Longrightarrow> printable x"
    by (auto simp: escape_char_def printable_def split: if_splits)
qed

lemma printable_string_text: "x \<in> set (string_text s) \<Longrightarrow> printable x"
  using printable_escape by (auto simp: string_text_def printable_def)

lemma printable_digit: "is_digit c \<Longrightarrow> printable c"
  by (simp add: is_digit_def printable_def)

lemma printable_show_int: "x \<in> set (show_int i) \<Longrightarrow> printable x"
  using show_nat_digits printable_digit by (auto simp: show_int_def printable_def split: if_splits)

lemma printable_json_text:
  assumes "list_all printable sp"
  shows "text_ok v \<Longrightarrow> x \<in> set (json_text sp v) \<Longrightarrow> printable x"
proof (induction v)
  case (JList xs)
  have "x \<in> set (elems_text sp xs) \<Longrightarrow> printable x"
    using JList.IH JList.prems(1) assms
    by (induction xs) (auto simp: printable_def list_all_iff split: if_splits)
  then show ?case using JList.prems by (auto simp: printable_def)
next
  case (JObj d)
  have "x \<in> set (members_text sp d) \<Longrightarrow> list_all (\<lambda>(k, v). text_ok v) d \<Longrightarrow> printable x"
    using JObj.IH
  proof (induction d)
    case (Cons kv d)
    obtain k v where kv: "kv = (k, v)" by (cases kv)
    have v: "x \<in> set (json_text sp v) \<Longrightarrow> printable x"
      using Cons.prems(2,3) kv by fastforce
    have d: "x \<in> set (members_text sp d) \<Longrightarrow> printable x"
      using Cons kv by fastforce
    show ?case
      using Cons.prems(1) v d assms printable_escape unfolding kv
      by (auto simp: printable_def list_all_iff split: if_splits)
  qed simp
  then show ?case using JObj.prems by (auto simp: printable_def)
next
  case (JInt i)
  then show ?case by (simp add: printable_show_int)
next
  case (JStr s)
  then show ?case by (simp add: printable_string_text)
qed (auto simp: printable_def split: if_splits)

end
