(* ===== verification/Sessions.thy ===== *)
theory Sessions
  imports Json_Text
begin

text \<open>
  The server-side session stores (\<open>app/sessions.py\<close>): the interface both backends keep, the
  in-process dict with expiry and the Redis backend over an unspecified client.

  \<open>session_store\<close> is the contract the rest of the BFF relies on. An operation takes the clock
  readings it makes. Results: every monotone history of operations on either backend reads as
  the last unexpired write of a session id and of no other id, the Redis keys of two
  deployments never meet. The lock of the Redis store is in \<open>Redis_Lock\<close>.
\<close>

section \<open>The contract of a store\<close>

text \<open>
  \<open>view s t sid\<close> is what a \<open>get\<close> at time \<open>t\<close> would find. \<open>ok d\<close> says which values survive the
  backend's copy: all of them in memory, the JSON ones in Redis.
\<close>

datatype store_op = OGet string time | OSet string dict time time | ODelete string

fun op_times :: "store_op \<Rightarrow> time list" where
  "op_times (OGet sid t) = [t]"
| "op_times (OSet sid d t t') = [t, t']"
| "op_times (ODelete sid) = []"

fun op_value_ok :: "(dict \<Rightarrow> bool) \<Rightarrow> store_op \<Rightarrow> bool" where
  "op_value_ok ok (OSet sid d t t') = ok d"
| "op_value_ok ok _ = True"

text \<open>The abstract store: per session id the last value written and when it expires.\<close>

type_synonym spec_store = "string \<Rightarrow> (time \<times> dict) option"

fun spec_op :: "int \<Rightarrow> store_op \<Rightarrow> spec_store \<Rightarrow> spec_store" where
  "spec_op ttl (OGet sid t) m = m"
| "spec_op ttl (OSet sid d t t') m = m(sid \<mapsto> (t' + of_int ttl, d))"
| "spec_op ttl (ODelete sid) m = m(sid := None)"

definition visible :: "spec_store \<Rightarrow> time \<Rightarrow> string \<Rightarrow> dict option" where
  "visible m now sid =
     (case m sid of None \<Rightarrow> None | Some (expires, d) \<Rightarrow> (if expires \<le> now then None else Some d))"

locale session_store =
  fixes inv :: "'s \<Rightarrow> bool"
    and ok :: "dict \<Rightarrow> bool"
    and lifetime :: int
    and view :: "'s \<Rightarrow> time \<Rightarrow> string \<Rightarrow> dict option"
    and sget :: "string \<Rightarrow> time \<Rightarrow> 's \<Rightarrow> dict option \<times> 's"
    and sset :: "string \<Rightarrow> dict \<Rightarrow> time \<Rightarrow> time \<Rightarrow> 's \<Rightarrow> 's"
    and sdelete :: "string \<Rightarrow> 's \<Rightarrow> 's"
  assumes get_view: "inv s \<Longrightarrow> fst (sget sid now s) = view s now sid"
    and get_keeps: "inv s \<Longrightarrow> now \<le> t \<Longrightarrow> view (snd (sget sid now s)) t i = view s t i"
    and set_view: "inv s \<Longrightarrow> ok d \<Longrightarrow> now \<le> now' \<Longrightarrow> now' \<le> t \<Longrightarrow>
        view (sset sid d now now' s) t i =
          (if i = sid then (if now' + of_int lifetime \<le> t then None else Some d) else view s t i)"
    and delete_view: "inv s \<Longrightarrow> view (sdelete sid s) t i = (if i = sid then None else view s t i)"
    and get_inv: "inv s \<Longrightarrow> inv (snd (sget sid now s))"
    and set_inv: "inv s \<Longrightarrow> inv (sset sid d now now' s)"
    and delete_inv: "inv s \<Longrightarrow> inv (sdelete sid s)"
begin

fun run_op :: "store_op \<Rightarrow> 's \<Rightarrow> 's" where
  "run_op (OGet sid t) s = snd (sget sid t s)"
| "run_op (OSet sid d t t') s = sset sid d t t' s"
| "run_op (ODelete sid) s = sdelete sid s"

lemma run_op_inv: "inv s \<Longrightarrow> inv (run_op op s)"
  by (cases op) (simp_all add: get_inv set_inv delete_inv)

lemma run_op_visible:
  assumes "inv s" and "op_value_ok ok op"
    and "\<And>t i. t0 \<le> t \<Longrightarrow> view s t i = visible m t i"
    and "sorted (t0 # op_times op @ [t])"
  shows "view (run_op op s) t i = visible (spec_op lifetime op m) t i"
proof (cases op)
  case (OGet sid x)
  then show ?thesis using assms by (simp add: get_keeps)
next
  case (OSet sid d x x')
  then show ?thesis using assms by (simp add: set_view visible_def)
next
  case (ODelete sid)
  then show ?thesis using assms by (simp add: delete_view visible_def)
qed

theorem run_visible:
  assumes "inv s" and "\<forall>op \<in> set ops. op_value_ok ok op"
    and "\<And>t i. t0 \<le> t \<Longrightarrow> view s t i = visible m t i"
    and "sorted (t0 # concat (map op_times ops) @ [now])"
  shows "fst (sget sid now (fold run_op ops s)) = visible (fold (spec_op lifetime) ops m) now sid"
  using assms
proof (induction ops arbitrary: s m t0)
  case Nil
  then show ?case by (simp add: get_view)
next
  case (Cons op ops)
  let ?t1 = "if op_times op = [] then t0 else last (op_times op)"
  have srt: "sorted (t0 # op_times op @ concat (map op_times ops) @ [now])"
    using Cons.prems(4) by simp
  have tail: "sorted (?t1 # concat (map op_times ops) @ [now])"
    using srt by (cases op) auto
  have "view (run_op op s) t i = visible (spec_op lifetime op m) t i" if "?t1 \<le> t" for t i
  proof (rule run_op_visible [OF Cons.prems(1)])
    show "op_value_ok ok op" using Cons.prems(2) by simp
    show "view s t i = visible m t i" if "t0 \<le> t" for t i using Cons.prems(3) that .
    show "sorted (t0 # op_times op @ [t])"
      using srt that by (cases op) auto
  qed
  then show ?case
    using Cons.IH [of "run_op op s" ?t1 "spec_op lifetime op m"] Cons.prems(1,2) run_op_inv tail by simp
qed

end

section \<open>The in-process store\<close>

text \<open>
  \<open>mdata\<close> and \<open>mlocks\<close> are the two dicts; an \<open>asyncio.Lock\<close> is an identity, \<open>mheld\<close> the locked
  ones. \<open>mem_lock\<close> is the \<open>setdefault\<close>, \<open>mem_acquire\<close> succeeds when the lock is free.
\<close>

record mem_store =
  mttl :: int
  mdata :: "(string \<times> time \<times> dict) list"
  mlocks :: "(string \<times> nat) list"
  mheld :: "nat list"
  mfresh :: nat

definition new_mem_store :: "int \<Rightarrow> mem_store" where
  "new_mem_store life = \<lparr>mttl = life, mdata = [], mlocks = [], mheld = [], mfresh = 0\<rparr>"

definition drop_free_lock :: "string \<Rightarrow> mem_store \<Rightarrow> mem_store" where
  "drop_free_lock sid st =
     (case map_of (mlocks st) sid of
        Some l \<Rightarrow> (if l \<in> set (mheld st) then st else st\<lparr>mlocks := AList.delete sid (mlocks st)\<rparr>)
      | None \<Rightarrow> st)"

definition mem_prune :: "time \<Rightarrow> mem_store \<Rightarrow> mem_store" where
  "mem_prune now st =
     fold (\<lambda>sid s. drop_free_lock sid (s\<lparr>mdata := AList.delete sid (mdata s)\<rparr>))
       (map fst (filter (\<lambda>(sid, expires, _). expires \<le> now) (mdata st))) st"

definition mem_get :: "string \<Rightarrow> time \<Rightarrow> mem_store \<Rightarrow> dict option \<times> mem_store" where
  "mem_get sid now st =
     (case map_of (mdata st) sid of
        None \<Rightarrow> (None, st)
      | Some (expires, d) \<Rightarrow>
          (if expires \<le> now then (None, st\<lparr>mdata := AList.delete sid (mdata st)\<rparr>) else (Some d, st)))"

definition mem_set :: "string \<Rightarrow> dict \<Rightarrow> time \<Rightarrow> time \<Rightarrow> mem_store \<Rightarrow> mem_store" where
  "mem_set sid d now now' st =
     (let st' = mem_prune now st
      in st'\<lparr>mdata := AList.update sid (now' + of_int (mttl st'), d) (mdata st')\<rparr>)"

definition mem_delete :: "string \<Rightarrow> mem_store \<Rightarrow> mem_store" where
  "mem_delete sid st = drop_free_lock sid (st\<lparr>mdata := AList.delete sid (mdata st)\<rparr>)"

definition mem_lock :: "string \<Rightarrow> mem_store \<Rightarrow> nat \<times> mem_store" where
  "mem_lock sid st =
     (case map_of (mlocks st) sid of
        Some l \<Rightarrow> (l, st)
      | None \<Rightarrow> (mfresh st, st\<lparr>mlocks := AList.update sid (mfresh st) (mlocks st), mfresh := Suc (mfresh st)\<rparr>))"

definition mem_acquire :: "nat \<Rightarrow> mem_store \<Rightarrow> mem_store option" where
  "mem_acquire l st = (if l \<in> set (mheld st) then None else Some (st\<lparr>mheld := l # mheld st\<rparr>))"

definition mem_release :: "nat \<Rightarrow> mem_store \<Rightarrow> mem_store" where
  "mem_release l st = st\<lparr>mheld := remove1 l (mheld st)\<rparr>"

definition mem_view :: "mem_store \<Rightarrow> time \<Rightarrow> string \<Rightarrow> dict option" where
  "mem_view st now sid =
     (case map_of (mdata st) sid of
        None \<Rightarrow> None | Some (expires, d) \<Rightarrow> (if expires \<le> now then None else Some d))"

text \<open>The locks of distinct ids are distinct, no lock is held twice, fresh identities are new.\<close>

definition mem_ok :: "mem_store \<Rightarrow> bool" where
  "mem_ok st \<longleftrightarrow> distinct (map fst (mdata st)) \<and> distinct (map snd (mlocks st)) \<and> distinct (mheld st)
     \<and> (\<forall>l \<in> snd ` set (mlocks st) \<union> set (mheld st). l < mfresh st)"

lemma drop_free_lock_fields [simp]:
  "mdata (drop_free_lock sid st) = mdata st" "mttl (drop_free_lock sid st) = mttl st"
  "mheld (drop_free_lock sid st) = mheld st" "mfresh (drop_free_lock sid st) = mfresh st"
  by (simp_all add: drop_free_lock_def split: option.splits)

lemma set_alist_delete: "set (AList.delete k al) = {x \<in> set al. fst x \<noteq> k}"
  by (auto simp: AList.delete_eq)

lemma distinct_snd_delete: "distinct (map snd al) \<Longrightarrow> distinct (map snd (AList.delete k al))"
  by (induction al) (auto simp: set_alist_delete)

lemma drop_free_lock_ok: "mem_ok st \<Longrightarrow> mem_ok (drop_free_lock sid st)"
  by (auto simp: mem_ok_def drop_free_lock_def distinct_snd_delete set_alist_delete split: option.splits)

lemma drop_data_ok: "mem_ok st \<Longrightarrow> mem_ok (st\<lparr>mdata := AList.delete sid (mdata st)\<rparr>)"
  by (simp add: mem_ok_def distinct_delete)

lemma mem_delete_ok: "mem_ok st \<Longrightarrow> mem_ok (mem_delete sid st)"
  by (simp add: mem_delete_def drop_free_lock_ok drop_data_ok)

lemma mem_prune_fold: "mem_prune now st = fold mem_delete
    (map fst (filter (\<lambda>(sid, expires, _). expires \<le> now) (mdata st))) st"
  unfolding mem_prune_def mem_delete_def [abs_def] ..

lemma fold_mem_delete_ok: "mem_ok st \<Longrightarrow> mem_ok (fold mem_delete sids st)"
  by (induction sids arbitrary: st) (simp_all add: mem_delete_ok)

lemma mem_delete_fields [simp]:
  "mdata (mem_delete sid st) = AList.delete sid (mdata st)" "mttl (mem_delete sid st) = mttl st"
  "mheld (mem_delete sid st) = mheld st" "mfresh (mem_delete sid st) = mfresh st"
  by (simp_all add: mem_delete_def)

lemma fold_mem_delete_fields [simp]:
  "mttl (fold mem_delete sids st) = mttl st" "mheld (fold mem_delete sids st) = mheld st"
  "mfresh (fold mem_delete sids st) = mfresh st"
  "map_of (mdata (fold mem_delete sids st)) i = (if i \<in> set sids then None else map_of (mdata st) i)"
  by (induction sids arbitrary: st) (simp_all add: map_of_delete)

lemma mem_prune_fields [simp]:
  "mttl (mem_prune now st) = mttl st" "mheld (mem_prune now st) = mheld st"
  "mfresh (mem_prune now st) = mfresh st"
  by (simp_all add: mem_prune_fold)

lemma mem_prune_view:
  assumes "mem_ok st" and "now \<le> t"
  shows "mem_view (mem_prune now st) t i = mem_view st t i"
proof -
  let ?sids = "map fst (filter (\<lambda>(sid, expires, _). expires \<le> now) (mdata st))"
  have "\<exists>x d. map_of (mdata st) i = Some (x, d) \<and> x \<le> now" if "i \<in> set ?sids"
    using that assms(1) by (force simp: mem_ok_def)
  moreover have "i \<in> set ?sids" if "map_of (mdata st) i = Some (x, d)" "x \<le> now" for x d
    using map_of_SomeD [OF that(1)] that(2) by force
  ultimately show ?thesis
    using assms(2) by (auto simp: mem_view_def mem_prune_fold simp del: set_map split: option.splits)
qed

lemma mem_prune_ok: "mem_ok st \<Longrightarrow> mem_ok (mem_prune now st)"
  by (simp add: mem_prune_fold fold_mem_delete_ok)

lemma mem_get_ok: "mem_ok st \<Longrightarrow> mem_ok (snd (mem_get sid now st))"
  by (auto simp: mem_get_def drop_data_ok split: option.splits)

lemma mem_set_ok: "mem_ok st \<Longrightarrow> mem_ok (mem_set sid d now now' st)"
  using mem_prune_ok [of st now] by (simp add: mem_set_def Let_def mem_ok_def distinct_update)

lemma mem_get_view: "fst (mem_get sid now st) = mem_view st now sid"
  by (auto simp: mem_get_def mem_view_def split: option.splits)

lemma mem_get_keeps: "now \<le> t \<Longrightarrow> mem_view (snd (mem_get sid now st)) t i = mem_view st t i"
  by (auto simp: mem_get_def mem_view_def map_of_delete split: option.splits)

lemma mem_set_view:
  "mem_ok st \<Longrightarrow> now \<le> now' \<Longrightarrow> now' \<le> t \<Longrightarrow> mem_view (mem_set sid d now now' st) t i =
     (if i = sid then (if now' + of_int (mttl st) \<le> t then None else Some d) else mem_view st t i)"
  using mem_prune_view [of st now t i]
  by (auto simp: mem_set_def Let_def mem_view_def map_of_update)

lemma mem_delete_view: "mem_view (mem_delete sid st) t i = (if i = sid then None else mem_view st t i)"
  by (simp add: mem_view_def map_of_delete)

lemma mem_ttl [simp]:
  "mttl (snd (mem_get sid now st)) = mttl st" "mttl (mem_set sid d now now' st) = mttl st"
  by (auto simp: mem_get_def mem_set_def Let_def split: option.splits)

interpretation mem: session_store
  "\<lambda>st. mem_ok st \<and> mttl st = life" "\<lambda>_. True" life mem_view mem_get mem_set mem_delete for life
  by unfold_locales
    (auto simp: mem_get_view mem_get_keeps mem_set_view mem_delete_view mem_get_ok mem_set_ok mem_delete_ok)

fun mem_op :: "store_op \<Rightarrow> mem_store \<Rightarrow> mem_store" where
  "mem_op (OGet sid t) st = snd (mem_get sid t st)"
| "mem_op (OSet sid d t t') st = mem_set sid d t t' st"
| "mem_op (ODelete sid) st = mem_delete sid st"

lemma mem_run_op: "mem.run_op = mem_op"
proof (intro ext)
  show "mem.run_op op st = mem_op op st" for op st by (cases op) simp_all
qed

lemma new_mem_store_ok: "mem_ok (new_mem_store life)"
  by (simp add: mem_ok_def new_mem_store_def)

lemma op_value_ok_True [simp]: "op_value_ok (\<lambda>_. True) op"
  by (cases op) simp_all

lemma sorted_from_hd: "sorted (ts @ [t]) \<Longrightarrow> sorted (hd (ts @ [t]) # ts @ [t])"
  by (cases ts) auto

text \<open>The in-process store refines the abstract one: after any history of operations with
  non-decreasing clock readings, a read finds the last value written under that id, until its
  lifetime has passed or it was deleted.\<close>

lemma mem_store_refines:
  assumes "sorted (concat (map op_times ops) @ [now])"
  shows "fst (mem_get sid now (fold mem_op ops (new_mem_store life)))
       = visible (fold (spec_op life) ops (\<lambda>_. None)) now sid"
proof -
  let ?t0 = "hd (concat (map op_times ops) @ [now])"
  have "sorted (?t0 # concat (map op_times ops) @ [now])"
    using assms by (rule sorted_from_hd)
  then show ?thesis
    using mem.run_visible [of "new_mem_store life" life ops ?t0 "\<lambda>_. None" now sid] new_mem_store_ok
    by (auto simp: mem_run_op mem_view_def visible_def new_mem_store_def)
qed

lemma mem_store_refines_demo:
  "fst (mem_get ''a'' 5 (fold mem_op [OSet ''a'' [(''k'', JInt 1)] 0 0, OSet ''b'' [] 1 2] (new_mem_store 10)))
     = Some [(''k'', JInt 1)]
   \<and> fst (mem_get ''a'' 10 (fold mem_op [OSet ''a'' [(''k'', JInt 1)] 0 0] (new_mem_store 10))) = None"
  using mem_store_refines [of "[OSet ''a'' [(''k'', JInt 1)] 0 0, OSet ''b'' [] 1 2]" 5 "''a''" 10]
    mem_store_refines [of "[OSet ''a'' [(''k'', JInt 1)] 0 0]" 10 "''a''" 10]
  by (simp add: visible_def)

section \<open>The Redis store\<close>

text \<open>
  The Redis client is a parameter: \<open>GET\<close>, \<open>SET\<close> with \<open>NX\<close> and \<open>EX\<close>, \<open>DEL\<close>, each at the
  server's time. \<open>redis_laws\<close> is the documented behaviour the store relies on: a key reads as
  its last unexpired write.
\<close>

record 'r redis =
  r_get :: "string \<Rightarrow> time \<Rightarrow> 'r \<Rightarrow> string option \<times> 'r"
  r_set :: "string \<Rightarrow> string \<Rightarrow> bool \<Rightarrow> int \<Rightarrow> time \<Rightarrow> 'r \<Rightarrow> bool \<times> 'r"
  r_del :: "string \<Rightarrow> 'r \<Rightarrow> 'r"

definition redis_laws :: "'r redis \<Rightarrow> ('r \<Rightarrow> time \<Rightarrow> string \<Rightarrow> string option) \<Rightarrow> bool" where
  "redis_laws c view \<longleftrightarrow>
     (\<forall>k t r. fst (r_get c k t r) = view r t k)
     \<and> (\<forall>k t r t' i. t \<le> t' \<longrightarrow> view (snd (r_get c k t r)) t' i = view r t' i)
     \<and> (\<forall>k v ex t r t' i. t \<le> t' \<longrightarrow> view (snd (r_set c k v False ex t r)) t' i =
          (if i = k then (if t + of_int ex \<le> t' then None else Some v) else view r t' i))
     \<and> (\<forall>k r t i. view (r_del c k r) t i = (if i = k then None else view r t i))"

definition redis_key :: "string \<Rightarrow> string \<Rightarrow> string" where
  "redis_key ns sid = ''bff:sess:'' @ ns @ '':'' @ sid"

definition as_session :: "json option \<Rightarrow> dict option" where
  "as_session v = (case v of Some (JObj d) \<Rightarrow> Some d | _ \<Rightarrow> None)"

text \<open>\<open>json.loads\<close> of a stored value; the store only ever wrote objects.\<close>

definition redis_get :: "'r redis \<Rightarrow> string \<Rightarrow> string \<Rightarrow> time \<Rightarrow> 'r \<Rightarrow> dict option \<times> 'r" where
  "redis_get c ns sid now r =
     (case r_get c (redis_key ns sid) now r of
        (None, r') \<Rightarrow> (None, r')
      | (Some raw, r') \<Rightarrow> (if raw = [] then None else as_session (json_loads raw), r'))"

definition redis_set :: "'r redis \<Rightarrow> string \<Rightarrow> int \<Rightarrow> string \<Rightarrow> dict \<Rightarrow> time \<Rightarrow> 'r \<Rightarrow> 'r" where
  "redis_set c ns life sid d now r =
     snd (r_set c (redis_key ns sid) (json_dumps (JObj d)) False life now r)"

definition redis_delete :: "'r redis \<Rightarrow> string \<Rightarrow> string \<Rightarrow> 'r \<Rightarrow> 'r" where
  "redis_delete c ns sid r = r_del c (redis_key ns sid) r"

definition redis_view :: "('r \<Rightarrow> time \<Rightarrow> string \<Rightarrow> string option) \<Rightarrow> string \<Rightarrow> 'r \<Rightarrow> time \<Rightarrow> string \<Rightarrow> dict option" where
  "redis_view view ns r t sid =
     (case view r t (redis_key ns sid) of
        None \<Rightarrow> None | Some raw \<Rightarrow> (if raw = [] then None else as_session (json_loads raw)))"

lemma redis_key_inject [simp]: "redis_key ns i = redis_key ns j \<longleftrightarrow> i = j"
  by (simp add: redis_key_def)

lemma json_dumps_not_Nil: "json_dumps (JObj d) \<noteq> []"
  by (cases d) (simp_all add: json_dumps_def)

lemma redis_session_store:
  assumes laws: "redis_laws c view"
  shows "session_store (\<lambda>_. True) (\<lambda>d. text_ok (JObj d)) life (redis_view view ns)
    (redis_get c ns) (\<lambda>sid d now now'. redis_set c ns life sid d now') (redis_delete c ns)"
proof
  have get1: "fst (r_get c k t r) = view r t k" for k t r
    using laws unfolding redis_laws_def by blast
  have get2: "t \<le> t' \<Longrightarrow> view (snd (r_get c k t r)) t' i = view r t' i" for k t r t' i
    using laws unfolding redis_laws_def by blast
  have set1: "t \<le> t' \<Longrightarrow> view (snd (r_set c k v False ex t r)) t' i =
      (if i = k then (if t + of_int ex \<le> t' then None else Some v) else view r t' i)" for k v ex t r t' i
    using laws unfolding redis_laws_def by blast
  have del1: "view (r_del c k r) t i = (if i = k then None else view r t i)" for k r t i
    using laws unfolding redis_laws_def by blast
  have snd_get: "snd (redis_get c ns sid t r) = snd (r_get c (redis_key ns sid) t r)" for sid t r
    by (auto simp: redis_get_def split: prod.splits option.splits)
  show "fst (redis_get c ns sid now s) = redis_view view ns s now sid" for s sid now
    using get1 [of "redis_key ns sid" now s]
    by (auto simp: redis_get_def redis_view_def split: prod.splits option.splits)
  show "redis_view view ns (snd (redis_get c ns sid now s)) t i = redis_view view ns s t i"
    if "now \<le> t" for s sid now t i
    using that by (simp add: redis_view_def snd_get get2)
  show "redis_view view ns (redis_set c ns life sid d now' s) t i =
      (if i = sid then (if now' + of_int life \<le> t then None else Some d) else redis_view view ns s t i)"
    if "text_ok (JObj d)" "now' \<le> t" for s d now' t sid i
    using that json_loads_dumps [OF that(1)] json_dumps_not_Nil [of d]
    by (auto simp: redis_view_def redis_set_def set1 as_session_def)
  show "redis_view view ns (redis_delete c ns sid s) t i =
      (if i = sid then None else redis_view view ns s t i)" for s sid t i
    by (simp add: redis_view_def redis_delete_def del1)
qed simp_all

fun redis_op :: "'r redis \<Rightarrow> string \<Rightarrow> int \<Rightarrow> store_op \<Rightarrow> 'r \<Rightarrow> 'r" where
  "redis_op c ns life (OGet sid t) r = snd (redis_get c ns sid t r)"
| "redis_op c ns life (OSet sid d t t') r = redis_set c ns life sid d t' r"
| "redis_op c ns life (ODelete sid) r = redis_delete c ns sid r"

lemma redis_run_op:
  assumes "redis_laws c view"
  shows "session_store.run_op (redis_get c ns) (\<lambda>sid d now now'. redis_set c ns life sid d now')
    (redis_delete c ns) = redis_op c ns life"
proof (intro ext)
  note store = redis_session_store [OF assms, of life ns]
  show "session_store.run_op (redis_get c ns) (\<lambda>sid d now now'. redis_set c ns life sid d now')
      (redis_delete c ns) op r = redis_op c ns life op r" for op r
    by (cases op) (simp_all add: session_store.run_op.simps [OF store])
qed

text \<open>The Redis store refines the same abstract store, over any client with the documented
  behaviour and starting from a keyspace that holds none of the deployment's keys; what is
  written through JSON reads back as it was.\<close>

lemma redis_store_refines:
  assumes "redis_laws c view" and "\<And>t sid. view r0 t (redis_key ns sid) = None"
    and "\<forall>op \<in> set ops. op_value_ok (\<lambda>d. text_ok (JObj d)) op"
    and "sorted (concat (map op_times ops) @ [now])"
  shows "fst (redis_get c ns sid now (fold (redis_op c ns life) ops r0))
       = visible (fold (spec_op life) ops (\<lambda>_. None)) now sid"
proof -
  let ?t0 = "hd (concat (map op_times ops) @ [now])"
  note store = redis_session_store [OF assms(1), of life ns]
  have "fst (redis_get c ns sid now (fold (session_store.run_op (redis_get c ns)
      (\<lambda>sid d now now'. redis_set c ns life sid d now') (redis_delete c ns)) ops r0))
    = visible (fold (spec_op life) ops (\<lambda>_. None)) now sid"
    using assms(2,3) sorted_from_hd [OF assms(4)]
    by (intro session_store.run_visible [OF store, where ?t0.0 = ?t0])
      (simp_all add: redis_view_def visible_def)
  then show ?thesis by (simp only: redis_run_op [OF assms(1)])
qed

text \<open>A keyspace with expiry, to show that the laws can hold.\<close>

definition keyspace_redis :: "(string \<times> time \<times> string) list redis" where
  "keyspace_redis = \<lparr>
     r_get = (\<lambda>k t r. (case map_of r k of
        Some (x, v) \<Rightarrow> if x \<le> t then None else Some v | None \<Rightarrow> None, r)),
     r_set = (\<lambda>k v nx ex t r.
        (if nx \<and> (case map_of r k of Some (x, _) \<Rightarrow> t < x | None \<Rightarrow> False) then (False, r)
         else (True, AList.update k (t + of_int ex, v) r))),
     r_del = (\<lambda>k r. AList.delete k r)\<rparr>"

definition keyspace_view :: "(string \<times> time \<times> string) list \<Rightarrow> time \<Rightarrow> string \<Rightarrow> string option" where
  "keyspace_view r t k =
     (case map_of r k of Some (x, v) \<Rightarrow> if x \<le> t then None else Some v | None \<Rightarrow> None)"

lemma keyspace_laws: "redis_laws keyspace_redis keyspace_view"
  by (auto simp: redis_laws_def keyspace_redis_def keyspace_view_def map_of_update map_of_delete)



section \<open>Two deployments on one Redis\<close>

text \<open>A session id is URL-safe text: it has no colon.\<close>

definition redis_lock_key :: "string \<Rightarrow> string \<Rightarrow> string" where
  "redis_lock_key ns sid = redis_key ns sid @ '':lock''"

lemma append_colon_inject:
  assumes "CHR '':'' \<notin> set s" "CHR '':'' \<notin> set t"
  shows "a @ CHR '':'' # s = b @ CHR '':'' # t \<longleftrightarrow> a = b \<and> s = t"
proof
  assume eq: "a @ CHR '':'' # s = b @ CHR '':'' # t"
  have "takeWhile (\<lambda>c. c \<noteq> CHR '':'') (rev (x @ CHR '':'' # u)) = rev u"
    if "CHR '':'' \<notin> set u" for x u
    using that by (simp, subst takeWhile_append2) auto
  then have "rev s = rev t" using assms eq by metis
  then show "a = b \<and> s = t" using eq by simp
qed simp

lemma redis_keys_disjoint:
  assumes "CHR '':'' \<notin> set sid" and "CHR '':'' \<notin> set sid'"
  shows "redis_key ns sid = redis_key ns' sid' \<longleftrightarrow> ns = ns' \<and> sid = sid'"
  using append_colon_inject [OF assms] by (simp add: redis_key_def)

lemma redis_lock_key_apart:
  assumes "CHR '':'' \<notin> set sid" and "sid \<noteq> ''lock''"
  shows "redis_key ns sid \<noteq> redis_lock_key ns' sid'"
  using append_colon_inject [OF assms(1), of "''lock''" ns "ns' @ CHR '':'' # sid'"] assms(2)
  by (auto simp: redis_key_def redis_lock_key_def)

end
