(* ===== verification/Audit_Chain.thy ===== *)
theory Audit_Chain
  imports Json_Text
begin

text \<open>
  The tamper-evident audit (\<open>app/audit.py\<close>): record framing, pseudonyms, per-tenant content
  keys, the in-process chain, the writer, the reader and the verifier.

  A log file is the list of its lines; several writers append to one file. The hash, the HMAC
  and the Fernet cipher are the functions of a \<open>crypto\<close> record, so nothing is assumed of them
  but what a theorem names. Results: whatever writers, interleavings and restarts produced a
  file, it verifies; two verifying files whose sub-chains end in the same hash agree as far
  back as both reach; a record missing between two others is detected, one missing at
  an end of a sub-chain is not; sealed content reads back under its key and not without it;
  a provider operator's record depends on the subject through its pseudonym only.
\<close>

section \<open>Records\<close>

record crypto =
  sha256 :: "string \<Rightarrow> string"
  hmac256 :: "string \<Rightarrow> string \<Rightarrow> string"
  fernet_enc :: "string \<Rightarrow> string \<Rightarrow> string \<Rightarrow> string"
  fernet_dec :: "string \<Rightarrow> string \<Rightarrow> string option"
  fernet_key_ok :: "string \<Rightarrow> bool"

definition event_name :: string where
  "event_name = ''bff.audit''"

definition enc_fernet :: string where
  "enc_fernet = ''fernet''"

definition enc_none :: string where
  "enc_none = ''none''"

definition genesis :: string where
  "genesis = replicate 64 (CHR ''0'')"

definition chain_fields :: "string list" where
  "chain_fields = [''seq'', ''prev'', ''hash'']"

definition record_hash :: "crypto \<Rightarrow> json \<Rightarrow> string \<Rightarrow> dict \<Rightarrow> string" where
  "record_hash c seq prev payload =
     sha256 c (py_str seq @ [CHR 0x0A] @ prev @ [CHR 0x0A] @ json_dumps_sorted (JObj payload))"

text \<open>\<open>resolve_instance_id\<close>: the two environment variables, then a random local name.\<close>

definition resolve_instance_id :: "string option \<Rightarrow> string option \<Rightarrow> string \<Rightarrow> string" where
  "resolve_instance_id bff host uuid_hex =
     (case bff of Some (x # xs) \<Rightarrow> x # xs
      | _ \<Rightarrow> (case host of Some (x # xs) \<Rightarrow> x # xs | _ \<Rightarrow> ''local-'' @ take 8 uuid_hex))"

section \<open>Pseudonyms and content keys\<close>

definition actor_handle :: "crypto \<Rightarrow> string option \<Rightarrow> string \<Rightarrow> string \<Rightarrow> string" where
  "actor_handle c key subject actor_kind =
     (if actor_kind \<noteq> ''provider'' then subject
      else (case key of
              Some (x # xs) \<Rightarrow> ''provider:'' @ take 16 (hmac256 c (x # xs) subject)
            | _ \<Rightarrow> ''provider:unattributed''))"

text \<open>The keyring by tenant; \<open>Fernet(raw)\<close> refuses malformed keys.\<close>

type_synonym keyring = "(string \<times> string) list"

definition keyring_add :: "crypto \<Rightarrow> string \<Rightarrow> string \<Rightarrow> keyring \<Rightarrow> exc + keyring" where
  "keyring_add c tenant raw ks =
     (if fernet_key_ok c raw then Inr (AList.update tenant raw ks) else Inl (ValueError ''Fernet key''))"

fun new_keyring :: "crypto \<Rightarrow> (string \<times> string) list \<Rightarrow> keyring \<Rightarrow> exc + keyring" where
  "new_keyring c [] ks = Inr ks"
| "new_keyring c ((tenant, raw) # rest) ks =
     (case keyring_add c tenant raw ks of Inl e \<Rightarrow> Inl e | Inr ks' \<Rightarrow> new_keyring c rest ks')"

definition shred :: "string \<Rightarrow> keyring \<Rightarrow> bool \<times> keyring" where
  "shred tenant ks = (map_of ks tenant \<noteq> None, AList.delete tenant ks)"

definition seal :: "crypto \<Rightarrow> string \<Rightarrow> keyring \<Rightarrow> string \<Rightarrow> dict \<Rightarrow> string \<times> json" where
  "seal c iv ks tenant payload =
     (case map_of ks tenant of
        None \<Rightarrow> (enc_none, JObj payload)
      | Some k \<Rightarrow> (enc_fernet, JStr (fernet_enc c k iv (json_dumps_sorted (JObj payload)))))"

definition open_content :: "crypto \<Rightarrow> keyring \<Rightarrow> string \<Rightarrow> json \<Rightarrow> json \<Rightarrow> json option" where
  "open_content c ks tenant enc content =
     (if enc = JStr enc_none then (if is_dict content then Some content else None)
      else (case (map_of ks tenant, as_str content) of
              (Some k, Some s) \<Rightarrow>
                (case fernet_dec c k s of
                   None \<Rightarrow> None
                 | Some plain \<Rightarrow> (case json_loads plain of Some JNull \<Rightarrow> None | r \<Rightarrow> r))
            | _ \<Rightarrow> None))"

section \<open>The writer\<close>

record audit_log =
  has_path :: bool
  log_tenant :: string
  log_keys :: keyring
  pseudonym_key :: "string option"
  instance_id :: string
  echo :: bool
  chain_seq :: int
  chain_prev :: string

text \<open>What a write touches: the lines of the file, whether it can be written, and stdout.\<close>

record sink =
  file_lines :: "string list"
  writable :: bool
  printed :: "string list"

definition advance :: "crypto \<Rightarrow> dict \<Rightarrow> audit_log \<Rightarrow> (int \<times> string \<times> string) \<times> audit_log" where
  "advance c payload l =
     (let h = record_hash c (JInt (chain_seq l)) (chain_prev l) payload
      in ((chain_seq l, chain_prev l, h), l\<lparr>chain_seq := chain_seq l + 1, chain_prev := h\<rparr>))"

definition emit :: "dict \<Rightarrow> audit_log \<Rightarrow> sink \<Rightarrow> sink" where
  "emit rec l s =
     (let line = json_dumps_sorted (JObj rec);
          s1 = (if has_path l
                then (if writable s then s\<lparr>file_lines := file_lines s @ [line]\<rparr>
                      else s\<lparr>printed := printed s @ [''[audit] could not write'']\<rparr>)
                else s)
      in (if echo l then s1\<lparr>printed := printed s1 @ [line]\<rparr> else s1))"

text \<open>The arguments of \<open>record\<close>, with the timestamp and the cipher's randomness it draws.\<close>

record entry =
  e_action :: string
  e_actor :: string
  e_actor_kind :: string
  e_outcome :: string
  e_tenant :: "string option"
  e_target :: "string option"
  e_rid :: "string option"
  e_detail :: dict
  e_ts :: string
  e_iv :: string

fun opt_str :: "string option \<Rightarrow> json" where
  "opt_str None = JNull"
| "opt_str (Some s) = JStr s"

definition entry_payload :: "crypto \<Rightarrow> audit_log \<Rightarrow> entry \<Rightarrow> dict" where
  "entry_payload c l e =
     [(''action'', JStr (e_action e)),
      (''actor'', JStr (actor_handle c (pseudonym_key l) (e_actor e) (e_actor_kind e))),
      (''actor_kind'', JStr (e_actor_kind e)),
      (''outcome'', JStr (e_outcome e)),
      (''target'', opt_str (e_target e)),
      (''rid'', opt_str (e_rid e))]
     @ (if e_detail e = [] then [] else [(''detail'', JObj (e_detail e))])"

definition entry_tenant :: "audit_log \<Rightarrow> entry \<Rightarrow> string" where
  "entry_tenant l e = (case e_tenant e of Some (x # xs) \<Rightarrow> x # xs | _ \<Rightarrow> log_tenant l)"

definition framed :: "crypto \<Rightarrow> audit_log \<Rightarrow> entry \<Rightarrow> dict" where
  "framed c l e =
     (let sealed = seal c (e_iv e) (log_keys l) (entry_tenant l e) (entry_payload c l e)
      in [(''v'', JInt 1), (''event'', JStr event_name), (''instance'', JStr (instance_id l)),
          (''ts'', JStr (e_ts e)), (''tenant'', JStr (entry_tenant l e)),
          (''enc'', JStr (fst sealed)), (''content'', snd sealed)])"

definition record_entry :: "crypto \<Rightarrow> entry \<Rightarrow> audit_log \<times> sink \<Rightarrow> dict \<times> audit_log \<times> sink" where
  "record_entry c e ls =
     (case advance c (framed c (fst ls) e) (fst ls) of
        ((seq, prev, digest), l') \<Rightarrow>
          (let rec = framed c (fst ls) e @ [(''seq'', JInt seq), (''prev'', JStr prev), (''hash'', JStr digest)]
           in (rec, l', emit rec l' (snd ls))))"

section \<open>Reading a file\<close>

definition parse_record :: "string \<Rightarrow> dict option" where
  "parse_record line =
     (let s = py_strip line in
      if s = [] then None
      else (case json_loads s of
              Some (JObj d) \<Rightarrow> (if dict_get d ''event'' = JStr event_name then Some d else None)
            | _ \<Rightarrow> None))"

definition iter_records :: "string list \<Rightarrow> dict list" where
  "iter_records ls = List.map_filter parse_record ls"

definition last_record :: "string list \<Rightarrow> string \<Rightarrow> dict option" where
  "last_record ls inst =
     (case filter (\<lambda>d. dict_get d ''instance'' = JStr inst) (iter_records ls) of
        [] \<Rightarrow> None | ds \<Rightarrow> Some (last ds))"

definition int_val :: "json \<Rightarrow> int" where
  "int_val v = (case v of JInt i \<Rightarrow> i | JBool b \<Rightarrow> (if b then 1 else 0) | _ \<Rightarrow> 0)"

definition seed_from_tail :: "string list \<Rightarrow> audit_log \<Rightarrow> audit_log" where
  "seed_from_tail ls l =
     (case last_record ls (instance_id l) of
        None \<Rightarrow> l
      | Some d \<Rightarrow>
          (case dict_get d ''hash'' of
             JStr h \<Rightarrow>
               (if is_int (dict_get d ''seq'')
                then l\<lparr>chain_seq := int_val (dict_get d ''seq'') + 1, chain_prev := h\<rparr> else l)
           | _ \<Rightarrow> l))"

definition new_audit_log ::
  "bool \<Rightarrow> string \<Rightarrow> keyring \<Rightarrow> string option \<Rightarrow> string \<Rightarrow> bool \<Rightarrow> string list \<Rightarrow> audit_log" where
  "new_audit_log path tenant ks pkey inst ech ls =
     (let l = \<lparr>has_path = path, log_tenant = tenant, log_keys = ks, pseudonym_key = pkey,
               instance_id = inst, echo = ech, chain_seq = 0, chain_prev = genesis\<rparr>
      in if path then seed_from_tail ls l else l)"

definition shown :: "crypto \<Rightarrow> keyring \<Rightarrow> string \<Rightarrow> dict \<Rightarrow> dict" where
  "shown c ks wanted d =
     (let opened = open_content c ks wanted (dict_get_or d ''enc'' (JStr enc_none)) (dict_get d ''content'')
      in [(''seq'', dict_get d ''seq''), (''ts'', dict_get d ''ts''), (''tenant'', dict_get d ''tenant''),
          (''instance'', dict_get d ''instance''), (''readable'', JBool (opened \<noteq> None)),
          (''content'', (case opened of None \<Rightarrow> JNull | Some v \<Rightarrow> v))])"

text \<open>Newest first; the limit is looked at after an element is taken, so one always is.\<close>

definition read_log :: "crypto \<Rightarrow> string option \<Rightarrow> int \<Rightarrow> audit_log \<Rightarrow> string list \<Rightarrow> dict list" where
  "read_log c tenant limit l ls =
     (if \<not> has_path l then []
      else (let wanted = (case tenant of Some (x # xs) \<Rightarrow> x # xs | _ \<Rightarrow> log_tenant l);
                found = filter (\<lambda>d. dict_get d ''tenant'' = JStr wanted) (rev (iter_records ls))
            in map (shown c (log_keys l) wanted) (take (nat (max 1 limit)) found)))"

section \<open>Verification\<close>

text \<open>
  A dict key of \<open>heads\<close>: numbers compare by value, lists and dicts are not hashable and raise.
\<close>

fun hash_key :: "json \<Rightarrow> json option" where
  "hash_key (JBool b) = Some (JInt (if b then 1 else 0))"
| "hash_key (JFloat q) = Some (if q \<in> \<int> then JInt \<lfloor>q\<rfloor> else JFloat q)"
| "hash_key (JList xs) = None"
| "hash_key (JObj d) = None"
| "hash_key v = Some v"

definition rec_inst :: "dict \<Rightarrow> json" where
  "rec_inst d = dict_get_or d ''instance'' (JStr '''')"

definition rec_seq :: "dict \<Rightarrow> int" where
  "rec_seq d = int_val (dict_get d ''seq'')"

definition str_val :: "json \<Rightarrow> string" where
  "str_val v = (case v of JStr s \<Rightarrow> s | _ \<Rightarrow> [])"

definition rec_prev :: "dict \<Rightarrow> string" where
  "rec_prev d = str_val (dict_get d ''prev'')"

definition rec_digest :: "dict \<Rightarrow> string" where
  "rec_digest d = str_val (dict_get d ''hash'')"

definition rec_payload :: "dict \<Rightarrow> dict" where
  "rec_payload d = filter (\<lambda>(k, v). k \<notin> set chain_fields) d"

definition has_chain_fields :: "dict \<Rightarrow> bool" where
  "has_chain_fields d =
     (is_int (dict_get d ''seq'') \<and> is_str (dict_get d ''prev'') \<and> is_str (dict_get d ''hash''))"

definition self_hash :: "crypto \<Rightarrow> dict \<Rightarrow> string" where
  "self_hash c d = record_hash c (dict_get d ''seq'') (rec_prev d) (rec_payload d)"

fun verify_records ::
  "crypto \<Rightarrow> (json \<times> int \<times> string) list \<Rightarrow> nat \<Rightarrow> dict list \<Rightarrow> exc + bool \<times> string" where
  "verify_records c heads count [] =
     Inr (True, if count = 0 then ''no audit records''
                else ''verified '' @ show_nat count @ '' record(s) across '' @ show_nat (length heads) @ '' instance(s)'')"
| "verify_records c heads count (d # ds) =
     (let inst = rec_inst d; seq = rec_seq d; prev = rec_prev d; digest = rec_digest d in
      if \<not> has_chain_fields d then
        Inr (False, ''record '' @ show_nat count @ '' in '' @ py_repr inst @ '' is missing chain fields'')
      else if self_hash c d \<noteq> digest then
        Inr (False, ''record seq='' @ py_str (dict_get d ''seq'') @ '' instance='' @ py_repr inst
                    @ '' fails its own hash (altered)'')
      else
        (case hash_key inst of
           None \<Rightarrow> Inl (PyError ''unhashable type'')
         | Some k \<Rightarrow>
             (case map_of heads k of
                Some (exp_seq, exp_prev) \<Rightarrow>
                  (if seq \<noteq> exp_seq then
                     Inr (False, ''sequence gap in instance '' @ py_repr inst @ '': expected seq=''
                                 @ show_int exp_seq @ '', got '' @ py_str (dict_get d ''seq''))
                   else if prev \<noteq> exp_prev then
                     Inr (False, ''broken link at seq='' @ py_str (dict_get d ''seq'') @ '' in instance ''
                                 @ py_repr inst @ '' (record deleted or reordered)'')
                   else verify_records c (AList.update k (seq + 1, digest) heads) (Suc count) ds)
              | None \<Rightarrow> verify_records c (AList.update k (seq + 1, digest) heads) (Suc count) ds)))"

definition verify_chain :: "crypto \<Rightarrow> string list \<Rightarrow> exc + bool \<times> string" where
  "verify_chain c ls = verify_records c [] 0 (iter_records ls)"

definition verifies :: "crypto \<Rightarrow> string list \<Rightarrow> bool" where
  "verifies c ls = (case verify_chain c ls of Inr (b, _) \<Rightarrow> b | Inl _ \<Rightarrow> False)"

section \<open>What a verified file looks like\<close>

text \<open>A sub-chain: the records of one instance, in file order; consecutive ones are linked.\<close>

definition subchain :: "json \<Rightarrow> dict list \<Rightarrow> dict list" where
  "subchain k ds = filter (\<lambda>d. hash_key (rec_inst d) = Some k) ds"

definition linked :: "dict \<Rightarrow> dict \<Rightarrow> bool" where
  "linked a b \<longleftrightarrow> rec_seq b = rec_seq a + 1 \<and> rec_prev b = rec_digest a"

definition self_ok :: "crypto \<Rightarrow> dict \<Rightarrow> bool" where
  "self_ok c d \<longleftrightarrow> has_chain_fields d \<and> self_hash c d = rec_digest d \<and> hash_key (rec_inst d) \<noteq> None"

definition follows :: "(int \<times> string) option \<Rightarrow> dict list \<Rightarrow> bool" where
  "follows head ds \<longleftrightarrow>
     (case (head, ds) of
        (Some (s, p), d # _) \<Rightarrow> rec_seq d = s \<and> rec_prev d = p
      | _ \<Rightarrow> True)"

lemma subchain_simps [simp]:
  "subchain k [] = []"
  "subchain k (d # ds) = (if hash_key (rec_inst d) = Some k then [d] else []) @ subchain k ds"
  "subchain k (ds @ es) = subchain k ds @ subchain k es"
  by (simp_all add: subchain_def)

lemma verify_records_iff:
  "(\<exists>m. verify_records c heads n ds = Inr (True, m)) \<longleftrightarrow>
     (\<forall>d \<in> set ds. self_ok c d)
     \<and> (\<forall>k. successively linked (subchain k ds) \<and> follows (map_of heads k) (subchain k ds))"
proof (induction ds arbitrary: heads n)
  case Nil
  then show ?case by (auto simp: follows_def split: option.splits)
next
  case (Cons d ds)
  show ?case
  proof (cases "self_ok c d")
    case False
    then show ?thesis by (auto simp: self_ok_def Let_def split: option.splits if_splits)
  next
    case True
    then obtain k where k: "hash_key (rec_inst d) = Some k" by (auto simp: self_ok_def)
    let ?heads = "AList.update k (rec_seq d + 1, rec_digest d) heads"
    have step: "(\<exists>m. verify_records c heads n (d # ds) = Inr (True, m)) \<longleftrightarrow>
        follows (map_of heads k) [d] \<and> (\<exists>m. verify_records c ?heads (Suc n) ds = Inr (True, m))"
      using True k by (auto simp: self_ok_def follows_def Let_def split: option.splits)
    have head: "successively linked (subchain k (d # ds)) \<longleftrightarrow>
        successively linked (subchain k ds) \<and> follows (Some (rec_seq d + 1, rec_digest d)) (subchain k ds)"
      using k by (cases "subchain k ds") (auto simp: follows_def linked_def)
    have sub: "follows (map_of heads k) (subchain k (d # ds)) \<longleftrightarrow> follows (map_of heads k) [d]"
      using k by (simp add: follows_def split: option.splits)
    have other: "subchain k' (d # ds) = subchain k' ds" if "k' \<noteq> k" for k'
      using k that by simp
    show ?thesis (is "?l \<longleftrightarrow> ?r")
    proof
      assume ?l
      then have f: "follows (map_of heads k) [d]" and "\<forall>x \<in> set ds. self_ok c x"
        and all: "\<And>k'. successively linked (subchain k' ds) \<and> follows (map_of ?heads k') (subchain k' ds)"
        using step Cons.IH [of ?heads "Suc n"] by blast+
      moreover have "successively linked (subchain k' (d # ds)) \<and> follows (map_of heads k') (subchain k' (d # ds))" for k'
        using all [of k'] f head sub other [of k']
        by (cases "k' = k") (auto simp del: subchain_simps simp: map_of_update)
      ultimately show ?r using True by simp
    next
      assume r: ?r
      have rk: "successively linked (subchain k' (d # ds)) \<and> follows (map_of heads k') (subchain k' (d # ds))" for k'
        using r by blast
      have "successively linked (subchain k' ds) \<and> follows (map_of ?heads k') (subchain k' ds)" for k'
        using rk [of k'] head other [of k']
        by (cases "k' = k") (auto simp del: subchain_simps simp: map_of_update)
      moreover have "follows (map_of heads k) [d]" using r sub by blast
      ultimately show ?l using step Cons.IH [of ?heads "Suc n"] r by simp
    qed
  qed
qed

lemma verifies_iff:
  "verifies c ls \<longleftrightarrow> (\<forall>d \<in> set (iter_records ls). self_ok c d)
     \<and> (\<forall>k. successively linked (subchain k (iter_records ls)))"
proof -
  have "verifies c ls \<longleftrightarrow> (\<exists>m. verify_chain c ls = Inr (True, m))"
    by (auto simp: verifies_def split: sum.splits)
  then show ?thesis by (simp add: verify_chain_def verify_records_iff follows_def)
qed

section \<open>What verification detects, and what it does not\<close>

lemma iter_records_append [simp]: "iter_records (a @ b) = iter_records a @ iter_records b"
  by (simp add: iter_records_def map_filter_def)

lemma iter_records_Cons:
  "iter_records (x # ls) = (case parse_record x of None \<Rightarrow> [] | Some d \<Rightarrow> [d]) @ iter_records ls"
  by (simp add: iter_records_def map_filter_def split: option.splits)

lemma iter_records_Nil [simp]: "iter_records [] = []"
  by (simp add: iter_records_def map_filter_def)

text \<open>Cutting a verified file anywhere leaves two files that verify: a deletion at either end
  of a sub-chain is not detected, since no record has to be the first one and nothing is known
  of the last.\<close>

theorem truncation_undetected:
  assumes "verifies c (a @ b)"
  shows "verifies c a \<and> verifies c b"
  using assms by (auto simp: verifies_iff successively_append_iff)

text \<open>C24. A record missing from between two records of its instance is detected.\<close>

theorem interior_deletion_detected:
  assumes "verifies c (a @ x # b)" and "parse_record x = Some d" and "hash_key (rec_inst d) = Some k"
    and "subchain k (iter_records a) \<noteq> []" and "subchain k (iter_records b) \<noteq> []"
  shows "\<not> verifies c (a @ b)"
proof
  let ?A = "subchain k (iter_records a)" and ?B = "subchain k (iter_records b)"
  assume "verifies c (a @ b)"
  then have "successively linked (?A @ ?B)" by (simp add: verifies_iff)
  then have 1: "linked (last ?A) (hd ?B)" using assms(4,5) by (simp add: successively_append_iff)
  have "subchain k (iter_records (a @ x # b)) = ?A @ d # ?B"
    using assms(2,3) by (simp add: iter_records_Cons)
  then have "successively linked (?A @ d # ?B)" using assms(1) unfolding verifies_iff by metis
  then have "linked (last ?A) d" "linked d (hd ?B)"
    using assms(4,5) by (auto simp: successively_append_iff successively_Cons)
  then show False using 1 by (simp add: linked_def)
qed

text \<open>Equal records: the same keys with the same values, in any order.\<close>

lemma canon_map:
  assumes "distinct (map fst d)"
  shows "map_of (sort_key fst (map (\<lambda>(k, v). (k, canon v)) d)) k = map_option canon (map_of d k)"
proof -
  let ?f = "\<lambda>(k, v). (k, canon v)"
  have fst: "fst \<circ> ?f = fst" by auto
  have d: "distinct (map fst (map ?f d))" using assms by (simp add: fst)
  have "map_of (sort_key fst (map ?f d)) = map_of (map ?f d)"
    using d distinct_keys_sort [OF d] by (intro map_of_inject_set [THEN iffD2]) simp_all
  then show ?thesis by (simp add: map_of_map)
qed

lemma canon_eq_iff:
  assumes "distinct (map fst d)" "distinct (map fst e)"
  shows "canon (JObj d) = canon (JObj e) \<longleftrightarrow> (\<forall>k. map_option canon (map_of d k) = map_option canon (map_of e k))"
proof
  assume "canon (JObj d) = canon (JObj e)"
  then show "\<forall>k. map_option canon (map_of d k) = map_option canon (map_of e k)"
    using canon_map [OF assms(1)] canon_map [OF assms(2)] by simp
next
  assume eq: "\<forall>k. map_option canon (map_of d k) = map_option canon (map_of e k)"
  let ?f = "\<lambda>(k, v). (k, canon v)"
  have fst: "fst \<circ> ?f = fst" by auto
  have "canon (JObj (map ?f d)) = canon (JObj (map ?f e))"
    using assms eq by (intro canon_JObj_cong) (auto simp: fst map_of_map)
  moreover have "canon (JObj (map ?f x)) = canon (JObj x)" for x
  proof -
    have "map ?f (map ?f x) = map ?f x" by (induction x) auto
    then show ?thesis by (simp only: canon.simps)
  qed
  ultimately show "canon (JObj d) = canon (JObj e)" by metis
qed

lemma map_of_filter_key: "map_of (filter (\<lambda>(k, v). P k) al) k = (if P k then map_of al k else None)"
  by (induction al) auto

lemma map_of_payload: "map_of (rec_payload d) k = (if k \<in> set chain_fields then None else map_of d k)"
  using map_of_filter_key [of "\<lambda>k. k \<notin> set chain_fields" d k] by (simp add: rec_payload_def)

lemma distinct_payload: "distinct (map fst d) \<Longrightarrow> distinct (map fst (rec_payload d))"
  by (induction d) (auto simp: rec_payload_def)

lemma text_ok_payload: "text_ok (JObj d) \<Longrightarrow> text_ok (JObj (rec_payload d))"
  using distinct_payload [of d] by (auto simp: rec_payload_def list_all_iff)

lemma field_present: "dict_get d k \<noteq> JNull \<Longrightarrow> map_of d k = Some (dict_get d k)"
  by (auto simp: dict_get_def split: option.splits)

lemma same_record:
  assumes "text_ok (JObj d)" "text_ok (JObj e)" "has_chain_fields d" "has_chain_fields e"
    and "dict_get d ''seq'' = dict_get e ''seq''" "rec_prev d = rec_prev e" "rec_digest d = rec_digest e"
    and "canon (JObj (rec_payload d)) = canon (JObj (rec_payload e))"
  shows "canon (JObj d) = canon (JObj e)"
proof -
  have dist: "distinct (map fst d)" "distinct (map fst e)" using assms(1,2) by simp_all
  have field: "map_of d k = map_of e k" if "k \<in> set chain_fields" for k
  proof -
    have "dict_get d k = dict_get e k" "dict_get d k \<noteq> JNull" "dict_get e k \<noteq> JNull"
      using that assms(3-7) by (auto simp: chain_fields_def has_chain_fields_def rec_prev_def
          rec_digest_def str_val_def is_str_iff)
    then show ?thesis using field_present by metis
  qed
  have "map_option canon (map_of d k) = map_option canon (map_of e k)" for k
  proof (cases "k \<in> set chain_fields")
    case False
    then have "map_of (rec_payload d) k = map_of d k" "map_of (rec_payload e) k = map_of e k"
      by (simp_all add: map_of_payload)
    then show ?thesis
      using assms(8) canon_eq_iff distinct_payload dist by metis
  qed (simp add: field)
  then show ?thesis using canon_eq_iff [OF dist] by simp
qed

text \<open>The text a record's hash is taken of determines sequence number, link and payload.\<close>

definition hash_input :: "dict \<Rightarrow> string" where
  "hash_input d = py_str (dict_get d ''seq'') @ [CHR 0x0A] @ rec_prev d @ [CHR 0x0A]
     @ json_dumps_sorted (JObj (rec_payload d))"

lemma self_hash_input: "self_hash c d = sha256 c (hash_input d)"
  by (simp add: self_hash_def record_hash_def hash_input_def)

lemma no_newline: "printable x \<Longrightarrow> x \<noteq> CHR 0x0A"
  by (auto simp: printable_def)

lemma seq_text_printable: "is_int v \<Longrightarrow> x \<in> set (py_str v) \<Longrightarrow> printable x"
proof (cases v)
  case (JInt i)
  then show "x \<in> set (py_str v) \<Longrightarrow> printable x" by (simp add: printable_show_int)
next
  case (JBool b)
  then show "x \<in> set (py_str v) \<Longrightarrow> printable x" by (auto simp: printable_def split: if_splits)
qed auto

lemma show_int_not_bool: "show_int i \<noteq> ''True'' \<and> show_int i \<noteq> ''False''"
proof -
  have "hd (show_nat n) \<in> set (show_nat n)" for n by simp
  then have "is_digit (hd (show_nat n))" for n using show_nat_digits by blast
  then have h: "is_digit (hd (show_int i)) \<or> hd (show_int i) = CHR ''-''"
    by (simp add: show_int_def)
  show ?thesis
  proof (intro conjI notI)
    assume "show_int i = ''True''"
    then show False using h by (simp add: is_digit_def)
  next
    assume "show_int i = ''False''"
    then show False using h by (simp add: is_digit_def)
  qed
qed

lemma seq_text_inject: "is_int v \<Longrightarrow> is_int w \<Longrightarrow> py_str v = py_str w \<Longrightarrow> v = w"
  using show_int_not_bool by (cases v; cases w) (auto split: if_splits dest: sym)

lemma split_at_newline:
  assumes "\<forall>x \<in> set a. printable x" "\<forall>x \<in> set b. printable x"
    and "a @ CHR 0x0A # u = b @ CHR 0x0A # v"
  shows "a = b \<and> u = v"
proof -
  have t: "takeWhile (\<lambda>x. x \<noteq> CHR 0x0A) (p @ CHR 0x0A # q) = p" if "\<forall>x \<in> set p. printable x" for p q
    using that no_newline by (subst takeWhile_append2) auto
  have "a = b" using t [OF assms(1), of u] t [OF assms(2), of v] assms(3) by metis
  then show ?thesis using assms(3) by simp
qed

lemma hash_input_inject:
  assumes "text_ok (JObj d)" "text_ok (JObj e)" "has_chain_fields d" "has_chain_fields e"
    and "hash_input d = hash_input e"
  shows "dict_get d ''seq'' = dict_get e ''seq'' \<and> rec_prev d = rec_prev e
    \<and> canon (JObj (rec_payload d)) = canon (JObj (rec_payload e))"
proof -
  let ?j = "\<lambda>d. json_dumps_sorted (JObj (rec_payload d))"
  have pr: "\<forall>x \<in> set (?j x'). printable x" if "text_ok (JObj x')" for x'
    using printable_json_text [of "[]" "canon (JObj (rec_payload x'))"] text_ok_canon [OF text_ok_payload [OF that]]
    unfolding json_dumps_sorted_def by auto
  have ints: "is_int (dict_get d ''seq'')" "is_int (dict_get e ''seq'')"
    using assms(3,4) by (simp_all add: has_chain_fields_def)
  have "py_str (dict_get d ''seq'') = py_str (dict_get e ''seq'') \<and>
      rec_prev d @ CHR 0x0A # ?j d = rec_prev e @ CHR 0x0A # ?j e"
    using assms(5) seq_text_printable ints by (intro split_at_newline) (auto simp: hash_input_def)
  then have s: "dict_get d ''seq'' = dict_get e ''seq''"
    and r: "rec_prev d @ CHR 0x0A # ?j d = rec_prev e @ CHR 0x0A # ?j e"
    using seq_text_inject ints by blast+
  have "rev (?j d) @ CHR 0x0A # rev (rec_prev d) = rev (?j e) @ CHR 0x0A # rev (rec_prev e)"
    using arg_cong [OF r, of rev] by simp
  then have "rev (?j d) = rev (?j e) \<and> rev (rec_prev d) = rev (rec_prev e)"
    using pr [OF assms(1)] pr [OF assms(2)] by (intro split_at_newline) auto
  then show ?thesis
    using s json_dumps_sorted_inject text_ok_payload assms(1,2) by (metis rev_rev_ident)
qed

text \<open>A record up to the order of its keys.\<close>

definition record_value :: "dict \<Rightarrow> json" where
  "record_value d = canon (JObj d)"

lemma committed_chains:
  assumes "successively linked A" "successively linked B" "A \<noteq> []" "B \<noteq> []"
    and "\<forall>d \<in> set A \<union> set B. self_ok c d \<and> text_ok (JObj d)"
    and "inj_on (sha256 c) (hash_input ` (set A \<union> set B))"
    and "rec_digest (last A) = rec_digest (last B)"
  shows "suffix (map record_value A) (map record_value B) \<or> suffix (map record_value B) (map record_value A)"
  using assms
proof (induction A arbitrary: B rule: rev_induct)
  case (snoc a A)
  obtain B' b where B: "B = B' @ [b]" using snoc.prems(4) by (cases B rule: rev_cases) auto
  have ab: "self_ok c a" "self_ok c b" "text_ok (JObj a)" "text_ok (JObj b)"
    using snoc.prems(5) B by auto
  have "sha256 c (hash_input a) = sha256 c (hash_input b)"
    using ab snoc.prems(7) B by (simp add: self_ok_def self_hash_input)
  then have "hash_input a = hash_input b"
    using inj_onD [OF snoc.prems(6), of "hash_input a" "hash_input b"] B by simp
  then have eq: "dict_get a ''seq'' = dict_get b ''seq''" "rec_prev a = rec_prev b"
      "canon (JObj (rec_payload a)) = canon (JObj (rec_payload b))"
    using hash_input_inject [OF ab(3,4)] ab(1,2) unfolding self_ok_def by blast+
  moreover have "rec_digest a = rec_digest b" using snoc.prems(7) B by simp
  ultimately have last: "record_value a = record_value b"
    using same_record [OF ab(3,4)] ab(1,2) unfolding self_ok_def record_value_def by blast
  show ?case
  proof (cases "A = [] \<or> B' = []")
    case True
    then show ?thesis using last B by (auto simp: suffix_def)
  next
    case False
    have "rec_digest (last A) = rec_digest (last B')"
      using False snoc.prems(1,2) B eq(2) by (auto simp: successively_append_iff linked_def)
    then have "suffix (map record_value A) (map record_value B') \<or> suffix (map record_value B') (map record_value A)"
      using snoc.prems(1,2,5,6) B False
      by (intro snoc.IH) (auto simp: successively_append_iff intro: inj_on_subset)
    then show ?thesis using last B by (auto simp: suffix_def)
  qed
qed simp

lemma set_subchain: "set (subchain k ds) \<subseteq> set ds"
  by (auto simp: subchain_def)

text \<open>C23. The last hash of a sub-chain commits to the whole of it: if the hash has no collision on
  the records of the two files, two verifying sub-chains that end in the same hash hold the
  same records as far back as the shorter one reaches.\<close>

theorem last_hash_commits:
  assumes "verifies c ls" "verifies c ls'"
    and "A = subchain k (iter_records ls)" "B = subchain k (iter_records ls')" "A \<noteq> []" "B \<noteq> []"
    and "\<forall>d \<in> set A \<union> set B. text_ok (JObj d)"
    and "inj_on (sha256 c) (hash_input ` (set A \<union> set B))"
    and "rec_digest (last A) = rec_digest (last B)"
  shows "suffix (map record_value A) (map record_value B) \<or> suffix (map record_value B) (map record_value A)"
proof (rule committed_chains)
  show "\<forall>d \<in> set A \<union> set B. self_ok c d \<and> text_ok (JObj d)"
    using assms(1-4,7) set_subchain by (fastforce simp: verifies_iff)
qed (use assms in \<open>auto simp: verifies_iff\<close>)

section \<open>The files the writers make\<close>

text \<open>
  Writers by instance id over one file: an instance starts (or restarts, reading its tail) or
  records an entry. A write by an instance that is not running does nothing.
\<close>

datatype audit_step =
    Start string string keyring "string option"
  | Write string entry

type_synonym audit_system = "(string \<times> audit_log) list \<times> sink"

fun audit_do :: "crypto \<Rightarrow> audit_step \<Rightarrow> audit_system \<Rightarrow> audit_system" where
  "audit_do c (Start inst tenant ks pkey) (logs, s) =
     (AList.update inst (new_audit_log True tenant ks pkey inst False (file_lines s)) logs, s)"
| "audit_do c (Write inst e) (logs, s) =
     (case map_of logs inst of
        None \<Rightarrow> (logs, s)
      | Some l \<Rightarrow> (case record_entry c e (l, s) of (_, l', s') \<Rightarrow> (AList.update inst l' logs, s')))"

definition entry_ok :: "entry \<Rightarrow> bool" where
  "entry_ok e \<longleftrightarrow> text_ok (JObj (e_detail e))"

fun step_ok :: "audit_step \<Rightarrow> bool" where
  "step_ok (Write inst e) = entry_ok e"
| "step_ok (Start inst tenant ks pkey) = True"

text \<open>A written line reads back as its record.\<close>

lemma strip_object_text: "py_strip (json_text sp (JObj d)) = json_text sp (JObj d)"
  by (simp add: py_strip_def lstrip_by_def rstrip_by_def is_space_def)

definition canon_dict :: "dict \<Rightarrow> dict" where
  "canon_dict d = sort_key fst (map (\<lambda>(k, v). (k, canon v)) d)"

lemma canon_JObj: "canon (JObj d) = JObj (canon_dict d)"
  by (simp add: canon_dict_def)

lemma map_of_canon_dict: "distinct (map fst d) \<Longrightarrow> map_of (canon_dict d) k = map_option canon (map_of d k)"
  by (simp only: canon_dict_def canon_map)

lemma dict_get_canon: "distinct (map fst d) \<Longrightarrow> dict_get (canon_dict d) k = canon (dict_get d k)"
  by (simp add: dict_get_def map_of_canon_dict split: option.splits)

lemma parse_written:
  assumes "text_ok (JObj d)" and "dict_get d ''event'' = JStr event_name"
  shows "parse_record (json_dumps_sorted (JObj d)) = Some (canon_dict d)"
proof -
  have "json_loads (json_dumps_sorted (JObj d)) = Some (JObj (canon_dict d))"
    using json_loads_dumps_sorted [OF assms(1)] by (simp only: canon_JObj)
  moreover have "py_strip (json_dumps_sorted (JObj d)) = json_dumps_sorted (JObj d)"
    unfolding json_dumps_sorted_def canon_JObj by (rule strip_object_text)
  moreover have "json_dumps_sorted (JObj d) \<noteq> []"
    unfolding json_dumps_sorted_def canon_JObj by simp
  moreover have "dict_get (canon_dict d) ''event'' = JStr event_name"
    using assms by (simp add: dict_get_canon)
  ultimately show ?thesis by (simp add: parse_record_def Let_def)
qed

lemma distinct_canon_dict: "distinct (map fst d) \<Longrightarrow> distinct (map fst (canon_dict d))"
proof -
  assume "distinct (map fst d)"
  moreover have "map fst (map (\<lambda>(k, v). (k, canon v)) d) = map fst d" by (induction d) auto
  ultimately have "distinct (map fst (map (\<lambda>(k, v). (k, canon v)) d))" by (simp only:)
  then show ?thesis unfolding canon_dict_def by (rule distinct_keys_sort)
qed

lemma canon_payload:
  assumes "distinct (map fst d)"
  shows "canon (JObj (rec_payload (canon_dict d))) = canon (JObj (rec_payload d))"
proof -
  have "map_option canon (map_of (rec_payload (canon_dict d)) k) = map_option canon (map_of (rec_payload d) k)" for k
    using assms by (cases "map_of d k") (auto simp: map_of_payload map_of_canon_dict)
  then show ?thesis
    using assms by (subst canon_eq_iff) (auto intro: distinct_payload distinct_canon_dict)
qed

text \<open>The record a write appends.\<close>

definition written :: "crypto \<Rightarrow> audit_log \<Rightarrow> entry \<Rightarrow> dict" where
  "written c l e = framed c l e @
     [(''seq'', JInt (chain_seq l)), (''prev'', JStr (chain_prev l)),
      (''hash'', JStr (record_hash c (JInt (chain_seq l)) (chain_prev l) (framed c l e)))]"

lemma record_entry_eq:
  "record_entry c e (l, s) =
     (written c l e, l\<lparr>chain_seq := chain_seq l + 1,
        chain_prev := record_hash c (JInt (chain_seq l)) (chain_prev l) (framed c l e)\<rparr>,
      emit (written c l e) (l\<lparr>chain_seq := chain_seq l + 1,
        chain_prev := record_hash c (JInt (chain_seq l)) (chain_prev l) (framed c l e)\<rparr>) s)"
  by (simp add: record_entry_def advance_def written_def Let_def)

lemma text_ok_opt_str [simp]: "text_ok (opt_str x)"
  by (cases x) simp_all

lemma text_ok_written: "entry_ok e \<Longrightarrow> text_ok (JObj (written c l e))"
  by (auto simp: written_def framed_def Let_def seal_def entry_payload_def entry_ok_def split: option.splits)

lemma payload_written: "rec_payload (written c l e) = framed c l e"
  by (simp add: rec_payload_def written_def framed_def Let_def chain_fields_def)

lemma written_fields:
  "dict_get (written c l e) ''event'' = JStr event_name"
  "dict_get (written c l e) ''instance'' = JStr (instance_id l)"
  "dict_get (written c l e) ''seq'' = JInt (chain_seq l)"
  "dict_get (written c l e) ''prev'' = JStr (chain_prev l)"
  "dict_get (written c l e) ''hash'' = JStr (record_hash c (JInt (chain_seq l)) (chain_prev l) (framed c l e))"
  by (simp_all add: written_def framed_def Let_def)

lemma record_hash_canon:
  "canon (JObj p) = canon (JObj q) \<Longrightarrow> record_hash c seq prev p = record_hash c seq prev q"
  by (simp add: record_hash_def json_dumps_sorted_def)

lemma written_record:
  fixes c l e
  defines "d \<equiv> canon_dict (written c l e)"
  assumes ok: "text_ok (JObj (written c l e))"
  shows "parse_record (json_dumps_sorted (JObj (written c l e))) = Some d"
    and "self_ok c d" and "rec_inst d = JStr (instance_id l)"
    and "rec_seq d = chain_seq l" and "rec_prev d = chain_prev l"
    and "rec_digest d = record_hash c (JInt (chain_seq l)) (chain_prev l) (framed c l e)"
proof -
  have dist: "distinct (map fst (written c l e))" using ok by simp
  show "parse_record (json_dumps_sorted (JObj (written c l e))) = Some d"
    unfolding d_def using ok written_fields(1) by (rule parse_written)
  have f: "dict_get d k = canon (dict_get (written c l e) k)" for k
    using dist by (simp add: d_def dict_get_canon)
  note fs = f [of "''seq''"] f [of "''prev''"] f [of "''hash''"]
  show seq: "rec_seq d = chain_seq l" and prev: "rec_prev d = chain_prev l"
    and dig: "rec_digest d = record_hash c (JInt (chain_seq l)) (chain_prev l) (framed c l e)"
    by (simp_all add: rec_seq_def rec_prev_def rec_digest_def fs written_fields int_val_def str_val_def)
  have "dict_get d ''instance'' = JStr (instance_id l)"
    using f [of "''instance''"] by (simp add: written_fields)
  then show inst: "rec_inst d = JStr (instance_id l)"
    using field_present [of d "''instance''"] by (simp add: rec_inst_def dict_get_or_def)
  have seqf: "dict_get d ''seq'' = JInt (chain_seq l)"
    using fs(1) by (simp add: written_fields)
  have "canon (JObj (rec_payload d)) = canon (JObj (framed c l e))"
    using canon_payload [OF dist] by (simp only: d_def payload_written)
  then have "self_hash c d = rec_digest d"
    unfolding self_hash_def prev dig seqf by (rule record_hash_canon)
  then show "self_ok c d"
    by (simp add: self_ok_def has_chain_fields_def fs written_fields inst)
qed

text \<open>The invariant: the file verifies, and a running writer stands at the end of its sub-chain.\<close>

definition at_tail :: "string list \<Rightarrow> audit_log \<Rightarrow> bool" where
  "at_tail ls l \<longleftrightarrow>
     (subchain (JStr (instance_id l)) (iter_records ls) \<noteq> [] \<longrightarrow>
        chain_seq l = rec_seq (last (subchain (JStr (instance_id l)) (iter_records ls))) + 1
        \<and> chain_prev l = rec_digest (last (subchain (JStr (instance_id l)) (iter_records ls))))"

text \<open>Every record of the file names its instance by a text.\<close>

definition instances_ok :: "string list \<Rightarrow> bool" where
  "instances_ok ls \<longleftrightarrow> (\<forall>d \<in> set (iter_records ls). rec_inst d = dict_get d ''instance'' \<and> is_str (rec_inst d))"

definition audit_inv :: "crypto \<Rightarrow> audit_system \<Rightarrow> bool" where
  "audit_inv c sys \<longleftrightarrow>
     (case sys of (logs, s) \<Rightarrow>
        verifies c (file_lines s) \<and> writable s
        \<and> instances_ok (file_lines s)
        \<and> (\<forall>inst l. map_of logs inst = Some l \<longrightarrow>
             instance_id l = inst \<and> has_path l \<and> \<not> echo l \<and> at_tail (file_lines s) l))"

lemma subchain_instance:
  assumes "\<forall>d \<in> set ds. rec_inst d = dict_get d ''instance'' \<and> is_str (rec_inst d)"
  shows "filter (\<lambda>d. dict_get d ''instance'' = JStr inst) ds = subchain (JStr inst) ds"
  unfolding subchain_def using assms
  by (intro filter_cong refl) (fastforce simp: is_str_iff)

lemma new_audit_log_fields:
  "has_path (new_audit_log path tenant ks pkey inst ech ls) = path"
  "log_tenant (new_audit_log path tenant ks pkey inst ech ls) = tenant"
  "log_keys (new_audit_log path tenant ks pkey inst ech ls) = ks"
  "pseudonym_key (new_audit_log path tenant ks pkey inst ech ls) = pkey"
  "instance_id (new_audit_log path tenant ks pkey inst ech ls) = inst"
  "echo (new_audit_log path tenant ks pkey inst ech ls) = ech"
  by (auto simp: new_audit_log_def seed_from_tail_def Let_def split: option.splits json.splits)

lemma seeded_at_tail:
  fixes ls tenant ks pkey inst ech
  defines "l \<equiv> new_audit_log True tenant ks pkey inst ech ls"
  assumes "verifies c ls" and "instances_ok ls"
  shows "at_tail ls l"
proof -
  let ?ds = "iter_records ls"
  have eq: "filter (\<lambda>d. dict_get d ''instance'' = JStr inst) ?ds = subchain (JStr inst) ?ds"
    using assms(3) by (intro subchain_instance) (auto simp: instances_ok_def)
  have "chain_seq l = rec_seq (last (subchain (JStr inst) ?ds)) + 1
      \<and> chain_prev l = rec_digest (last (subchain (JStr inst) ?ds))" if "subchain (JStr inst) ?ds \<noteq> []"
  proof -
    define d where "d = last (subchain (JStr inst) ?ds)"
    have lr: "last_record ls inst = Some d"
      using that by (simp add: last_record_def eq d_def split: list.splits)
    have "d \<in> set ?ds" using that set_subchain [of "JStr inst" ?ds] last_in_set by (auto simp: d_def)
    then have "has_chain_fields d"
      using assms(2) by (simp add: verifies_iff self_ok_def)
    then show ?thesis
      using lr by (auto simp: l_def new_audit_log_def Let_def seed_from_tail_def has_chain_fields_def
          is_str_iff rec_seq_def rec_digest_def str_val_def d_def [symmetric])
  qed
  then show ?thesis by (simp add: at_tail_def l_def new_audit_log_fields)
qed

lemma inst_written: "dict_get (canon_dict (written c l e)) ''instance'' = JStr (instance_id l)"
proof -
  have "distinct (map fst (written c l e))"
    by (simp add: written_def framed_def Let_def)
  then show ?thesis by (simp add: dict_get_canon written_fields)
qed

text \<open>Appending the record a writer at the end of its sub-chain makes.\<close>

definition advanced :: "crypto \<Rightarrow> audit_log \<Rightarrow> entry \<Rightarrow> audit_log" where
  "advanced c l e = l\<lparr>chain_seq := chain_seq l + 1,
     chain_prev := record_hash c (JInt (chain_seq l)) (chain_prev l) (framed c l e)\<rparr>"

lemma append_written:
  assumes ok: "text_ok (JObj (written c l e))" and ver: "verifies c ls" and inst: "instances_ok ls" and tail: "at_tail ls l"
  defines "ls' \<equiv> ls @ [json_dumps_sorted (JObj (written c l e))]"
  shows "verifies c ls'" and "instances_ok ls'" and "at_tail ls' (advanced c l e)"
    and "at_tail ls l2 \<Longrightarrow> instance_id l2 \<noteq> instance_id l \<Longrightarrow> at_tail ls' l2"
proof -
  let ?d = "canon_dict (written c l e)"
  note rec = written_record [OF ok]
  have iter: "iter_records ls' = iter_records ls @ [?d]"
    using rec(1) by (simp add: ls'_def iter_records_Cons)
  have sub: "subchain k (iter_records ls @ [?d]) =
      subchain k (iter_records ls) @ (if k = JStr (instance_id l) then [?d] else [])" for k
    using rec(3) by auto
  have "successively linked (subchain k (iter_records ls @ [?d]))" for k
    using ver tail rec(4,5)
    by (auto simp: sub verifies_iff successively_append_iff linked_def at_tail_def simp del: subchain_simps)
  then show "verifies c ls'"
    using ver rec(2) unfolding verifies_iff iter by auto
  show "instances_ok ls'"
    using inst rec(3) inst_written unfolding instances_ok_def iter by auto
  show "at_tail ls' (advanced c l e)"
    unfolding at_tail_def iter using rec(4,6) by (simp add: advanced_def sub del: subchain_simps)
  show "at_tail ls' l2" if "at_tail ls l2" "instance_id l2 \<noteq> instance_id l"
    using that unfolding at_tail_def iter by (simp add: sub del: subchain_simps)
qed

lemma audit_inv_step:
  assumes inv: "audit_inv c sys" and ok: "step_ok st"
  shows "audit_inv c (audit_do c st sys)"
proof -
  obtain logs s where sys: "sys = (logs, s)" by (cases sys)
  have lines: "verifies c (file_lines s)" "instances_ok (file_lines s)" "writable s"
    and logs: "\<And>i l. map_of logs i = Some l \<Longrightarrow> instance_id l = i \<and> has_path l \<and> \<not> echo l \<and> at_tail (file_lines s) l"
    using inv by (auto simp: sys audit_inv_def)
  show ?thesis
  proof (cases st)
    case (Start inst tenant ks pkey)
    then show ?thesis
      using inv seeded_at_tail [OF lines(1,2)]
      by (auto simp: sys audit_inv_def map_of_update new_audit_log_fields)
  next
    case (Write inst e)
    show ?thesis
    proof (cases "map_of logs inst")
      case None
      then show ?thesis using Write inv sys by simp
    next
      case (Some l)
      note l = logs [OF Some]
      have "text_ok (JObj (written c l e))" using ok Write by (intro text_ok_written) simp
      note app = append_written [OF this lines(1,2)]
      have "audit_do c st sys = (AList.update inst (advanced c l e) logs,
          s\<lparr>file_lines := file_lines s @ [json_dumps_sorted (JObj (written c l e))]\<rparr>)"
        using Some Write l lines(3) by (simp add: sys record_entry_eq emit_def advanced_def)
      then show ?thesis
        unfolding audit_inv_def using logs l app lines(3)
        by (auto simp: map_of_update advanced_def)
    qed
  qed
qed

lemma audit_inv_run: "audit_inv c sys \<Longrightarrow> \<forall>st \<in> set sts. step_ok st \<Longrightarrow> audit_inv c (fold (audit_do c) sts sys)"
  by (induction sts arbitrary: sys) (auto simp: audit_inv_step)

definition empty_system :: audit_system where
  "empty_system = ([], \<lparr>file_lines = [], writable = True, printed = []\<rparr>)"

lemma empty_system_inv: "audit_inv c empty_system"
  by (simp add: audit_inv_def empty_system_def verifies_iff instances_ok_def)


text \<open>A concrete run, with the identity as the hash, to show that the hypotheses can hold.\<close>

definition demo_crypto :: crypto where
  "demo_crypto = \<lparr>sha256 = (\<lambda>s. s), hmac256 = (\<lambda>k m. k @ m), fernet_enc = (\<lambda>k iv m. k @ m),
     fernet_dec = (\<lambda>k m. Some (drop (length k) m)), fernet_key_ok = (\<lambda>k. True)\<rparr>"

definition demo_entry :: entry where
  "demo_entry = \<lparr>e_action = ''auth.login'', e_actor = ''alice'', e_actor_kind = ''tenant'',
     e_outcome = ''success'', e_tenant = None, e_target = None, e_rid = None, e_detail = [],
     e_ts = ''t'', e_iv = []\<rparr>"

definition demo_steps :: "nat \<Rightarrow> audit_step list" where
  "demo_steps n = Start ''i'' ''t'' [] None # replicate n (Write ''i'' demo_entry)"

fun demo_log :: "nat \<Rightarrow> audit_log" where
  "demo_log 0 = new_audit_log True ''t'' [] None ''i'' False []"
| "demo_log (Suc n) = (case record_entry demo_crypto demo_entry (demo_log n, snd empty_system) of (_, l, _) \<Rightarrow> l)"

definition demo_rec :: "nat \<Rightarrow> dict" where
  "demo_rec n = canon_dict (written demo_crypto (demo_log n) demo_entry)"

definition demo_line :: "nat \<Rightarrow> string" where
  "demo_line n = json_dumps_sorted (JObj (written demo_crypto (demo_log n) demo_entry))"

lemma demo_steps_ok: "\<forall>st \<in> set (demo_steps n). step_ok st"
  by (auto simp: demo_steps_def entry_ok_def demo_entry_def)

lemma demo_log_fields: "instance_id (demo_log n) = ''i'' \<and> has_path (demo_log n) \<and> \<not> echo (demo_log n)"
  by (induction n) (simp_all add: new_audit_log_def seed_from_tail_def last_record_def record_entry_eq)

lemma demo_run: "fold (audit_do demo_crypto) (demo_steps n) empty_system =
    ([(''i'', demo_log n)], \<lparr>file_lines = map demo_line [0..<n], writable = True, printed = []\<rparr>)"
proof (induction n)
  case 0
  then show ?case by (simp add: demo_steps_def empty_system_def)
next
  case (Suc n)
  have "demo_steps (Suc n) = demo_steps n @ [Write ''i'' demo_entry]"
    by (simp add: demo_steps_def replicate_append_same)
  then show ?case
    using Suc demo_log_fields [of n] by (simp add: record_entry_eq emit_def Let_def demo_line_def)
qed


lemma demo_verifies: "verifies demo_crypto (map demo_line [0..<n])"
  using audit_inv_run [OF empty_system_inv demo_steps_ok, of demo_crypto n] unfolding demo_run audit_inv_def by simp

lemma demo_entry_ok: "entry_ok demo_entry"
  by (simp add: entry_ok_def demo_entry_def)

lemma demo_parse: "parse_record (demo_line n) = Some (demo_rec n)"
  unfolding demo_line_def demo_rec_def by (rule written_record(1) [OF text_ok_written [OF demo_entry_ok]])

lemma demo_inst: "hash_key (rec_inst (demo_rec n)) = Some (JStr ''i'')"
  using written_record(3) [OF text_ok_written [OF demo_entry_ok], of demo_crypto "demo_log n"] demo_log_fields
  by (simp add: demo_rec_def)

lemma demo_iter: "iter_records (map demo_line ns) = map demo_rec ns"
  by (induction ns) (simp_all add: iter_records_Cons demo_parse)

lemma demo_subchain: "subchain (JStr ''i'') (map demo_rec ns) = map demo_rec ns"
  by (induction ns) (simp_all add: demo_inst)

lemma demo_text_ok: "text_ok (JObj (demo_rec n))"
  using text_ok_canon [OF text_ok_written [OF demo_entry_ok]] unfolding canon_JObj demo_rec_def .

lemma demo_three: "verifies demo_crypto [demo_line 0, demo_line 1, demo_line 2]"
  using demo_verifies [of 3] by (simp add: upt_rec eval_nat_numeral)

lemma demo_two: "verifies demo_crypto [demo_line 0, demo_line 1]"
  using demo_verifies [of 2] by (simp add: upt_rec eval_nat_numeral)

lemma demo_one: "verifies demo_crypto [demo_line 1]"
  using demo_two by (simp add: verifies_iff iter_records_Cons demo_parse)

lemma demo_inj: "inj_on (sha256 demo_crypto) X"
  by (simp add: demo_crypto_def)

theorem truncation_undetected_witness:
  "verifies demo_crypto [demo_line 0] \<and> verifies demo_crypto [demo_line 1, demo_line 2]"
  using truncation_undetected [of demo_crypto "[demo_line 0]" "[demo_line 1, demo_line 2]"] demo_three
  by simp

theorem interior_deletion_detected_witness: "\<not> verifies demo_crypto [demo_line 0, demo_line 2]"
  using interior_deletion_detected [of demo_crypto "[demo_line 0]" "demo_line 1" "[demo_line 2]" "demo_rec 1" "JStr ''i''"]
    demo_three by (simp add: iter_records_Cons demo_parse demo_inst)

theorem last_hash_commits_witness:
  "suffix (map record_value [demo_rec 0, demo_rec 1]) (map record_value [demo_rec 1])
   \<or> suffix (map record_value [demo_rec 1]) (map record_value [demo_rec 0, demo_rec 1])"
  by (rule last_hash_commits [of demo_crypto "[demo_line 0, demo_line 1]" "[demo_line 1]"
        "[demo_rec 0, demo_rec 1]" "JStr ''i''" "[demo_rec 1]"])
    (simp_all add: iter_records_Cons demo_parse demo_inst demo_text_ok demo_inj
       demo_two [simplified] demo_one [simplified] del: text_ok.simps inj_on_insert)

section \<open>Sealed content and pseudonyms\<close>

text \<open>Sealed content reads back, whether the tenant has a key or not, provided the cipher
  decrypts what it encrypted.\<close>

theorem seal_open_roundtrip:
  assumes "\<And>k iv m. fernet_dec c k (fernet_enc c k iv m) = Some m" and "text_ok (JObj payload)"
    and "seal c iv ks tenant payload = (enc, content)"
  shows "map_option canon (open_content c ks tenant (JStr enc) content) = Some (canon (JObj payload))"
proof (cases "map_of ks tenant")
  case None
  then show ?thesis using assms by (auto simp: seal_def open_content_def)
next
  case (Some k)
  have "json_loads (json_dumps_sorted (JObj payload)) = Some (JObj (canon_dict payload))"
    using json_loads_dumps_sorted [OF assms(2)] by (simp only: canon_JObj)
  moreover have "canon (JObj (canon_dict payload)) = canon (JObj payload)"
    by (metis canon_JObj canon_idem)
  ultimately show ?thesis
    using Some assms by (auto simp: seal_def open_content_def enc_fernet_def enc_none_def simp del: canon.simps)
qed

theorem seal_open_roundtrip_witness:
  "map_option canon (open_content demo_crypto [(''t'', ''key'')] ''t'' (JStr enc_fernet)
      (JStr (''key'' @ json_dumps_sorted (JObj [(''a'', JInt 1)])))) = Some (JObj [(''a'', JInt 1)])"
  using seal_open_roundtrip [of demo_crypto "[(''a'', JInt 1)]" "[]" "[(''t'', ''key'')]" "''t''"]
  by (simp add: demo_crypto_def seal_def)

text \<open>What a reader sees of a record whose content it cannot open.\<close>

definition unreadable :: "dict \<Rightarrow> dict" where
  "unreadable r = dict_set ''content'' JNull (dict_set ''readable'' (JBool False) r)"

lemma shown_shredded:
  assumes "dict_get d ''enc'' = JStr enc_fernet"
  shows "shown c (snd (shred t ks)) t d = unreadable (shown c ks t d)"
proof -
  have "dict_get_or d ''enc'' x = JStr enc_fernet" for x
    using assms by (auto simp: dict_get_def dict_get_or_def split: option.splits)
  then have "open_content c (snd (shred t ks)) t (dict_get_or d ''enc'' (JStr enc_none)) (dict_get d ''content'') = None"
    by (simp add: open_content_def shred_def map_of_delete enc_fernet_def enc_none_def)
  then show ?thesis by (simp add: shown_def unreadable_def dict_set_def Let_def)
qed

text \<open>C25. Shredding a tenant's key leaves every sealed record of the tenant in the listing, in its
  place and with its sequence number and time, and its content unreadable.\<close>

theorem shred_hides_content:
  assumes "\<forall>d \<in> set (iter_records ls). dict_get d ''tenant'' = JStr t \<longrightarrow> dict_get d ''enc'' = JStr enc_fernet"
    and "t \<noteq> []"
  shows "read_log c (Some t) n (l\<lparr>log_keys := snd (shred t (log_keys l))\<rparr>) ls
       = map unreadable (read_log c (Some t) n l ls)"
proof -
  let ?found = "filter (\<lambda>d. dict_get d ''tenant'' = JStr t) (rev (iter_records ls))"
  have "shown c (snd (shred t (log_keys l))) t d = unreadable (shown c (log_keys l) t d)"
    if "d \<in> set (take m ?found)" for d m
    using in_set_takeD [OF that] assms(1) by (auto intro: shown_shredded)
  then have "map (shown c (snd (shred t (log_keys l))) t) (take m ?found)
      = map unreadable (map (shown c (log_keys l) t) (take m ?found))" for m
    by simp
  then show ?thesis
    using assms(2) by (cases t) (simp_all add: read_log_def Let_def)
qed

definition demo_sealed_rec :: dict where
  "demo_sealed_rec = [(''content'', JStr ''k{}''), (''enc'', JStr ''fernet''), (''event'', JStr ''bff.audit''),
     (''seq'', JInt 0), (''tenant'', JStr ''t'')]"

definition demo_sealed :: string where
  "demo_sealed = json_dumps_sorted (JObj demo_sealed_rec)"

lemma demo_sealed_records: "iter_records [demo_sealed] = [demo_sealed_rec]"
proof -
  have "canon_dict demo_sealed_rec = demo_sealed_rec" by code_simp
  then show ?thesis
    using parse_written [of demo_sealed_rec]
    by (simp add: demo_sealed_def iter_records_Cons demo_sealed_rec_def event_name_def)
qed

theorem shred_hides_content_witness:
  "map (\<lambda>r. (dict_get r ''seq'', dict_get r ''readable''))
     (read_log demo_crypto (Some ''t'') 5 ((demo_log 0)\<lparr>log_keys := snd (shred ''t'' [(''t'', ''k'')])\<rparr>) [demo_sealed])
   = [(JInt 0, JBool False)]"
  using shred_hides_content [of "[demo_sealed]" "''t''" demo_crypto 5 "(demo_log 0)\<lparr>log_keys := [(''t'', ''k'')]\<rparr>"]
  by (simp add: demo_sealed_records demo_sealed_rec_def enc_fernet_def read_log_def shown_def unreadable_def
      Let_def dict_simps new_audit_log_def seed_from_tail_def last_record_def)

text \<open>What is recorded and written of a provider operator depends on the subject only through
  its handle: without a key all subjects give the same record, with one those whose handles
  agree.\<close>

theorem provider_subject_hidden:
  assumes "e_actor_kind e = ''provider''"
    and "pseudonym_key l = None \<or> pseudonym_key l = Some []
       \<or> (\<exists>k. pseudonym_key l = Some k \<and> take 16 (hmac256 c k x) = take 16 (hmac256 c k y))"
  shows "record_entry c (e\<lparr>e_actor := x\<rparr>) (l, s) = record_entry c (e\<lparr>e_actor := y\<rparr>) (l, s)"
proof -
  have "actor_handle c (pseudonym_key l) x (e_actor_kind e) = actor_handle c (pseudonym_key l) y (e_actor_kind e)"
    using assms by (auto simp: actor_handle_def split: option.splits list.splits)
  then have "framed c l (e\<lparr>e_actor := x\<rparr>) = framed c l (e\<lparr>e_actor := y\<rparr>)"
    by (simp add: framed_def entry_payload_def entry_tenant_def Let_def)
  then show ?thesis by (simp add: record_entry_eq written_def)
qed

theorem provider_subject_hidden_witness:
  "record_entry demo_crypto (demo_entry\<lparr>e_actor_kind := ''provider'', e_actor := ''alice''\<rparr>) (demo_log 0, snd empty_system)
   = record_entry demo_crypto (demo_entry\<lparr>e_actor_kind := ''provider'', e_actor := ''bob''\<rparr>) (demo_log 0, snd empty_system)"
  using provider_subject_hidden [of "demo_entry\<lparr>e_actor_kind := ''provider''\<rparr>" "demo_log 0" demo_crypto "''alice''" "''bob''"]
  by (simp add: new_audit_log_def seed_from_tail_def last_record_def)

section \<open>Actors and outcomes\<close>

definition actor_from_session :: "dict option \<Rightarrow> string \<times> string" where
  "actor_from_session session =
     (case session of
        None \<Rightarrow> (''unauthenticated'', ''tenant'')
      | Some d \<Rightarrow>
          (if d = [] then (''unauthenticated'', ''tenant'')
           else if dict_get d ''plane'' = JStr ''provider''
             then (py_str (py_or (dict_get d ''sub'') (JStr ''unknown'')), ''provider'')
           else if dict_get d ''kind'' = JStr ''oidc''
             then (py_str (py_or (dict_get d ''sub'') (JStr ''unknown'')), ''tenant'')
           else (''password:'' @ py_str (py_or (dict_get d ''role'') (JStr ''unknown'')), ''tenant'')))"

definition outcome_for :: "int \<Rightarrow> string" where
  "outcome_for status =
     (if status = 401 \<or> status = 403 then ''denied''
      else if status < 400 then ''success'' else ''error'')"

end
