(* ===== verification/Config.thy ===== *)
theory Config
  imports Json_Text
begin

text \<open>
  The settings and how they are read from the environment (\<open>app/config.py\<close>).

  The process environment and the files are the functions of a \<open>host\<close> record: a variable or a
  file is there or not. \<open>load_settings\<close> raises what the code raises, in the order it evaluates
  the fields; the texts of the errors are shortened. Results: secrets never carry surrounding
  white space, a variable wins over its file, a legacy proxy variable set without the ranges
  stops the process, and a group table is a map of strings to strings or an error.
\<close>

section \<open>The settings\<close>

record settings =
  gateway_url :: string
  gateway_api_prefix :: string
  gateway_token :: string
  ui_admin_password :: string
  ui_viewer_password :: string
  session_secret :: string
  prometheus_url :: string
  loki_url :: string
  grafana_url :: string
  session_redis_url :: string
  session_ttl_seconds :: int
  cors_origins :: "string list"
  cookie_secure :: bool
  cookie_domain :: string
  login_max_failures :: int
  login_window_seconds :: int
  trusted_proxy_cidrs :: "string list"
  oidc_enabled :: bool
  oidc_issuer :: string
  oidc_client_id :: string
  oidc_client_secret :: string
  oidc_allow_plaintext_issuer :: bool
  oidc_redirect_url :: string
  oidc_scopes :: string
  oidc_post_login_redirect :: string
  oidc_post_logout_redirect :: string
  tenant_id :: string
  public_gateway_url :: string
  public_catalog_url :: string
  provider_oidc_enabled :: bool
  provider_oidc_issuer :: string
  provider_oidc_client_id :: string
  provider_oidc_client_secret :: string
  provider_oidc_redirect_url :: string
  provider_oidc_scopes :: string
  provider_group_scopes :: "(string \<times> string) list"
  provider_groups_claim :: string
  provider_tenant_registry :: string
  audit_path :: string
  audit_tenant :: string
  audit_content_key :: string
  audit_pseudonym_key :: string
  catalog_service_url :: string
  catalog_api_token :: string

definition default_session_secret :: string where
  "default_session_secret = ''dev-insecure-change-me''"

section \<open>The environment\<close>

record host =
  env_var :: "string \<Rightarrow> string option"
  file_text :: "string \<Rightarrow> string option"

definition getenv :: "host \<Rightarrow> string \<Rightarrow> string \<Rightarrow> string" where
  "getenv h name dflt = (case env_var h name of Some v \<Rightarrow> v | None \<Rightarrow> dflt)"

definition secret :: "host \<Rightarrow> string \<Rightarrow> string \<Rightarrow> string" where
  "secret h env_name file_env =
     (let v = py_strip (getenv h env_name '''') in
      if v \<noteq> [] then v
      else (let path = py_strip (getenv h file_env '''') in
            if path \<noteq> [] then (case file_text h path of Some t \<Rightarrow> py_strip t | None \<Rightarrow> '''')
            else ''''))"

text \<open>\<open>int(text)\<close>: surrounding white space, a sign, digits with single underscores between.\<close>

definition py_nat :: "string \<Rightarrow> nat option" where
  "py_nat s =
     (let parts = split_on (CHR ''_'') s in
      if list_all (\<lambda>p. p \<noteq> [] \<and> list_all is_digit p) parts then Some (digits_val (concat parts)) else None)"

definition py_int :: "string \<Rightarrow> int option" where
  "py_int s =
     (case py_strip s of
        CHR ''-'' # t \<Rightarrow> map_option (\<lambda>n. - int n) (py_nat t)
      | CHR ''+'' # t \<Rightarrow> map_option int (py_nat t)
      | t \<Rightarrow> map_option int (py_nat t))"

definition env_int :: "host \<Rightarrow> string \<Rightarrow> string \<Rightarrow> exc + int" where
  "env_int h name dflt =
     (case py_int (getenv h name dflt) of Some i \<Rightarrow> Inr i | None \<Rightarrow> Inl (ValueError ''invalid literal for int()''))"

definition env_flag :: "host \<Rightarrow> string \<Rightarrow> bool" where
  "env_flag h name = (py_lower (getenv h name ''false'') \<in> {''1'', ''true'', ''yes''})"

definition legacy_proxy_vars :: "string list" where
  "legacy_proxy_vars = [''TRUST_FORWARDED_FOR'', ''TRUSTED_PROXY_HOPS'']"

definition legacy_refusal :: "string \<Rightarrow> string" where
  "legacy_refusal names = names @ '' is set but is no longer honoured. Trusting ''
     @ ''X-Forwarded-For without knowing which hops are yours lets any caller choose ''
     @ ''their own throttle bucket, so a hop count is not enough. Set ''
     @ ''TRUSTED_PROXY_CIDRS to the address range(s) of your reverse proxies instead ''
     @ ''(e.g. TRUSTED_PROXY_CIDRS=10.244.0.0/16), and remove ''
     @ names @ ''. Leave it empty to throttle on the direct peer.''"

definition trusted_proxy_values :: "host \<Rightarrow> exc + string list" where
  "trusted_proxy_values h =
     (let vs = split_csv (py_strip (getenv h ''TRUSTED_PROXY_CIDRS'' '''')) in
      if vs \<noteq> [] then Inr vs
      else (let legacy = filter (\<lambda>n. py_strip (getenv h n '''') \<notin> {'''', ''false'', ''0'', ''no''}) legacy_proxy_vars
            in if legacy \<noteq> []
               then Inl (ValueError (legacy_refusal (join_with '' and '' legacy)))
               else Inr []))"

fun str_items :: "dict \<Rightarrow> (string \<times> string) list option" where
  "str_items [] = Some []"
| "str_items ((k, v) # d) =
     (case (v, str_items d) of (JStr s, Some r) \<Rightarrow> Some ((k, s) # r) | _ \<Rightarrow> None)"

definition json_map :: "host \<Rightarrow> string \<Rightarrow> exc + (string \<times> string) list" where
  "json_map h env_name =
     (let raw = py_strip (getenv h env_name '''') in
      if raw = [] then Inr []
      else (case json_loads raw of
              None \<Rightarrow> Inl (ValueError (env_name @ '' is not valid JSON''))
            | Some (JObj d) \<Rightarrow>
                (case str_items d of
                   Some m \<Rightarrow> Inr m
                 | None \<Rightarrow> Inl (ValueError (env_name @ '' must be a JSON object of string->string'')))
            | Some _ \<Rightarrow> Inl (ValueError (env_name @ '' must be a JSON object of string->string''))))"

section \<open>Loading\<close>

definition bind_result :: "exc + 'a \<Rightarrow> ('a \<Rightarrow> exc + 'b) \<Rightarrow> exc + 'b" where
  "bind_result m k = (case m of Inl e \<Rightarrow> Inl e | Inr x \<Rightarrow> k x)"

definition rstrip_slash :: "string \<Rightarrow> string" where
  "rstrip_slash s = rstrip_by (\<lambda>c. c = CHR ''/'') s"

definition load_settings :: "host \<Rightarrow> exc + settings" where
  "load_settings h =
     bind_result (env_int h ''SESSION_TTL_SECONDS'' ''28800'') (\<lambda>ttl.
     bind_result (env_int h ''LOGIN_MAX_FAILURES'' ''5'') (\<lambda>max_failures.
     bind_result (env_int h ''LOGIN_WINDOW_SECONDS'' ''60'') (\<lambda>window.
     bind_result (trusted_proxy_values h) (\<lambda>cidrs.
     bind_result (json_map h ''PROVIDER_GROUP_SCOPES'') (\<lambda>groups.
       Inr \<lparr>gateway_url = getenv h ''GATEWAY_URL'' ''http://localhost:8000'',
         gateway_api_prefix = getenv h ''GATEWAY_API_PREFIX'' ''/v1'',
         gateway_token = secret h ''GATEWAY_API_TOKEN'' ''GATEWAY_TOKEN_FILE'',
         ui_admin_password = py_strip (getenv h ''UI_ADMIN_PASSWORD'' ''''),
         ui_viewer_password = py_strip (getenv h ''UI_VIEWER_PASSWORD'' ''''),
         session_secret = py_strip (getenv h ''SESSION_SECRET'' default_session_secret),
         prometheus_url = getenv h ''PROMETHEUS_URL'' '''',
         loki_url = getenv h ''LOKI_URL'' '''',
         grafana_url = getenv h ''GRAFANA_URL'' '''',
         session_redis_url = getenv h ''SESSION_REDIS_URL'' '''',
         session_ttl_seconds = ttl,
         cors_origins = split_csv (getenv h ''CORS_ORIGINS'' ''''),
         cookie_secure = env_flag h ''COOKIE_SECURE'',
         cookie_domain = py_strip (getenv h ''COOKIE_DOMAIN'' ''''),
         login_max_failures = max_failures,
         login_window_seconds = window,
         trusted_proxy_cidrs = cidrs,
         oidc_enabled = env_flag h ''OIDC_ENABLED'',
         oidc_issuer = getenv h ''OIDC_ISSUER'' '''',
         oidc_client_id = getenv h ''OIDC_CLIENT_ID'' '''',
         oidc_client_secret = getenv h ''OIDC_CLIENT_SECRET'' '''',
         oidc_allow_plaintext_issuer = env_flag h ''OIDC_ALLOW_PLAINTEXT_ISSUER'',
         oidc_redirect_url = getenv h ''OIDC_REDIRECT_URL'' '''',
         oidc_scopes = getenv h ''OIDC_SCOPES'' ''openid profile email offline_access'',
         oidc_post_login_redirect = getenv h ''OIDC_POST_LOGIN_REDIRECT'' ''/'',
         oidc_post_logout_redirect = getenv h ''OIDC_POST_LOGOUT_REDIRECT'' '''',
         tenant_id = py_strip (getenv h ''TENANT_ID'' ''''),
         public_gateway_url = rstrip_slash (py_strip (getenv h ''PUBLIC_GATEWAY_URL'' '''')),
         public_catalog_url = rstrip_slash (py_strip (getenv h ''PUBLIC_CATALOG_URL'' '''')),
         provider_oidc_enabled = env_flag h ''PROVIDER_OIDC_ENABLED'',
         provider_oidc_issuer = getenv h ''PROVIDER_OIDC_ISSUER'' '''',
         provider_oidc_client_id = getenv h ''PROVIDER_OIDC_CLIENT_ID'' '''',
         provider_oidc_client_secret = secret h ''PROVIDER_OIDC_CLIENT_SECRET'' ''PROVIDER_OIDC_CLIENT_SECRET_FILE'',
         provider_oidc_redirect_url = getenv h ''PROVIDER_OIDC_REDIRECT_URL'' '''',
         provider_oidc_scopes = getenv h ''PROVIDER_OIDC_SCOPES'' ''openid profile email'',
         provider_group_scopes = groups,
         provider_groups_claim = getenv h ''PROVIDER_GROUPS_CLAIM'' ''groups'',
         provider_tenant_registry = secret h ''PROVIDER_TENANT_REGISTRY'' ''PROVIDER_TENANT_REGISTRY_FILE'',
         audit_path = getenv h ''AUDIT_PATH'' '''',
         audit_tenant = getenv h ''AUDIT_TENANT'' ''default'',
         audit_content_key = secret h ''AUDIT_CONTENT_KEY'' ''AUDIT_CONTENT_KEY_FILE'',
         audit_pseudonym_key = secret h ''AUDIT_PSEUDONYM_KEY'' ''AUDIT_PSEUDONYM_KEY_FILE'',
         catalog_service_url = getenv h ''CATALOG_SERVICE_URL'' '''',
         catalog_api_token = secret h ''CATALOG_API_TOKEN'' ''CATALOG_API_TOKEN_FILE''\<rparr>)))))"

section \<open>What loading guarantees\<close>

lemma rstrip_by_idem: "rstrip_by p (rstrip_by p s) = rstrip_by p s"
  by (simp add: rstrip_by_def)

lemma lstrip_rstrip: "lstrip_by p (rstrip_by p (lstrip_by p s)) = rstrip_by p (lstrip_by p s)"
proof (cases "lstrip_by p s")
  case Nil
  then show ?thesis by (simp add: rstrip_by_def lstrip_by_def del: dropWhile_eq_Nil_conv)
next
  case (Cons x xs)
  then have "\<not> p x" unfolding lstrip_by_def by (metis dropWhile_eq_Cons_conv)
  then have "dropWhile p (ys @ [x]) = dropWhile p ys @ [x]" for ys
    by (induction ys) auto
  then have "dropWhile p (rev xs @ [x]) = dropWhile p (rev xs) @ [x]" .
  then show ?thesis
    using Cons \<open>\<not> p x\<close> by (simp add: rstrip_by_def lstrip_by_def)
qed

lemma py_strip_idem [simp]: "py_strip (py_strip s) = py_strip s"
  by (simp add: py_strip_def lstrip_rstrip rstrip_by_idem)

lemma py_strip_Nil [simp]: "py_strip [] = []"
  by (simp add: py_strip_def lstrip_by_def rstrip_by_def)

lemma secret_stripped: "py_strip (secret h e f) = secret h e f"
  by (simp add: secret_def Let_def split: option.split)

lemma bind_result_Inr: "bind_result m k = Inr y \<longleftrightarrow> (\<exists>x. m = Inr x \<and> k x = Inr y)"
  by (cases m) (auto simp: bind_result_def)

text \<open>Loaded settings hold no secret or password with white space around it, from a variable
  or from a file; the ranges are those of \<open>TRUSTED_PROXY_CIDRS\<close>, and when that is empty no
  legacy variable asks to trust the header.\<close>

theorem load_settings_sound:
  assumes "load_settings h = Inr s"
  shows "(\<forall>v \<in> {gateway_token s, ui_admin_password s, ui_viewer_password s, session_secret s,
               provider_oidc_client_secret s, audit_content_key s, audit_pseudonym_key s,
               catalog_api_token s}. py_strip v = v)
    \<and> trusted_proxy_cidrs s = split_csv (py_strip (getenv h ''TRUSTED_PROXY_CIDRS'' ''''))
    \<and> (trusted_proxy_cidrs s = [] \<longrightarrow>
         (\<forall>n \<in> set legacy_proxy_vars. py_strip (getenv h n '''') \<in> {'''', ''false'', ''0'', ''no''}))"
proof -
  have "trusted_proxy_values h = Inr (trusted_proxy_cidrs s)"
    using assms by (auto simp: load_settings_def bind_result_Inr)
  then have "trusted_proxy_cidrs s = split_csv (py_strip (getenv h ''TRUSTED_PROXY_CIDRS'' ''''))
    \<and> (trusted_proxy_cidrs s = [] \<longrightarrow>
         (\<forall>n \<in> set legacy_proxy_vars. py_strip (getenv h n '''') \<in> {'''', ''false'', ''0'', ''no''}))"
    by (auto simp: trusted_proxy_values_def Let_def filter_empty_conv split: if_splits)
  moreover have "\<forall>v \<in> {gateway_token s, ui_admin_password s, ui_viewer_password s, session_secret s,
      provider_oidc_client_secret s, audit_content_key s, audit_pseudonym_key s, catalog_api_token s}.
      py_strip v = v"
    using assms by (auto simp: load_settings_def bind_result_Inr secret_stripped)
  ultimately show ?thesis by blast
qed

definition bare_host :: host where
  "bare_host = \<lparr>env_var = Map.empty, file_text = Map.empty\<rparr>"

lemma bare_host_loads: "\<exists>s. load_settings bare_host = Inr s"
proof -
  have "env_int bare_host n d = (case py_int d of Some i \<Rightarrow> Inr i | None \<Rightarrow> Inl (ValueError ''invalid literal for int()''))" for n d
    by (simp add: env_int_def getenv_def bare_host_def)
  moreover have "py_int ''28800'' = Some 28800" "py_int ''5'' = Some 5" "py_int ''60'' = Some 60" by code_simp+
  moreover have "trusted_proxy_values bare_host = Inr []" "json_map bare_host ''PROVIDER_GROUP_SCOPES'' = Inr []"
    by code_simp+
  ultimately show ?thesis by (simp add: load_settings_def bind_result_def)
qed

theorem load_settings_sound_witness:
  "\<exists>s. load_settings bare_host = Inr s \<and> py_strip (session_secret s) = session_secret s
       \<and> trusted_proxy_cidrs s = []"
proof -
  obtain s where s: "load_settings bare_host = Inr s" using bare_host_loads by blast
  have "split_csv (py_strip (getenv bare_host ''TRUSTED_PROXY_CIDRS'' '''')) = []" by code_simp
  then show ?thesis using load_settings_sound [OF s] s by auto
qed

end
