(* ===== verification/Correlation.thy ===== *)
theory Correlation
  imports Prelude
begin

text \<open>
  HTTP messages and the correlation id (\<open>app/correlation.py\<close>).

  \<open>wire\<close> is one outbound request as it leaves the process (its JSON body, the fields \<open>httpx\<close>
  encodes, which are the form of a POST or the query parameters of a GET, and its basic
  credentials if any), \<open>response\<close> one answer; header lists
  follow \<open>httpx\<close> (names compare in lower case, an assignment replaces, an update drops the
  names it brings). The context variable of the module is a string that the operations take
  and return.

  Results: an outbound request carries the id in scope and nothing a caller put in its place;
  no id is invented; a block that binds an id leaves the previous one in place.
\<close>

section \<open>HTTP messages\<close>

record wire =
  w_method :: string
  w_url :: string
  w_headers :: headers
  w_json :: "json option"
  w_form :: "(string \<times> string) list"
  w_basic :: "(string \<times> string) option"

record response =
  r_status :: int
  r_headers :: headers
  r_text :: string

definition same_header :: "string \<Rightarrow> string \<Rightarrow> bool" where
  "same_header m n = (py_lower m = py_lower n)"

fun header_set :: "string \<Rightarrow> string \<Rightarrow> headers \<Rightarrow> headers" where
  "header_set k v [] = [(k, v)]"
| "header_set k v ((n, x) # hs) =
     (if same_header n k then (k, v) # filter (\<lambda>(m, _). \<not> same_header m k) hs
      else (n, x) # header_set k v hs)"

definition headers_update :: "headers \<Rightarrow> headers \<Rightarrow> headers" where
  "headers_update base extra =
     filter (\<lambda>(n, _). \<not> list_ex (\<lambda>(m, _). same_header m n) extra) base @ extra"

text \<open>Every value a header list carries under a name, in any spelling.\<close>

definition header_values :: "headers \<Rightarrow> string \<Rightarrow> string list" where
  "header_values hs k = map snd (filter (\<lambda>(n, _). same_header n k) hs)"

lemma header_values_simps [simp]:
  "header_values [] k = []"
  "header_values ((n, v) # hs) k = (if same_header n k then [v] else []) @ header_values hs k"
  "header_values (hs @ hs') k = header_values hs k @ header_values hs' k"
  by (auto simp: header_values_def)

lemma header_values_none: "header_values hs k = [] \<longleftrightarrow> (\<forall>(n, v) \<in> set hs. \<not> same_header n k)"
  by (auto simp: header_values_def filter_empty_conv)

lemma header_get_values: "header_get hs k = (case header_values hs k of [] \<Rightarrow> None | v # _ \<Rightarrow> Some v)"
  by (induction hs) (auto simp: header_get_def same_header_def)

lemma header_values_filter:
  "same_header k k' \<Longrightarrow> header_values (filter (\<lambda>(n, _). \<not> same_header n k) hs) k' = []"
  by (auto simp: header_values_none same_header_def)

lemma header_values_filter_other:
  "\<not> same_header k' k \<Longrightarrow>
     header_values (filter (\<lambda>(n, _). \<not> same_header n k) hs) k' = header_values hs k'"
  by (induction hs) (auto simp: same_header_def)

lemma header_values_set:
  "header_values (header_set k v hs) k' = (if same_header k k' then [v] else header_values hs k')"
proof (induction hs)
  case (Cons h hs)
  obtain n x where "h = (n, x)" by (cases h)
  then show ?case
    using Cons header_values_filter [of k k' hs] header_values_filter_other [of k' k hs]
    by (auto simp: same_header_def)
qed simp

lemma header_values_update:
  "header_values (headers_update base extra) k =
     (if header_values extra k = [] then header_values base k else header_values extra k)"
proof (cases "header_values extra k = []")
  case True
  then have no: "\<not> same_header n k" if "(n, v) \<in> set extra" for n v
    using that by (fastforce simp: header_values_none)
  have "header_values (filter (\<lambda>(n, _). \<not> list_ex (\<lambda>(m, _). same_header m n) extra) base) k
      = header_values base k"
    using no by (induction base) (fastforce simp: same_header_def list_ex_iff split: if_splits)+
  then show ?thesis using True by (simp add: headers_update_def)
next
  case False
  then obtain n v where "(n, v) \<in> set extra" "same_header n k" by (auto simp: header_values_none)
  then have "header_values (filter (\<lambda>(n, _). \<not> list_ex (\<lambda>(m, _). same_header m n) extra) base) k = []"
    by (fastforce simp: header_values_none list_ex_iff same_header_def)
  then show ?thesis using False by (simp add: headers_update_def)
qed

section \<open>The request id in scope\<close>

definition correlation_header :: string where
  "correlation_header = ''X-Request-Id''"

definition absent_ids :: "string list" where
  "absent_ids = ['''', ''-'', ''none'', ''None'']"

definition current_request_id :: "string \<Rightarrow> string" where
  "current_request_id ctx = (if ctx \<in> set absent_ids then '''' else ctx)"

text \<open>The block runs with the id bound, may itself bind others, and the old value comes back.\<close>

definition use_request_id :: "string option \<Rightarrow> (string \<Rightarrow> string \<Rightarrow> 'a \<times> string) \<Rightarrow> string \<Rightarrow> 'a \<times> string" where
  "use_request_id rid body ctx =
     (let bound = (case rid of Some r \<Rightarrow> r | None \<Rightarrow> '''')
      in (fst (body (current_request_id bound) bound), ctx))"

definition stamp_correlation :: "string \<Rightarrow> wire \<Rightarrow> wire" where
  "stamp_correlation ctx w =
     (let rid = current_request_id ctx
      in if rid \<noteq> [] then w\<lparr>w_headers := header_set correlation_header rid (w_headers w)\<rparr> else w)"

text \<open>
  The hooks of a client, by event name. \<open>httpx\<close> runs the request hooks in their order on
  every request before it is sent.
\<close>

type_synonym hooks = "(string \<times> (string \<Rightarrow> wire \<Rightarrow> wire) list) list"

definition with_correlation_hook :: "hooks \<Rightarrow> hooks" where
  "with_correlation_hook hs =
     (let old = (case map_of hs ''request'' of Some l \<Rightarrow> l | None \<Rightarrow> [])
      in AList.update ''request'' (old @ [stamp_correlation]) hs)"

definition run_request_hooks :: "hooks \<Rightarrow> string \<Rightarrow> wire \<Rightarrow> wire" where
  "run_request_hooks hs ctx w =
     fold (\<lambda>h. h ctx) (case map_of hs ''request'' of Some l \<Rightarrow> l | None \<Rightarrow> []) w"

lemma run_with_correlation:
  "run_request_hooks (with_correlation_hook hs) ctx w = stamp_correlation ctx (run_request_hooks hs ctx w)"
  by (simp add: run_request_hooks_def with_correlation_hook_def Let_def map_of_update split: option.splits)

lemma stamp_fields [simp]:
  "w_method (stamp_correlation ctx w) = w_method w"
  "w_url (stamp_correlation ctx w) = w_url w"
  "w_json (stamp_correlation ctx w) = w_json w"
  "w_form (stamp_correlation ctx w) = w_form w"
  "w_basic (stamp_correlation ctx w) = w_basic w"
  by (simp_all add: stamp_correlation_def Let_def)

lemma stamp_values:
  "header_values (w_headers (stamp_correlation ctx w)) k =
     (if current_request_id ctx \<noteq> [] \<and> same_header correlation_header k then [current_request_id ctx]
      else header_values (w_headers w) k)"
  by (simp add: stamp_correlation_def Let_def header_values_set)

text \<open>Whatever hooks and headers a client already has, a request sent with an id in scope
  carries exactly that one id, under any spelling of the header's name; without one in scope
  no id is added.\<close>

theorem correlation_assigned:
  "header_values (w_headers (run_request_hooks (with_correlation_hook hs) ctx w)) ''x-request-id'' =
     (if current_request_id ctx \<noteq> [] then [current_request_id ctx]
      else header_values (w_headers (run_request_hooks hs ctx w)) ''x-request-id'')"
proof -
  have "same_header correlation_header ''x-request-id''" by code_simp
  then show ?thesis by (simp add: run_with_correlation stamp_values)
qed

lemma use_request_id_restores: "snd (use_request_id rid body ctx) = ctx"
  by (simp add: use_request_id_def Let_def)

end
