(* ===== verification/World.thy ===== *)
theory World
  imports Throttle Sessions Audit_Chain Config Correlation
begin

text \<open>
  What a running BFF consists of: the application state the factory builds (\<open>app/main.py\<close>), the
  surroundings it calls, and the per-request session helpers of \<open>app/sessions.py\<close>.

  \<open>env\<close> is what does not change while requests are served: the settings, the client of the
  own gateway, and the surroundings as functions of how often they were consulted: the clocks,
  the random source, the network (the answer to a request may depend on everything sent before
  it), the cryptographic primitives, the JWT library. \<open>world\<close> is what changes: the counters,
  the outbound requests in order, the stores, and the current request's cookie, cached session
  and correlation id. A handler is an action \<open>(world, 'a) act\<close> and runs to its end.
\<close>

section \<open>The parts of the application state\<close>

record gateway_client =
  gc_prefix :: string
  gc_base_url :: string
  gc_headers :: headers

record oidc_view =
  ov_issuer :: string
  ov_client_id :: string
  ov_client_secret :: string
  ov_redirect_url :: string
  ov_scopes :: string
  ov_allow_plaintext :: bool

record oidc_client =
  oc_view :: oidc_view
  oc_meta :: "dict option"

record tenant_entry =
  te_tenant_id :: string
  te_display_name :: string
  te_gateway_url :: string
  te_token_file :: string
  te_from_catalog :: bool

record tenant_directory =
  td_configured :: "(string \<times> tenant_entry) list"
  td_enrolled :: "(string \<times> tenant_entry) list"
  td_failed :: bool

record gateway_pool =
  gp_prefix :: string
  gp_clients :: "(string \<times> gateway_client) list"

record catalog_client =
  cc_configured :: bool
  cc_has_resolver :: bool
  cc_attempted_at :: time
  cc_tenant :: string
  cc_base_url :: string
  cc_headers :: headers

section \<open>The surroundings\<close>

record env =
  cfg :: settings
  own_gateway :: gateway_client
  trusted_nets :: "ip_net list"
  monotonic :: "nat \<Rightarrow> time"
  wall_clock :: "nat \<Rightarrow> time"
  iso_now :: "nat \<Rightarrow> string"
  file_stamp :: "nat \<Rightarrow> string"
  random_token :: "nat \<Rightarrow> string"
  network :: "wire list \<Rightarrow> wire \<Rightarrow> string + response"
  crypt :: crypto
  jwt_decode :: "nat \<Rightarrow> oidc_view \<Rightarrow> dict \<Rightarrow> string \<Rightarrow> string + dict"
  jwt_alg :: "string \<Rightarrow> string"
  sha2 :: "string \<Rightarrow> string \<Rightarrow> string"
  token_file :: "string \<Rightarrow> string option"

record world =
  ticks :: nat
  draws :: nat
  trace :: "wire list"
  store :: mem_store
  throttle_state :: throttle
  audit :: audit_log
  sink :: sink
  oidc :: "oidc_client option"
  provider_oidc :: "oidc_client option"
  directory :: tenant_directory
  pool :: gateway_pool
  catalog :: catalog_client
  cookie :: dict
  cached :: "dict option option"
  rid :: string

record http_request =
  q_client :: "string option"
  q_headers :: headers
  q_body :: "json option"

text \<open>What a route answers when it does not raise.\<close>

datatype reply =
    Json_Body json
  | Json_Status int json
  | Redirect string
  | Download headers string

section \<open>Primitive steps\<close>

definition tick :: "(nat \<Rightarrow> 'a) \<Rightarrow> (world, 'a) act" where
  "tick clock s = (Inr (clock (ticks s)), s\<lparr>ticks := Suc (ticks s)\<rparr>)"

definition draw :: "env \<Rightarrow> (world, string) act" where
  "draw E s = (Inr (random_token E (draws s)), s\<lparr>draws := Suc (draws s)\<rparr>)"

text \<open>One outbound request: it is sent, and answered or failed at transport level.\<close>

definition send :: "env \<Rightarrow> wire \<Rightarrow> (world, response) act" where
  "send E w s =
     (case network E (trace s) w of
        Inl e \<Rightarrow> (Inl (HTTPError e), s\<lparr>trace := trace s @ [w]\<rparr>)
      | Inr r \<Rightarrow> (Inr r, s\<lparr>trace := trace s @ [w]\<rparr>))"

definition response_json :: "response \<Rightarrow> json option" where
  "response_json r = json_loads (r_text r)"

text \<open>\<open>httpx\<close> joins a relative path to its base URL.\<close>

definition join_url :: "string \<Rightarrow> string \<Rightarrow> string" where
  "join_url base path =
     (if base \<noteq> [] \<and> last base = CHR ''/'' then base else base @ ''/'') @ lstrip_by (\<lambda>c. c = CHR ''/'') path"

lemma send_trace: "trace (snd (send E w s)) = trace s @ [w]"
  by (simp add: send_def split: sum.split)

section \<open>The session of a request\<close>

definition cookie_sid_key :: string where
  "cookie_sid_key = ''sid''"

definition current_sid :: "world \<Rightarrow> string option" where
  "current_sid s =
     (case dict_get (cookie s) cookie_sid_key of JStr (x # xs) \<Rightarrow> Some (x # xs) | _ \<Rightarrow> None)"

definition cache_session :: "dict option \<Rightarrow> (world, unit) act" where
  "cache_session d = updating (\<lambda>s. s\<lparr>cached := Some d\<rparr>)"

definition store_get :: "env \<Rightarrow> string \<Rightarrow> (world, dict option) act" where
  "store_get E sid =
     andthen (tick (monotonic E)) (\<lambda>now s.
       (case mem_get sid now (store s) of (d, st) \<Rightarrow> (Inr d, s\<lparr>store := st\<rparr>)))"

definition store_set :: "env \<Rightarrow> string \<Rightarrow> dict \<Rightarrow> (world, unit) act" where
  "store_set E sid d =
     andthen (tick (monotonic E)) (\<lambda>now.
     andthen (tick (monotonic E)) (\<lambda>now'.
       updating (\<lambda>s. s\<lparr>store := mem_set sid d now now' (store s)\<rparr>)))"

definition store_delete :: "string \<Rightarrow> (world, unit) act" where
  "store_delete sid = updating (\<lambda>s. s\<lparr>store := mem_delete sid (store s)\<rparr>)"

definition load :: "env \<Rightarrow> (world, dict option) act" where
  "load E s =
     (case cached s of
        Some d \<Rightarrow> ret d s
      | None \<Rightarrow>
          (case current_sid s of
             None \<Rightarrow> andthen (cache_session None) (\<lambda>_. ret None) s
           | Some sid \<Rightarrow>
               andthen (store_get E sid) (\<lambda>d. andthen (cache_session d) (\<lambda>_. ret d)) s))"

definition establish :: "env \<Rightarrow> dict \<Rightarrow> (world, string) act" where
  "establish E data =
     andthen (reading current_sid) (\<lambda>old.
     andthen (case old of None \<Rightarrow> ret () | Some sid \<Rightarrow> store_delete sid) (\<lambda>_.
     andthen (draw E) (\<lambda>sid.
     andthen (store_set E sid data) (\<lambda>_.
     andthen (updating (\<lambda>s. s\<lparr>cookie := [(cookie_sid_key, JStr sid)]\<rparr>)) (\<lambda>_.
     andthen (cache_session (Some data)) (\<lambda>_. ret sid))))))"

definition destroy :: "(world, unit) act" where
  "destroy =
     andthen (reading current_sid) (\<lambda>sid.
     andthen (case sid of None \<Rightarrow> ret () | Some i \<Rightarrow> store_delete i) (\<lambda>_.
     andthen (updating (\<lambda>s. s\<lparr>cookie := []\<rparr>)) (\<lambda>_. cache_session None)))"

text \<open>The store's per-session lock around a critical section; it is free when a handler asks.\<close>

definition with_lock :: "string \<Rightarrow> (world, 'a) act \<Rightarrow> (world, 'a) act" where
  "with_lock sid m s =
     (case mem_lock sid (store s) of
        (l, st) \<Rightarrow>
          (case m (s\<lparr>store := st\<lparr>mheld := l # mheld st\<rparr>\<rparr>) of
             (r, s') \<Rightarrow> (r, s'\<lparr>store := mem_release l (store s')\<rparr>)))"

section \<open>Steps that send nothing, and steps that only send\<close>

definition silent :: "world \<Rightarrow> world \<Rightarrow> bool" where
  "silent s s' \<longleftrightarrow> trace s' = trace s"

definition extends :: "world \<Rightarrow> world \<Rightarrow> bool" where
  "extends s s' \<longleftrightarrow> prefix (trace s) (trace s')"

interpretation silent: step_order silent
  by unfold_locales (auto simp: silent_def)

interpretation extends: step_order extends
  by unfold_locales (auto simp: extends_def)

lemma silent_extends: "stable silent m \<Longrightarrow> stable extends m"
  by (simp add: stable_def silent_def extends_def)

lemma extends_send [stable_intros]: "stable extends (send E w)"
  by (simp add: stable_def extends_def send_trace)

lemma silent_tick [stable_intros]: "stable silent (tick clock)"
  by (simp add: stable_def silent_def tick_def)

lemma silent_draw [stable_intros]: "stable silent (draw E)"
  by (simp add: stable_def silent_def draw_def)

lemma silent_cache [stable_intros]: "stable silent (cache_session d)"
  by (simp add: stable_def silent_def cache_session_def act_simps)

lemma silent_store_get [stable_intros]: "stable silent (store_get E sid)"
  unfolding store_get_def
  by (intro silent.stable_andthen silent_tick) (simp add: stable_def silent_def split: prod.split)

lemma silent_store_set [stable_intros]: "stable silent (store_set E sid d)"
  unfolding store_set_def
  by (intro silent.stable_andthen silent_tick silent.stable_updating) (simp add: silent_def)

lemma silent_store_delete [stable_intros]: "stable silent (store_delete sid)"
  unfolding store_delete_def by (rule silent.stable_updating) (simp add: silent_def)

lemma silent_load [stable_intros]: "stable silent (load E)"
proof -
  have "stable silent (andthen (store_get E sid) (\<lambda>d. andthen (cache_session d) (\<lambda>_. ret d)))" for sid
    by (intro silent.stable_combinators stable_intros)
  moreover have "stable silent (andthen (cache_session None) (\<lambda>_. ret None))"
    by (intro silent.stable_combinators stable_intros)
  ultimately show ?thesis
    by (auto simp: stable_def load_def silent_def act_simps split: option.splits)
qed

lemma with_lock_trace:
  "\<exists>s0 s1 r. trace s0 = trace s \<and> m s0 = (r, s1) \<and> with_lock sid m s = (r, s1\<lparr>store := store (snd (with_lock sid m s))\<rparr>)"
proof -
  obtain l st where l: "mem_lock sid (store s) = (l, st)" by (cases "mem_lock sid (store s)")
  let ?s0 = "s\<lparr>store := st\<lparr>mheld := l # mheld st\<rparr>\<rparr>"
  obtain r s1 where m: "m ?s0 = (r, s1)" by (cases "m ?s0")
  have "trace ?s0 = trace s" by simp
  moreover have "with_lock sid m s = (r, s1\<lparr>store := mem_release l (store s1)\<rparr>)"
    by (simp add: with_lock_def l m)
  ultimately show ?thesis using m by (intro exI [of _ ?s0] exI [of _ s1] exI [of _ r]) simp
qed

lemma silent_with_lock [stable_intros]: "stable silent m \<Longrightarrow> stable silent (with_lock sid m)"
  unfolding stable_def silent_def
proof
  fix s assume m: "\<forall>s. trace (snd (m s)) = trace s"
  obtain s0 s1 r where s: "trace s0 = trace s" "m s0 = (r, s1)"
    and w: "with_lock sid m s = (r, s1\<lparr>store := store (snd (with_lock sid m s))\<rparr>)"
    using with_lock_trace by blast
  have "trace s1 = trace s" using m s by (metis snd_conv)
  then show "trace (snd (with_lock sid m s)) = trace s" by (subst w) simp
qed

lemma extends_with_lock [stable_intros]: "stable extends m \<Longrightarrow> stable extends (with_lock sid m)"
  unfolding stable_def extends_def
proof
  fix s assume m: "\<forall>s. prefix (trace s) (trace (snd (m s)))"
  obtain s0 s1 r where s: "trace s0 = trace s" "m s0 = (r, s1)"
    and w: "with_lock sid m s = (r, s1\<lparr>store := store (snd (with_lock sid m s))\<rparr>)"
    using with_lock_trace by blast
  have "prefix (trace s) (trace s1)" using m s by (metis snd_conv)
  then show "prefix (trace s) (trace (snd (with_lock sid m s)))" by (subst w) simp
qed

lemma silent_establish [stable_intros]: "stable silent (establish E d)"
  unfolding establish_def
  by (intro silent.stable_combinators stable_intros silent.stable_updating)
    (auto simp: silent_def silent_store_delete silent.stable_ret split: option.split)

lemma silent_destroy [stable_intros]: "stable silent destroy"
  unfolding destroy_def
  by (intro silent.stable_combinators stable_intros silent.stable_updating)
    (auto simp: silent_def silent_store_delete silent.stable_ret split: option.split)

text \<open>At most \<open>n\<close> outbound requests.\<close>

definition sends :: "nat \<Rightarrow> (world, 'a) act \<Rightarrow> bool" where
  "sends n m \<longleftrightarrow> (\<forall>s. length (trace (snd (m s))) \<le> length (trace s) + n)"

lemma sendsD: "sends n m \<Longrightarrow> m s = (r, s') \<Longrightarrow> length (trace s') \<le> length (trace s) + n"
  unfolding sends_def by (metis snd_conv)

lemma sends_silent: "stable silent m \<Longrightarrow> sends 0 m"
  by (simp add: sends_def stable_def silent_def)

lemma sends_mono: "sends n m \<Longrightarrow> n \<le> k \<Longrightarrow> sends k m"
  unfolding sends_def by (meson add_left_mono le_trans)

lemma sends_send: "sends 1 (send E w)"
  by (simp add: sends_def send_trace)

lemma sends_andthen:
  assumes "sends a m" and "\<And>x. sends b (k x)" and "a + b \<le> n" shows "sends n (andthen m k)"
  unfolding sends_def
proof
  fix s
  obtain r s' where m: "m s = (r, s')" by (cases "m s")
  have "length (trace s') \<le> length (trace s) + a" using assms(1) m by (rule sendsD)
  moreover have 2: "length (trace (snd (k x s'))) \<le> length (trace s') + b" for x
    using assms(2) by (simp add: sends_def)
  ultimately show "length (trace (snd (andthen m k s))) \<le> length (trace s) + n"
  proof (cases r)
    case (Inr x)
    then show ?thesis using \<open>length (trace s') \<le> length (trace s) + a\<close> 2 [of x] assms(3) m
      by (simp add: act_simps)
  qed (use assms(3) m in \<open>simp add: act_simps\<close>)
qed

lemma sends_catch:
  assumes "sends a m" and "\<And>e. sends b (h e)" and "a + b \<le> n" shows "sends n (catch m h)"
  unfolding sends_def
proof
  fix s
  obtain r s' where m: "m s = (r, s')" by (cases "m s")
  have 1: "length (trace s') \<le> length (trace s) + a" using assms(1) m by (rule sendsD)
  have 2: "length (trace (snd (h e s'))) \<le> length (trace s') + b" for e
    using assms(2) by (simp add: sends_def)
  show "length (trace (snd (catch m h s))) \<le> length (trace s) + n"
  proof (cases r)
    case (Inl e)
    then show ?thesis using assms(3) m 1 2 [of e] by (simp add: act_simps)
  next
    case (Inr x)
    then show ?thesis using assms(3) m 1 by (simp add: act_simps)
  qed
qed

lemma sends_if: "sends n a \<Longrightarrow> sends n b \<Longrightarrow> sends n (if c then a else b)"
  by simp

section \<open>Login and logout\<close>

text \<open>What is stored after \<open>establish\<close>, with the two clock readings it makes.\<close>

lemma establish_run:
  "establish E data s =
     (let sid = random_token E (draws s);
          st = (case current_sid s of None \<Rightarrow> store s | Some old \<Rightarrow> mem_delete old (store s))
      in (Inr sid, s\<lparr>ticks := ticks s + 2, draws := Suc (draws s),
            store := mem_set sid data (monotonic E (ticks s)) (monotonic E (Suc (ticks s))) st,
            cookie := [(cookie_sid_key, JStr sid)], cached := Some (Some data)\<rparr>))"
  by (simp add: establish_def act_simps draw_def store_set_def store_delete_def tick_def cache_session_def
      Let_def split: option.split)

lemma destroy_run:
  "destroy s = (Inr (), s\<lparr>store := (case current_sid s of None \<Rightarrow> store s | Some sid \<Rightarrow> mem_delete sid (store s)),
     cookie := [], cached := Some None\<rparr>)"
  by (simp add: destroy_def act_simps store_delete_def cache_session_def split: option.split)

text \<open>The monotonic clock does not run backwards.\<close>

definition clock_ok :: "env \<Rightarrow> bool" where
  "clock_ok E \<longleftrightarrow> (\<forall>i j. i \<le> j \<longrightarrow> monotonic E i \<le> monotonic E j)"

text \<open>Establishing a session answers fixation: the cookie carries a newly drawn id and nothing
  else, that id reads as the new session until it expires, the id the browser arrived with is
  gone from the store, and no other session is touched.\<close>

theorem establish_fresh:
  assumes "mem_ok (store s)" and "establish E data s = (Inr sid, s')"
    and "clock_ok E" and "monotonic E (Suc (ticks s)) \<le> t"
  shows "sid = random_token E (draws s) \<and> cookie s' = [(cookie_sid_key, JStr sid)]
    \<and> mem_view (store s') t sid =
        (if monotonic E (Suc (ticks s)) + of_int (mttl (store s)) \<le> t then None else Some data)
    \<and> (\<forall>old. current_sid s = Some old \<and> old \<noteq> sid \<longrightarrow> mem_view (store s') t old = None)
    \<and> (\<forall>i. i \<noteq> sid \<and> current_sid s \<noteq> Some i \<longrightarrow> mem_view (store s') t i = mem_view (store s) t i)"
proof -
  have mono: "monotonic E (ticks s) \<le> monotonic E (Suc (ticks s))"
    using assms(3) by (simp add: clock_ok_def)
  define st where "st = (case current_sid s of None \<Rightarrow> store s | Some old \<Rightarrow> mem_delete old (store s))"
  have st: "mem_ok st" "mttl st = mttl (store s)"
    using assms(1) by (auto simp: st_def mem_delete_ok split: option.split)
  have view: "mem_view st t i = (if current_sid s = Some i then None else mem_view (store s) t i)" for i
    by (auto simp: st_def mem_delete_view split: option.split)
  have run: "sid = random_token E (draws s)" "cookie s' = [(cookie_sid_key, JStr sid)]"
    "store s' = mem_set sid data (monotonic E (ticks s)) (monotonic E (Suc (ticks s))) st"
    using assms(2) by (auto simp: establish_run Let_def st_def)
  show ?thesis
    unfolding run(3) mem_set_view [OF st(1) mono assms(4)] view st(2) using run(1,2) by auto
qed

text \<open>Destroying a session ends it in the store and in the browser: the cookie is empty, the
  id no longer reads as a session at any time, and no other session is touched.\<close>

theorem destroy_ends_session:
  "\<exists>s'. destroy s = (Inr (), s') \<and> cookie s' = [] \<and> current_sid s' = None \<and> cached s' = Some None
    \<and> (\<forall>t i. mem_view (store s') t i = (if current_sid s = Some i then None else mem_view (store s) t i))"
  by (auto simp: destroy_run current_sid_def mem_delete_view cookie_sid_key_def split: option.split)

lemma load_cached: "cached s = Some d \<Longrightarrow> load E s = (Inr d, s)"
  by (simp add: load_def act_simps)

text \<open>Loading never fails, leaves the cookie and the outbound trace alone and fills the cache.\<close>

lemma load_run:
  "\<exists>d tk st. load E s = (Inr d, s\<lparr>ticks := tk, store := st, cached := Some d\<rparr>)"
proof (cases "cached s")
  case (Some d)
  then show ?thesis by (intro exI [of _ d] exI [of _ "ticks s"] exI [of _ "store s"]) (simp add: load_def act_simps)
next
  case None
  show ?thesis
  proof (cases "current_sid s")
    case None
    then show ?thesis using \<open>cached s = None\<close>
      by (intro exI [of _ None] exI [of _ "ticks s"] exI [of _ "store s"])
        (simp add: load_def act_simps cache_session_def)
  next
    case (Some sid)
    then show ?thesis using \<open>cached s = None\<close>
      by (cases "mem_get sid (monotonic E (ticks s)) (store s)")
        (auto simp: load_def act_simps cache_session_def store_get_def tick_def)
  qed
qed

section \<open>A concrete deployment\<close>

text \<open>Used where a property is applied to a concrete input.\<close>

definition demo_settings :: settings where
  "demo_settings = \<lparr>gateway_url = ''http://gw'', gateway_api_prefix = ''/v1'', gateway_token = ''admin-key'',
     ui_admin_password = ''adm'', ui_viewer_password = ''view'', session_secret = ''sss'',
     prometheus_url = '''', loki_url = '''', grafana_url = '''', session_redis_url = '''',
     session_ttl_seconds = 100, cors_origins = [], cookie_secure = False, cookie_domain = '''',
     login_max_failures = 2, login_window_seconds = 60, trusted_proxy_cidrs = [],
     oidc_enabled = True, oidc_issuer = ''https://idp'', oidc_client_id = ''ui'', oidc_client_secret = '''',
     oidc_allow_plaintext_issuer = False, oidc_redirect_url = ''https://ui/cb'', oidc_scopes = ''openid'',
     oidc_post_login_redirect = ''/'', oidc_post_logout_redirect = '''', tenant_id = ''t1'',
     public_gateway_url = '''', public_catalog_url = '''', provider_oidc_enabled = False,
     provider_oidc_issuer = '''', provider_oidc_client_id = '''', provider_oidc_client_secret = '''',
     provider_oidc_redirect_url = '''', provider_oidc_scopes = '''', provider_group_scopes = [],
     provider_groups_claim = ''groups'', provider_tenant_registry = '''', audit_path = ''log'',
     audit_tenant = ''t1'', audit_content_key = '''', audit_pseudonym_key = '''',
     catalog_service_url = '''', catalog_api_token = ''''\<rparr>"

definition demo_view :: oidc_view where
  "demo_view = \<lparr>ov_issuer = ''https://idp'', ov_client_id = ''ui'', ov_client_secret = '''',
     ov_redirect_url = ''https://ui/cb'', ov_scopes = ''openid'', ov_allow_plaintext = False\<rparr>"

definition demo_env :: "(wire list \<Rightarrow> wire \<Rightarrow> string + response) \<Rightarrow> env" where
  "demo_env net = \<lparr>cfg = demo_settings,
     own_gateway = \<lparr>gc_prefix = ''/v1'', gc_base_url = ''http://gw'', gc_headers = [(''Authorization'', ''Bearer admin-key'')]\<rparr>,
     trusted_nets = [], monotonic = of_nat, wall_clock = of_nat, iso_now = (\<lambda>n. ''now''),
     file_stamp = (\<lambda>n. ''20260101T000000Z''),
     random_token = (\<lambda>n. ''tok'' @ replicate n (CHR ''x'')), network = net, crypt = demo_crypto,
     jwt_decode = (\<lambda>n v meta t. Inr [(''sub'', JStr ''alice''), (''nonce'', JStr ''tokx'')]), jwt_alg = (\<lambda>t. ''RS256''),
     sha2 = (\<lambda>bits t. t @ t), token_file = Map.empty\<rparr>"

definition demo_world :: "dict \<Rightarrow> (string \<times> dict) list \<Rightarrow> world" where
  "demo_world ck sessions = \<lparr>ticks = 0, draws = 0, trace = [],
     store = (new_mem_store 100)\<lparr>mdata := map (\<lambda>(sid, d). (sid, 100, d)) sessions\<rparr>,
     throttle_state = new_throttle 2 60, audit = demo_log 0,
     sink = \<lparr>file_lines = [], writable = True, printed = []\<rparr>,
     oidc = Some \<lparr>oc_view = demo_view, oc_meta = None\<rparr>, provider_oidc = None,
     directory = \<lparr>td_configured = [], td_enrolled = [], td_failed = False\<rparr>,
     pool = \<lparr>gp_prefix = ''/v1'', gp_clients = []\<rparr>,
     catalog = \<lparr>cc_configured = False, cc_has_resolver = True, cc_attempted_at = 0, cc_tenant = ''t1'',
       cc_base_url = '''', cc_headers = []\<rparr>,
     cookie = ck, cached = None, rid = ''r1''\<rparr>"

definition answer :: "int \<Rightarrow> string \<Rightarrow> wire list \<Rightarrow> wire \<Rightarrow> string + response" where
  "answer status body tr w = Inr \<lparr>r_status = status, r_headers = [], r_text = body\<rparr>"

lemma demo_mem_ok: "distinct (map fst xs) \<Longrightarrow> mem_ok (store (demo_world ck xs))"
proof -
  have "map fst (map (\<lambda>(sid, d). (sid, y, d)) xs) = map fst xs" for y :: time
    by (induction xs) auto
  then show "distinct (map fst xs) \<Longrightarrow> mem_ok (store (demo_world ck xs))"
    unfolding mem_ok_def demo_world_def new_mem_store_def by (simp only: mem_store.simps world.simps) simp
qed

lemma demo_clock_ok: "clock_ok (demo_env net)"
  by (simp add: clock_ok_def demo_env_def)

theorem establish_fresh_witness:
  "let s = demo_world [(''sid'', JStr ''old'')] [(''old'', [(''kind'', JStr ''password'')])];
       s' = snd (establish (demo_env (answer 200 ''{}'')) [(''kind'', JStr ''oidc'')] s)
   in cookie s' = [(''sid'', JStr ''tok'')] \<and> mem_view (store s') 5 ''old'' = None
      \<and> mem_view (store s') 5 ''tok'' = Some [(''kind'', JStr ''oidc'')]"
proof -
  let ?E = "demo_env (answer 200 ''{}'')"
  let ?s = "demo_world [(''sid'', JStr ''old'')] [(''old'', [(''kind'', JStr ''password'')])]"
  obtain sid s' where run: "establish ?E [(''kind'', JStr ''oidc'')] ?s = (Inr sid, s')"
    by (simp add: establish_run Let_def)
  have tok: "random_token ?E (draws ?s) = ''tok''" and cur: "current_sid ?s = Some ''old''"
    and t: "monotonic ?E (Suc (ticks ?s)) = 1" and ttl: "mttl (store ?s) = 100"
    by (simp_all add: demo_env_def demo_world_def current_sid_def cookie_sid_key_def new_mem_store_def)
  have "mem_ok (store ?s)" by (rule demo_mem_ok) simp
  then show ?thesis
    using establish_fresh [OF _ run demo_clock_ok, of 5] tok cur t ttl run
    by (auto simp: cookie_sid_key_def)
qed

end
