(* ===== verification/Gateway_Client.thy ===== *)
theory Gateway_Client
  imports World
begin

text \<open>
  The client to a gateway (\<open>app/gateway_client.py\<close>): the version prefix, the one place where the
  credential is attached, and the two calls. A bearer is the JSON value the session holds, so
  that \<open>None\<close> and other falsy values fall back to the client's own header as in the code.

  Results: every request leaves under the prefix and carries at most one \<open>Authorization\<close>
  value, the one chosen by the bearer argument, whatever headers the caller passes.
\<close>

definition strip_slashes :: "string \<Rightarrow> string" where
  "strip_slashes s = rstrip_by (\<lambda>c. c = CHR ''/'') (lstrip_by (\<lambda>c. c = CHR ''/'') s)"

definition new_gateway_client :: "string \<Rightarrow> string \<Rightarrow> string \<Rightarrow> gateway_client" where
  "new_gateway_client url token api_prefix =
     \<lparr>gc_prefix = (if strip_slashes api_prefix = [] then '''' else ''/'' @ strip_slashes api_prefix),
      gc_base_url = url,
      gc_headers = (if token = [] then [] else [(''Authorization'', ''Bearer '' @ token)])\<rparr>"

definition with_prefix :: "gateway_client \<Rightarrow> string \<Rightarrow> string" where
  "with_prefix gc path = gc_prefix gc @ ''/'' @ lstrip_by (\<lambda>c. c = CHR ''/'') path"

definition auth_header :: "json \<Rightarrow> headers" where
  "auth_header bearer = (if truthy bearer then [(''Authorization'', ''Bearer '' @ py_str bearer)] else [])"

definition merged_headers :: "headers \<Rightarrow> json \<Rightarrow> headers" where
  "merged_headers hs bearer =
     filter (\<lambda>(k, v). py_lower k \<noteq> ''authorization'') hs @ auth_header bearer"

definition gateway_wire :: "gateway_client \<Rightarrow> string \<Rightarrow> string \<Rightarrow> json option \<Rightarrow> headers \<Rightarrow> wire" where
  "gateway_wire gc meth path body hs =
     \<lparr>w_method = meth, w_url = join_url (gc_base_url gc) (with_prefix gc path),
      w_headers = headers_update (gc_headers gc) hs, w_json = body, w_form = [], w_basic = None\<rparr>"

text \<open>Sending runs the request hooks, which are the correlation hook alone.\<close>

definition send_hooked :: "env \<Rightarrow> wire \<Rightarrow> (world, response) act" where
  "send_hooked E w s = send E (run_request_hooks (with_correlation_hook []) (rid s) w) s"

definition gateway_request ::
  "env \<Rightarrow> gateway_client \<Rightarrow> string \<Rightarrow> string \<Rightarrow> json option \<Rightarrow> json \<Rightarrow> headers \<Rightarrow> (world, response) act" where
  "gateway_request E gc meth path body bearer hs =
     send_hooked E (gateway_wire gc meth path body (merged_headers hs bearer))"

definition gateway_get :: "env \<Rightarrow> gateway_client \<Rightarrow> string \<Rightarrow> json \<Rightarrow> (world, response) act" where
  "gateway_get E gc path bearer =
     send_hooked E (gateway_wire gc ''GET'' path None (auth_header bearer))"

section \<open>What goes on the wire\<close>

lemma same_header_authorization: "same_header n ''authorization'' \<longleftrightarrow> py_lower n = ''authorization''"
proof -
  have "py_lower ''authorization'' = ''authorization''" by code_simp
  then show ?thesis by (simp add: same_header_def)
qed

lemma auth_header_values:
  "header_values (auth_header b) ''authorization'' = (if truthy b then [''Bearer '' @ py_str b] else [])"
proof -
  have "py_lower ''Authorization'' = ''authorization''" by code_simp
  then show ?thesis by (simp add: auth_header_def same_header_authorization)
qed

lemma merged_headers_values:
  "header_values (merged_headers hs b) ''authorization'' = (if truthy b then [''Bearer '' @ py_str b] else [])"
proof -
  have "header_values (filter (\<lambda>(k, v). py_lower k \<noteq> ''authorization'') hs) ''authorization'' = []"
    by (auto simp: header_values_none same_header_authorization)
  then show ?thesis by (simp add: merged_headers_def auth_header_values)
qed

lemma stamp_keeps_authorization:
  "header_values (w_headers (stamp_correlation ctx w)) ''authorization'' = header_values (w_headers w) ''authorization''"
proof -
  have "\<not> same_header correlation_header ''authorization''" by code_simp
  then show ?thesis by (simp add: stamp_values)
qed

lemma send_hooked_stamp: "send_hooked E w s = send E (stamp_correlation (rid s) w) s"
  by (simp add: send_hooked_def run_with_correlation) (simp add: run_request_hooks_def)

lemma send_hooked_trace: "trace (snd (send_hooked E w s)) = trace s @ [stamp_correlation (rid s) w]"
  by (simp add: send_hooked_stamp send_trace)

lemma extends_send_hooked [stable_intros]: "stable extends (send_hooked E w)"
  by (simp add: stable_def extends_def send_hooked_trace)

lemma extends_gateway_request [stable_intros]: "stable extends (gateway_request E gc m p b t hs)"
  unfolding gateway_request_def by (rule extends_send_hooked)

lemma extends_gateway_get [stable_intros]: "stable extends (gateway_get E gc p t)"
  unfolding gateway_get_def by (rule extends_send_hooked)

text \<open>A gateway request leaves under the client's prefix with one \<open>Authorization\<close> value at
  most: the bearer's when there is one, else the client's own. The headers of the caller never
  change it, however they spell the name, nor the correlation id when one is in scope.\<close>

theorem gateway_request_wire:
  "\<exists>w. trace (snd (gateway_request E (new_gateway_client url token api_prefix) meth path body bearer hs s)) = trace s @ [w]
    \<and> w_method w = meth \<and> w_json w = body
    \<and> w_url w = join_url url (with_prefix (new_gateway_client url token api_prefix) path)
    \<and> header_values (w_headers w) ''authorization'' =
        (if truthy bearer then [''Bearer '' @ py_str bearer]
         else if token \<noteq> [] then [''Bearer '' @ token] else [])
    \<and> header_values (w_headers w) correlation_header =
        (if current_request_id (rid s) \<noteq> [] then [current_request_id (rid s)]
         else header_values (merged_headers hs bearer) correlation_header)"
proof -
  let ?gc = "new_gateway_client url token api_prefix"
  let ?w = "gateway_wire ?gc meth path body (merged_headers hs bearer)"
  have low: "py_lower ''Authorization'' = ''authorization''" by code_simp
  have own: "header_values (gc_headers ?gc) ''authorization'' = (if token = [] then [] else [''Bearer '' @ token])"
    by (simp add: new_gateway_client_def same_header_authorization low)
  have "header_values (w_headers ?w) ''authorization'' =
      (if truthy bearer then [''Bearer '' @ py_str bearer]
       else if token \<noteq> [] then [''Bearer '' @ token] else [])"
    by (simp add: gateway_wire_def header_values_update merged_headers_values own)
  moreover have "header_values (w_headers ?w) correlation_header = header_values (merged_headers hs bearer) correlation_header"
  proof -
    have "\<not> same_header ''Authorization'' correlation_header" by code_simp
    then show ?thesis by (simp add: gateway_wire_def header_values_update new_gateway_client_def)
  qed
  ultimately show ?thesis
    by (intro exI [of _ "stamp_correlation (rid s) ?w"])
      (simp add: gateway_request_def send_hooked_trace stamp_keeps_authorization,
        simp add: gateway_wire_def new_gateway_client_def stamp_values same_header_def)
qed

lemma gateway_request_example:
  "w_headers (last (trace (snd (gateway_request (demo_env (answer 200 ''{}'')) (new_gateway_client ''http://gw'' ''key'' ''/v1/'')
      ''POST'' ''/devices'' None JNull [(''AUTHORIZATION'', ''Bearer mine'')] (demo_world [] [])))))
    = [(''Authorization'', ''Bearer key''), (''X-Request-Id'', ''r1'')]"
  by code_simp

end
