(* ===== verification/Security.thy ===== *)
theory Security
  imports Gateway_Client
begin

text \<open>
  Sessions, planes and authorization (\<open>app/security.py\<close>), and the audit hook of a request
  (\<open>record_request\<close> of \<open>app/audit.py\<close>), which needs the session.

  A session is the dict of the store; scope sets are lists. The dependencies \<open>require_role\<close>
  and \<open>require_provider_scope\<close> are actions that return the session or raise. Results: who is
  let through on which plane, what a provider group can grant, and which credential a request
  may present to a gateway; among them the case in which a federated session without an
  access token falls back to the deployment's own credential.
\<close>

section \<open>Planes and scopes\<close>

definition plane_tenant :: string where
  "plane_tenant = ''tenant''"

definition plane_provider :: string where
  "plane_provider = ''provider''"

definition scope_provider_monitor :: string where
  "scope_provider_monitor = ''provider:monitor''"

definition scope_provider_admin :: string where
  "scope_provider_admin = ''provider:admin''"

definition provider_scope_vocabulary :: "string list" where
  "provider_scope_vocabulary = [scope_provider_monitor, scope_provider_admin]"

definition monitor_requestable_scopes :: "string list" where
  "monitor_requestable_scopes = [''devices:read'', ''metrics:read'']"

text \<open>The elements Python iterates over in a JSON value.\<close>

fun json_items :: "json \<Rightarrow> json list" where
  "json_items (JList xs) = xs"
| "json_items (JStr s) = map (\<lambda>c. JStr [c]) s"
| "json_items (JObj d) = map (\<lambda>(k, v). JStr k) d"
| "json_items _ = []"

definition requestable_scopes_for :: "json \<Rightarrow> string list option" where
  "requestable_scopes_for provider_scopes =
     (if JStr scope_provider_admin \<in> set (json_items provider_scopes) then None
      else Some monitor_requestable_scopes)"

text \<open>The loop over the groups; the set is a list in order of first insertion.\<close>

definition outside_vocabulary :: "string \<Rightarrow> string \<Rightarrow> string" where
  "outside_vocabulary grp scope =
     ''provider group '' @ repr_str grp @ '' maps to '' @ repr_str scope @ '', which is not one of ''
     @ py_repr (JList [JStr scope_provider_admin, JStr scope_provider_monitor])
     @ '' - provider mappings may only grant provider scopes''"

fun scopes_of_groups :: "(string \<times> string) list \<Rightarrow> json list \<Rightarrow> string list \<Rightarrow> exc + string list" where
  "scopes_of_groups m [] out = Inr out"
| "scopes_of_groups m (g # gs) out =
     (case g of
        JStr name \<Rightarrow>
          (case map_of m name of
             None \<Rightarrow> scopes_of_groups m gs out
           | Some scope \<Rightarrow>
               (if scope \<notin> set provider_scope_vocabulary
                then Inl (ValueError (outside_vocabulary name scope))
                else scopes_of_groups m gs (if scope \<in> set out then out else out @ [scope])))
      | JList _ \<Rightarrow> Inl (PyError ''unhashable type'')
      | JObj _ \<Rightarrow> Inl (PyError ''unhashable type'')
      | _ \<Rightarrow> scopes_of_groups m gs out)"

definition provider_scopes_for_groups :: "json \<Rightarrow> (string \<times> string) list \<Rightarrow> exc + string list" where
  "provider_scopes_for_groups groups mapping = scopes_of_groups mapping (json_items groups) []"

definition get_or :: "dict option \<Rightarrow> string \<Rightarrow> json" where
  "get_or session k = (case session of None \<Rightarrow> JNull | Some d \<Rightarrow> dict_get d k)"

definition session_identity :: "dict option \<Rightarrow> string" where
  "session_identity session =
     py_str (py_or (get_or session ''plane'') (JStr plane_tenant)) @ '':''
     @ py_str (py_or (get_or session ''sub'') (py_or (get_or session ''role'') (JStr ''unknown'')))"

definition session_plane :: "dict option \<Rightarrow> string" where
  "session_plane session =
     (if get_or session ''plane'' = JStr plane_provider then plane_provider else plane_tenant)"

definition password_role_scopes :: "(string \<times> string list) list" where
  "password_role_scopes =
     [(''admin'', [''devices:read'', ''devices:write'', ''metrics:read'', ''tools:call'', ''support:administer'']),
      (''viewer'', [''devices:read'', ''metrics:read''])]"

section \<open>Passwords\<close>

text \<open>\<open>compare_digest\<close> raises on text outside ASCII.\<close>

definition is_ascii :: "string \<Rightarrow> bool" where
  "is_ascii s = list_all (\<lambda>c. code c < 128) s"

definition compare_digest :: "string \<Rightarrow> string \<Rightarrow> exc + bool" where
  "compare_digest a b =
     (if is_ascii a \<and> is_ascii b then Inr (a = b)
      else Inl (PyError ''comparing strings with non-ASCII characters is not supported''))"

definition resolve_role :: "settings \<Rightarrow> string \<Rightarrow> exc + string option" where
  "resolve_role s password =
     bind_result (if ui_admin_password s = [] then Inr False else compare_digest password (ui_admin_password s)) (\<lambda>admin.
       if admin then Inr (Some ''admin'')
       else bind_result (if ui_viewer_password s = [] then Inr False else compare_digest password (ui_viewer_password s)) (\<lambda>viewer.
         Inr (if viewer then Some ''viewer'' else None)))"

section \<open>The session of a request\<close>

definition known_kinds :: "json list" where
  "known_kinds = [JStr ''password'', JStr ''oidc'']"

definition current_session :: "env \<Rightarrow> (world, dict option) act" where
  "current_session E =
     andthen (load E) (\<lambda>data.
       ret (case data of None \<Rightarrow> None
            | Some d \<Rightarrow> (if dict_get d ''kind'' \<in> set known_kinds then Some d else None)))"

definition current_role :: "env \<Rightarrow> (world, json) act" where
  "current_role E =
     andthen (current_session E) (\<lambda>sess.
       ret (if get_or sess ''kind'' = JStr ''password'' then get_or sess ''role'' else JNull))"

definition persist_session :: "env \<Rightarrow> dict \<Rightarrow> (world, unit) act" where
  "persist_session E session =
     andthen (reading current_sid) (\<lambda>sid.
       case sid of
         None \<Rightarrow> ret ()
       | Some i \<Rightarrow>
           andthen (with_lock i (store_set E i session)) (\<lambda>_. cache_session (Some session)))"

definition forbidden :: "string \<Rightarrow> exc" where
  "forbidden detail = HTTPException 403 (JStr detail) []"

definition break_glass_detail :: string where
  "break_glass_detail = ''The local break-glass login cannot export or restore backups: it proxies with ''
     @ ''the stack's admin token, so the request would carry every credential scope with ''
     @ ''no step-up behind it. Sign in through the IdP.''"

definition no_credential_detail :: string where
  "no_credential_detail = ''A provider session has no delegated support grant to present to this ''
     @ ''tenant's gateway (ADR-0017 '' @ [CHR 0xA7] @ ''7). It is never relayed with the stack's admin key.''"

definition no_grant_detail :: string where
  "no_grant_detail = ''This provider session holds no delegated support grant for this tenant's ''
     @ ''gateway. Raise a support request and wait for the tenant to approve it ''
     @ ''(ADR-0017 '' @ [CHR 0xA7] @ ''7).''"

definition not_authenticated :: exc where
  "not_authenticated = HTTPException 401 (JStr ''Not authenticated'') []"

definition deny_password_session :: "env \<Rightarrow> (world, unit) act" where
  "deny_password_session E =
     andthen (current_session E) (\<lambda>sess.
       if get_or sess ''kind'' = JStr ''password''
       then throw (forbidden break_glass_detail)
       else ret ())"

definition support_grant_credential :: "dict option \<Rightarrow> string option" where
  "support_grant_credential session =
     (case as_dict (get_or session ''support_grant'') of
        None \<Rightarrow> None
      | Some grant \<Rightarrow> (case dict_get grant ''credential'' of JStr (x # xs) \<Rightarrow> Some (x # xs) | _ \<Rightarrow> None))"

definition upstream_bearer :: "env \<Rightarrow> (world, json) act" where
  "upstream_bearer E =
     andthen (current_session E) (\<lambda>sess.
       if session_plane sess = plane_provider then
         (case support_grant_credential sess of
            None \<Rightarrow> throw (forbidden no_credential_detail)
          | Some credential \<Rightarrow> ret (JStr credential))
       else if get_or sess ''kind'' = JStr ''oidc'' then ret (get_or sess ''access_token'')
       else ret JNull)"

definition require_role :: "env \<Rightarrow> string list \<Rightarrow> (world, dict) act" where
  "require_role E allowed =
     andthen (current_session E) (\<lambda>sess.
       case sess of
         None \<Rightarrow> throw not_authenticated
       | Some d \<Rightarrow>
           (if session_plane sess = plane_provider then
              (if support_grant_credential sess = None
               then throw (forbidden no_grant_detail)
               else ret d)
            else if dict_get d ''kind'' = JStr ''oidc'' then ret d
            else if allowed \<noteq> [] \<and> dict_get d ''role'' \<notin> set (map JStr allowed)
              then throw (forbidden ''Forbidden'')
            else ret d))"

definition require_provider_scope :: "env \<Rightarrow> string list \<Rightarrow> (world, dict) act" where
  "require_provider_scope E required =
     andthen (current_session E) (\<lambda>sess.
       case sess of
         None \<Rightarrow> throw not_authenticated
       | Some d \<Rightarrow>
           (if session_plane sess \<noteq> plane_provider then throw (forbidden ''Not a provider-plane session'')
            else if required \<noteq> [] \<and>
                \<not> list_ex (\<lambda>r. JStr r \<in> set (json_items (dict_get d ''provider_scopes''))) required
              then throw (forbidden ''Forbidden'')
            else ret d))"

section \<open>Auditing a request\<close>

text \<open>Failures inside the writer are printed and swallowed, so the action always returns.\<close>

definition record_request ::
  "env \<Rightarrow> http_request \<Rightarrow> string \<Rightarrow> string \<Rightarrow> string option \<Rightarrow> dict \<Rightarrow> (world, unit) act" where
  "record_request E q action outcome target detail =
     andthen (current_session E) (\<lambda>sess.
     andthen (tick (iso_now E)) (\<lambda>ts.
     andthen (draw E) (\<lambda>iv.
     updating (\<lambda>s.
       let in_scope = current_request_id (rid s);
           e = \<lparr>e_action = action, e_actor = fst (actor_from_session sess), e_actor_kind = snd (actor_from_session sess),
                e_outcome = outcome, e_tenant = None, e_target = target,
                e_rid = (if in_scope \<noteq> [] then Some in_scope else header_get (q_headers q) ''x-request-id''),
                e_detail = detail, e_ts = ts, e_iv = iv\<rparr>
       in (case record_entry (crypt E) e (audit s, sink s) of (_, l, k) \<Rightarrow> s\<lparr>audit := l, sink := k\<rparr>)))))"

section \<open>The session a request acts with\<close>

definition known_session :: "env \<Rightarrow> world \<Rightarrow> dict option" where
  "known_session E s = (case fst (current_session E s) of Inr d \<Rightarrow> d | Inl e \<Rightarrow> None)"

lemma current_session_run:
  obtains s' where "current_session E s = (Inr (known_session E s), s')"
    and "trace s' = trace s" and "cookie s' = cookie s" and "rid s' = rid s"
    and "current_session E s' = (Inr (known_session E s), s')"
proof -
  obtain d tk st where load: "load E s = (Inr d, s\<lparr>ticks := tk, store := st, cached := Some d\<rparr>)"
    using load_run by blast
  define s' where "s' = s\<lparr>ticks := tk, store := st, cached := Some d\<rparr>"
  have l: "load E s = (Inr d, s')" "cached s' = Some d" "cookie s' = cookie s" "trace s' = trace s" "rid s' = rid s"
    by (simp_all add: s'_def load)
  let ?r = "case d of None \<Rightarrow> None | Some x \<Rightarrow> if dict_get x ''kind'' \<in> set known_kinds then Some x else None"
  have c: "current_session E s = (Inr ?r, s')" by (simp add: current_session_def act_simps l)
  then have k: "known_session E s = ?r" by (simp add: known_session_def)
  have "current_session E s' = (Inr ?r, s')"
    using load_cached [OF l(2), of E] by (simp add: current_session_def act_simps)
  then show ?thesis using c k l that by simp
qed

lemma known_session_kind: "known_session E s = Some d \<Longrightarrow> dict_get d ''kind'' \<in> set known_kinds"
  by (auto simp: known_session_def current_session_def act_simps split: prod.splits sum.splits option.splits if_splits)

lemma silent_current_session [stable_intros]: "stable silent (current_session E)"
  unfolding current_session_def by (intro silent.stable_combinators stable_intros)

lemma silent_persist_session [stable_intros]: "stable silent (persist_session E d)"
proof -
  have "stable silent (case sid of None \<Rightarrow> ret () | Some i \<Rightarrow>
      andthen (with_lock i (store_set E i d)) (\<lambda>_. cache_session (Some d)))" for sid
    by (cases sid) (auto intro: silent.stable_combinators stable_intros)
  then show ?thesis unfolding persist_session_def by (intro silent.stable_combinators)
qed

lemma silent_deny_password_session [stable_intros]: "stable silent (deny_password_session E)"
  unfolding deny_password_session_def by (intro silent.stable_combinators stable_intros)

lemma silent_upstream_bearer [stable_intros]: "stable silent (upstream_bearer E)"
  unfolding upstream_bearer_def
  by (intro silent.stable_combinators stable_intros) (auto intro: silent.stable_combinators split: option.split)

lemma silent_require_role [stable_intros]: "stable silent (require_role E allowed)"
  unfolding require_role_def
  by (intro silent.stable_combinators stable_intros) (auto intro: silent.stable_combinators split: option.split)

lemma silent_require_provider_scope [stable_intros]: "stable silent (require_provider_scope E required)"
  unfolding require_provider_scope_def
  by (intro silent.stable_combinators stable_intros) (auto intro: silent.stable_combinators split: option.split)

lemma silent_record_request [stable_intros]: "stable silent (record_request E q a out t d)"
  unfolding record_request_def
  by (intro silent.stable_combinators stable_intros silent.stable_updating)
    (auto simp: silent_def Let_def split: prod.split)

section \<open>Who is admitted\<close>



lemma scopes_of_groups_sound:
  assumes "scopes_of_groups m gs out = Inr res" and "set out \<subseteq> set provider_scope_vocabulary" and "distinct out"
  shows "distinct res \<and> set res \<subseteq> set provider_scope_vocabulary
    \<and> set res = set out \<union> {sc. \<exists>g. JStr g \<in> set gs \<and> map_of m g = Some sc}"
  using assms
proof (induction gs arbitrary: out)
  case (Cons g gs)
  show ?case
  proof (cases g)
    case (JStr name)
    show ?thesis
    proof (cases "map_of m name")
      case None
      then show ?thesis using Cons JStr by auto
    next
      case (Some scope)
      let ?out = "if scope \<in> set out then out else out @ [scope]"
      have voc: "scope \<in> set provider_scope_vocabulary" using Cons.prems(1) JStr Some by (auto split: if_splits)
      then have "scopes_of_groups m gs ?out = Inr res" using Cons.prems(1) JStr Some by simp
      then have ih: "distinct res \<and> set res \<subseteq> set provider_scope_vocabulary
          \<and> set res = set ?out \<union> {sc. \<exists>g. JStr g \<in> set gs \<and> map_of m g = Some sc}"
        using Cons.prems voc by (intro Cons.IH) auto
      then have "set res = set ?out \<union> {sc. \<exists>g. JStr g \<in> set gs \<and> map_of m g = Some sc}" by blast
      moreover have "set ?out = insert scope (set out)" by auto
      moreover have "{sc. \<exists>x. JStr x \<in> set (g # gs) \<and> map_of m x = Some sc}
          = insert scope {sc. \<exists>x. JStr x \<in> set gs \<and> map_of m x = Some sc}"
        using JStr Some by auto
      ultimately have "set res = set out \<union> {sc. \<exists>x. JStr x \<in> set (g # gs) \<and> map_of m x = Some sc}" by simp
      then show ?thesis using ih by blast
    qed
  qed (use Cons in auto)
qed auto

text \<open>The scopes of a provider login are exactly the images of its asserted groups under the
  configured table, all of them provider scopes, each once: an unmapped group grants nothing,
  and a table entry outside the vocabulary that is asked for is an error.\<close>

theorem provider_scopes_sound:
  assumes "provider_scopes_for_groups groups mapping = Inr res"
  shows "distinct res \<and> set res \<subseteq> {scope_provider_monitor, scope_provider_admin}
    \<and> set res = {sc. \<exists>g. JStr g \<in> set (json_items groups) \<and> map_of mapping g = Some sc}"
  using scopes_of_groups_sound [of mapping "json_items groups" "[]" res] assms
  by (auto simp: provider_scopes_for_groups_def provider_scope_vocabulary_def)

theorem provider_scopes_sound_witness:
  "provider_scopes_for_groups (JList [JStr ''ops'', JStr ''other'']) [(''ops'', ''provider:admin'')] = Inr [''provider:admin'']
   \<and> {sc. \<exists>g. JStr g \<in> set (json_items (JList [JStr ''ops'', JStr ''other'']))
        \<and> map_of [(''ops'', ''provider:admin'')] g = Some sc} = {''provider:admin''}"
proof -
  have r: "provider_scopes_for_groups (JList [JStr ''ops'', JStr ''other'']) [(''ops'', ''provider:admin'')] = Inr [''provider:admin'']"
    by code_simp
  show ?thesis using provider_scopes_sound [OF r] r by simp
qed

section \<open>The credential a request presents\<close>

lemma support_grant_credential_nonempty: "support_grant_credential session = Some c \<Longrightarrow> c \<noteq> []"
  by (auto simp: support_grant_credential_def split: option.splits json.splits list.splits)

text \<open>C3. A relayed request falls back to the deployment's own gateway credential exactly when its
  session is on the tenant plane and is a password session (or none), or a federated one whose
  access token is missing or empty. A provider session never does: it presents the credential
  of its support grant or is refused.\<close>

theorem own_credential_iff:
  "(\<exists>b s'. upstream_bearer E s = (Inr b, s') \<and> \<not> truthy b) \<longleftrightarrow>
     session_plane (known_session E s) = plane_tenant
     \<and> (if get_or (known_session E s) ''kind'' = JStr ''oidc''
        then \<not> truthy (get_or (known_session E s) ''access_token'') else True)"
proof -
  obtain s1 where c: "current_session E s = (Inr (known_session E s), s1)" by (rule current_session_run)
  have "plane_tenant \<noteq> plane_provider" by (simp add: plane_tenant_def plane_provider_def)
  moreover have "session_plane (known_session E s) \<in> {plane_tenant, plane_provider}"
    by (simp add: session_plane_def)
  ultimately show ?thesis
    using support_grant_credential_nonempty [of "known_session E s"]
    by (auto simp: upstream_bearer_def act_simps c split: option.splits if_splits)
qed

text \<open>What a provider session puts on the wire of a gateway call is its support credential and
  nothing else, never the key of the gateway client.\<close>

theorem provider_relay_credential:
  assumes "session_plane (known_session E s) = plane_provider"
    and "upstream_bearer E s = (Inr b, s1)"
  shows "\<exists>c w. support_grant_credential (known_session E s) = Some c
    \<and> trace (snd (gateway_request E gc meth path body b hs s1)) = trace s @ [w]
    \<and> header_values (w_headers w) ''authorization'' = [''Bearer '' @ c]"
proof -
  obtain s2 where c: "current_session E s = (Inr (known_session E s), s2)" "trace s2 = trace s"
    by (rule current_session_run)
  then obtain cr where cr: "support_grant_credential (known_session E s) = Some cr" "b = JStr cr" "s1 = s2"
    using assms by (auto simp: upstream_bearer_def act_simps split: option.splits)
  then have "cr \<noteq> []" using support_grant_credential_nonempty by blast
  then show ?thesis
    using cr c(2)
    by (simp add: gateway_request_def send_hooked_trace stamp_keeps_authorization gateway_wire_def
        header_values_update merged_headers_values)
qed

definition demo_provider_session :: dict where
  "demo_provider_session =
     [(''kind'', JStr ''oidc''), (''plane'', JStr ''provider''), (''sub'', JStr ''eng''),
      (''provider_scopes'', JList [JStr ''provider:admin'']),
      (''support_grant'', JObj [(''tenant_id'', JStr ''t1''), (''grant_id'', JStr ''g''), (''credential'', JStr ''cred'')])]"

definition demo_session_world :: "dict \<Rightarrow> world" where
  "demo_session_world d = demo_world [(''sid'', JStr ''x'')] [(''x'', d)]"

lemma demo_load: "load (demo_env net) (demo_session_world d) =
    (Inr (Some d), (demo_session_world d)\<lparr>ticks := 1, cached := Some (Some d)\<rparr>)"
  by (simp add: load_def demo_session_world_def demo_world_def current_sid_def cookie_sid_key_def store_get_def
      tick_def mem_get_def new_mem_store_def demo_env_def cache_session_def act_simps)

lemma demo_current_session:
  "dict_get d ''kind'' \<in> set known_kinds \<Longrightarrow>
     current_session (demo_env net) (demo_session_world d) =
       (Inr (Some d), (demo_session_world d)\<lparr>ticks := 1, cached := Some (Some d)\<rparr>)"
  by (simp add: current_session_def act_simps demo_load)

lemma demo_known_session:
  "dict_get d ''kind'' \<in> set known_kinds \<Longrightarrow> known_session (demo_env net) (demo_session_world d) = Some d"
  by (simp add: known_session_def demo_current_session)

theorem provider_relay_credential_witness:
  "\<exists>w. trace (snd (gateway_request (demo_env (answer 200 ''{}'')) (new_gateway_client ''http://gw'' ''admin-key'' ''/v1'')
      ''GET'' ''/devices'' None (JStr ''cred'') [] (snd (upstream_bearer (demo_env (answer 200 ''{}'')) (demo_session_world demo_provider_session))))) = [w]
    \<and> header_values (w_headers w) ''authorization'' = [''Bearer cred'']"
proof -
  let ?E = "demo_env (answer 200 ''{}'')" and ?s = "demo_session_world demo_provider_session"
  have kind: "dict_get demo_provider_session ''kind'' \<in> set known_kinds"
    by (simp add: demo_provider_session_def known_kinds_def)
  have k: "known_session ?E ?s = Some demo_provider_session" by (rule demo_known_session [OF kind])
  have plane: "session_plane (known_session ?E ?s) = plane_provider"
    and cr: "support_grant_credential (known_session ?E ?s) = Some ''cred''"
    unfolding k by (simp_all add: session_plane_def get_or_def demo_provider_session_def
        plane_provider_def support_grant_credential_def)
  then have b: "upstream_bearer ?E ?s = (Inr (JStr ''cred''), snd (upstream_bearer ?E ?s))"
    unfolding k by (simp add: upstream_bearer_def act_simps demo_current_session [OF kind])
  have "trace ?s = []" by (simp add: demo_session_world_def demo_world_def)
  then show ?thesis
    using provider_relay_credential [OF plane b, of "new_gateway_client ''http://gw'' ''admin-key'' ''/v1''" "''GET''" "''/devices''" None "[]"] cr
    by auto
qed

end
