(* ===== verification/Catalog_Client.thy ===== *)
theory Catalog_Client
  imports Gateway_Client
begin

text \<open>
  The client of the catalog service (\<open>app/catalog_client.py\<close>) and where a tenant console learns
  its configuration (\<open>app/catalog_enrolment.py\<close>).

  The client's state is \<open>catalog\<close> of the world: address and headers change when a
  configuration is learned. The resolver, when the deployment has one, asks the own gateway.
  An action holds the resolve lock only while it runs, so in a sequential handler the lock is
  free. Results: which errors can leave a call, how many requests one call can cause, and that
  every request to the catalog declares the tenant the deployment was configured with,
  whatever it learned.
\<close>

section \<open>Construction\<close>

definition tenant_header :: string where
  "tenant_header = ''X-Catalog-Tenant''"

definition misdelivery_codes :: "string list" where
  "misdelivery_codes = [''ERR_CREDENTIAL_MISDELIVERY'', ''ERR_TENANT_NOT_DECLARED'']"

definition resolve_cooldown :: time where
  "resolve_cooldown = 30"

definition new_catalog_client :: "settings \<Rightarrow> bool \<Rightarrow> catalog_client" where
  "new_catalog_client st resolver =
     (let declared = (if provider_oidc_enabled st then '''' else tenant_id st) in
      \<lparr>cc_configured = (catalog_service_url st \<noteq> [] \<and> catalog_api_token st \<noteq> []),
       cc_has_resolver = resolver, cc_attempted_at = 0, cc_tenant = declared,
       cc_base_url = (if catalog_service_url st \<noteq> [] then catalog_service_url st
                      else ''http://catalog-not-configured.invalid''),
       cc_headers =
         (if catalog_api_token st \<noteq> [] then [(''Authorization'', ''Bearer '' @ catalog_api_token st)] else [])
         @ (if declared \<noteq> [] then [(tenant_header, declared)] else [])\<rparr>)"

section \<open>Learning the configuration\<close>

definition catalog_configuration_path :: string where
  "catalog_configuration_path = ''/enrolments/catalog-configuration''"

definition resolve_from_gateway :: "env \<Rightarrow> (world, (string \<times> string) option) act" where
  "resolve_from_gateway E =
     andthen (gateway_get E (own_gateway E) catalog_configuration_path JNull) (\<lambda>resp.
       if r_status resp \<noteq> 200 then ret None
       else (case response_json resp of
               None \<Rightarrow> throw (ValueError ''response is not JSON'')
             | Some (JObj b) \<Rightarrow>
                 ret (Some (py_str (py_or (dict_get b ''catalog_url'') (JStr '''')),
                            py_str (py_or (dict_get b ''catalog_credential'') (JStr ''''))))
             | Some _ \<Rightarrow> throw (PyError ''no attribute get'')))"

definition adopt :: "string \<Rightarrow> string \<Rightarrow> catalog_client \<Rightarrow> catalog_client" where
  "adopt url credential c =
     c\<lparr>cc_base_url := url, cc_headers := header_set ''Authorization'' (''Bearer '' @ credential) (cc_headers c),
       cc_configured := True\<rparr>"

definition is_configured :: "(world, bool) act" where
  "is_configured = reading (\<lambda>s. cc_configured (catalog s))"

definition adopt_found :: "(string \<times> string) option \<Rightarrow> (world, bool) act" where
  "adopt_found found =
     (case found of
        None \<Rightarrow> is_configured
      | Some (url, credential) \<Rightarrow>
          (if url = [] \<or> credential = [] then is_configured
           else andthen (updating (\<lambda>s. s\<lparr>catalog := adopt url credential (catalog s)\<rparr>)) (\<lambda>_. ret True)))"

definition ask_resolver :: "env \<Rightarrow> time \<Rightarrow> (world, bool) act" where
  "ask_resolver E now =
     andthen (updating (\<lambda>s. s\<lparr>catalog := (catalog s)\<lparr>cc_attempted_at := now\<rparr>\<rparr>)) (\<lambda>_.
     andthen (catch (resolve_from_gateway E) (\<lambda>_. ret None)) adopt_found)"

definition catalog_resolve :: "env \<Rightarrow> bool \<Rightarrow> (world, bool) act" where
  "catalog_resolve E force =
     andthen (reading catalog) (\<lambda>c.
       if \<not> cc_has_resolver c then is_configured
       else if cc_configured c \<and> \<not> force then ret True
       else andthen (tick (monotonic E)) (\<lambda>now.
         if \<not> force \<and> now - cc_attempted_at c < resolve_cooldown then is_configured
         else ask_resolver E now))"

section \<open>A call\<close>

definition misdelivery_error_code :: "response \<Rightarrow> exc + string option" where
  "misdelivery_error_code resp =
     (if r_status resp \<noteq> 403 then Inr None
      else (case response_json resp of
              None \<Rightarrow> Inr None
            | Some (JObj b) \<Rightarrow>
                (case dict_get b ''detail'' of
                   JObj d \<Rightarrow>
                     (case dict_get d ''error_code'' of
                        JStr ec \<Rightarrow> Inr (if ec \<in> set misdelivery_codes then Some ec else None)
                      | _ \<Rightarrow> Inr None)
                 | _ \<Rightarrow> Inr None)
            | Some _ \<Rightarrow> Inl (PyError ''no attribute get'')))"

definition catalog_wire :: "catalog_client \<Rightarrow> string \<Rightarrow> string \<Rightarrow> json option \<Rightarrow> wire" where
  "catalog_wire c meth path body =
     \<lparr>w_method = meth, w_url = join_url (cc_base_url c) path, w_headers = cc_headers c,
      w_json = body, w_form = [], w_basic = None\<rparr>"

definition catalog_send :: "env \<Rightarrow> string \<Rightarrow> string \<Rightarrow> json option \<Rightarrow> (world, response) act" where
  "catalog_send E meth path body s = send_hooked E (catalog_wire (catalog s) meth path body) s"

text \<open>A transport failure becomes \<open>CatalogUnavailable\<close>.\<close>

definition or_unavailable :: "(world, 'a) act \<Rightarrow> (world, 'a) act" where
  "or_unavailable m =
     catch m (\<lambda>e. case e of HTTPError x \<Rightarrow> throw (CatalogUnavailable x) | _ \<Rightarrow> throw e)"

definition retry_moved :: "env \<Rightarrow> string \<Rightarrow> string \<Rightarrow> json option \<Rightarrow> string \<Rightarrow> (world, response) act" where
  "retry_moved E meth path body why =
     andthen (reading catalog) (\<lambda>before.
       if \<not> cc_has_resolver before then throw (CatalogUnavailable why)
       else andthen (catalog_resolve E True) (\<lambda>ok.
            andthen (reading catalog) (\<lambda>c.
              if \<not> (ok \<and> cc_base_url c \<noteq> cc_base_url before) then throw (CatalogUnavailable why)
              else or_unavailable (catalog_send E meth path body))))"

definition retry_unauthorized :: "env \<Rightarrow> string \<Rightarrow> string \<Rightarrow> json option \<Rightarrow> response \<Rightarrow> (world, response) act" where
  "retry_unauthorized E meth path body resp =
     andthen (reading catalog) (\<lambda>before.
       if r_status resp = 401 \<and> cc_has_resolver before
       then andthen (catalog_resolve E True) (\<lambda>ok.
            andthen (reading catalog) (\<lambda>c.
              if ok \<and> header_get (cc_headers c) ''Authorization'' \<noteq> header_get (cc_headers before) ''Authorization''
              then or_unavailable (catalog_send E meth path body)
              else ret resp))
       else ret resp)"

definition misdelivered_detail :: "string \<Rightarrow> string \<Rightarrow> string" where
  "misdelivered_detail declared ec =
     ''the catalog refused this deployment's credential for tenant '' @ quoted declared @ '' ('' @ ec @ '')''"

definition reject_misdelivery :: "response \<Rightarrow> (world, response) act" where
  "reject_misdelivery resp =
     (case misdelivery_error_code resp of
        Inl e \<Rightarrow> throw e
      | Inr None \<Rightarrow> ret resp
      | Inr (Some ec) \<Rightarrow>
          andthen (reading (\<lambda>s. cc_tenant (catalog s))) (\<lambda>declared.
            throw (CatalogMisconfigured (misdelivered_detail declared ec))))"

definition no_catalog_detail :: string where
  "no_catalog_detail =
     ''this BFF has no catalog: CATALOG_SERVICE_URL / CATALOG_API_TOKEN are unset and ''
     @ ''this tenant has no enrolment to learn them from (ADR-0024 '' @ [CHR 0xA7] @ ''10)''"

definition catalog_request :: "env \<Rightarrow> string \<Rightarrow> string \<Rightarrow> json option \<Rightarrow> (world, response) act" where
  "catalog_request E meth path body =
     andthen is_configured (\<lambda>ready.
     andthen (if ready then ret True else catalog_resolve E False) (\<lambda>_.
     andthen is_configured (\<lambda>ready'.
       if \<not> ready' then throw (CatalogUnavailable no_catalog_detail)
       else
         andthen
           (catch (catalog_send E meth path body)
              (\<lambda>e. case e of HTTPError why \<Rightarrow> retry_moved E meth path body why | _ \<Rightarrow> throw e)) (\<lambda>resp.
         andthen (retry_unauthorized E meth path body resp) reject_misdelivery))))"

section \<open>The declaration of the tenant\<close>

text \<open>
  \<open>declared_calls\<close>: the step keeps the client's tenant, its resolver and what it declares; every
  request sent on the way is the resolver's to the own gateway, or declares exactly that.
\<close>

definition declares :: "world \<Rightarrow> string list" where
  "declares s = header_values (cc_headers (catalog s)) tenant_header"

definition resolver_wire :: "env \<Rightarrow> wire \<Rightarrow> bool" where
  "resolver_wire E w \<longleftrightarrow>
     w_url w = join_url (gc_base_url (own_gateway E)) (with_prefix (own_gateway E) catalog_configuration_path)"

definition declared_calls :: "env \<Rightarrow> world \<Rightarrow> world \<Rightarrow> bool" where
  "declared_calls E s s' \<longleftrightarrow>
     cc_tenant (catalog s') = cc_tenant (catalog s) \<and> declares s' = declares s
     \<and> (\<exists>ws. trace s' = trace s @ ws \<and>
          (\<forall>w \<in> set ws. resolver_wire E w \<or> header_values (w_headers w) tenant_header = declares s))"

interpretation declared: step_order "declared_calls E" for E
proof
  show "declared_calls E s s" for s by (simp add: declared_calls_def)
next
  fix s t u assume "declared_calls E s t" "declared_calls E t u"
  then obtain ws ws' where "trace t = trace s @ ws" "trace u = trace t @ ws'"
    "\<forall>w \<in> set ws. resolver_wire E w \<or> header_values (w_headers w) tenant_header = declares s"
    "\<forall>w \<in> set ws'. resolver_wire E w \<or> header_values (w_headers w) tenant_header = declares t"
    "declares t = declares s" "declares u = declares t"
    "cc_tenant (catalog u) = cc_tenant (catalog s)"
    unfolding declared_calls_def by auto
  then show "declared_calls E s u"
    unfolding declared_calls_def by (auto intro!: exI [of _ "ws @ ws'"])
qed

lemma declared_quiet:
  "catalog s' = catalog s \<Longrightarrow> trace s' = trace s \<Longrightarrow> declared_calls E s s'"
  by (simp add: declared_calls_def declares_def)

lemma header_apart: "\<not> same_header ''Authorization'' tenant_header" "\<not> same_header correlation_header tenant_header"
  by code_simp+

lemma declared_adopt: "declared_calls E s (s\<lparr>catalog := adopt url cr (catalog s)\<rparr>)"
  by (simp add: declared_calls_def declares_def adopt_def header_values_set header_apart)

lemma declared_send_hooked:
  "(\<And>s. resolver_wire E w \<or> header_values (w_headers w) tenant_header = declares s) \<Longrightarrow>
     stable (declared_calls E) (send_hooked E w)"
  unfolding stable_def
proof
  fix s assume "\<And>s. resolver_wire E w \<or> header_values (w_headers w) tenant_header = declares s"
  then have "resolver_wire E w \<or> header_values (w_headers w) tenant_header = declares s" .
  then show "declared_calls E s (snd (send_hooked E w s))"
    by (auto simp: send_hooked_stamp send_def declared_calls_def declares_def resolver_wire_def
        stamp_values header_apart split: sum.split)
qed

lemma declared_catalog_send: "stable (declared_calls E) (catalog_send E meth path body)"
  by (auto simp: stable_def catalog_send_def send_hooked_stamp send_def declared_calls_def declares_def
      stamp_values header_apart catalog_wire_def split: sum.split)

lemma declared_is_configured: "stable (declared_calls E) is_configured"
  unfolding is_configured_def by (rule declared.stable_reading)

lemma declared_tick: "stable (declared_calls E) (tick clock)"
  by (auto simp: stable_def tick_def intro!: declared_quiet)

lemma declared_resolve_from_gateway: "stable (declared_calls E) (resolve_from_gateway E)"
proof -
  have "stable (declared_calls E) (gateway_get E (own_gateway E) catalog_configuration_path JNull)"
    unfolding gateway_get_def
    by (rule declared_send_hooked) (simp add: resolver_wire_def gateway_wire_def)
  moreover have "stable (declared_calls E) (case v of None \<Rightarrow> throw (ValueError ''response is not JSON'')
      | Some (JObj b) \<Rightarrow> ret (f b) | Some _ \<Rightarrow> throw (PyError ''no attribute get''))"
    for v and f :: "dict \<Rightarrow> (string \<times> string) option"
    by (cases v) (auto intro: declared.stable_combinators split: json.split)
  ultimately show ?thesis
    unfolding resolve_from_gateway_def by (intro declared.stable_combinators)
qed

lemma declared_catalog_resolve: "stable (declared_calls E) (catalog_resolve E force)"
proof -
  have "stable (declared_calls E) (adopt_found found)" for found
    unfolding adopt_found_def
    by (auto intro!: declared.stable_combinators declared_is_configured declared.stable_updating declared_adopt
        split: option.split)
  then have "stable (declared_calls E) (ask_resolver E now)" for now
    unfolding ask_resolver_def
    by (intro declared.stable_combinators declared_resolve_from_gateway declared.stable_updating)
      (simp add: declared_calls_def declares_def)
  then show ?thesis
    unfolding catalog_resolve_def
    by (intro declared.stable_combinators declared_is_configured declared_tick)
qed

lemma declared_or_unavailable: "stable (declared_calls E) m \<Longrightarrow> stable (declared_calls E) (or_unavailable m)"
  unfolding or_unavailable_def
  by (intro declared.stable_catch) (auto intro: declared.stable_throw split: exc.split)

lemma declared_reject: "stable (declared_calls E) (reject_misdelivery resp)"
  unfolding reject_misdelivery_def
  by (auto intro: declared.stable_combinators split: sum.split option.split)

lemma declared_catalog_request: "stable (declared_calls E) (catalog_request E meth path body)"
proof -
  note steps = declared.stable_combinators declared_is_configured declared_catalog_resolve
    declared_catalog_send declared_or_unavailable declared_reject
  have "stable (declared_calls E) (retry_moved E meth path body why)" for why
    unfolding retry_moved_def by (intro steps)
  then have "stable (declared_calls E) (case e of HTTPError why \<Rightarrow> retry_moved E meth path body why | _ \<Rightarrow> throw e)" for e
    by (cases e) (auto intro: declared.stable_throw)
  moreover have "stable (declared_calls E) (retry_unauthorized E meth path body resp)" for resp
    unfolding retry_unauthorized_def by (intro steps)
  ultimately show ?thesis
    unfolding catalog_request_def by (intro steps)
qed

lemma new_catalog_declaration:
  "header_values (cc_headers (new_catalog_client st r)) tenant_header =
     (if provider_oidc_enabled st \<or> tenant_id st = [] then [] else [tenant_id st])"
proof -
  have "same_header tenant_header tenant_header" by code_simp
  then show ?thesis by (simp add: new_catalog_client_def Let_def header_apart)
qed

text \<open>Whatever a call learns or retries, each request it sends goes to the own gateway's
  configuration route or declares the tenant of the settings (none on a provider console), and
  the client still declares that afterwards: a learned credential cannot change what tenant the
  console claims to be.\<close>

theorem catalog_declares_tenant:
  assumes "declares s = (if provider_oidc_enabled st \<or> tenant_id st = [] then [] else [tenant_id st])"
    and "catalog_request E meth path body s = (r, s')"
  shows "declares s' = declares s
    \<and> (\<exists>ws. trace s' = trace s @ ws \<and>
         (\<forall>w \<in> set ws. resolver_wire E w \<or>
            header_values (w_headers w) tenant_header =
              (if provider_oidc_enabled st \<or> tenant_id st = [] then [] else [tenant_id st])))"
  using stableD [OF declared_catalog_request assms(2)] assms(1) by (simp add: declared_calls_def)

section \<open>Requests and errors\<close>

lemma sends_gateway_get: "sends 1 (gateway_get E gc p b)"
  by (simp add: sends_def gateway_get_def send_hooked_trace)

lemma sends_gateway_request: "sends 1 (gateway_request E gc m p b t hs)"
  by (simp add: sends_def gateway_request_def send_hooked_trace)

lemma sends_catalog_send: "sends 1 (catalog_send E meth path body)"
  by (simp add: sends_def catalog_send_def send_hooked_trace)

lemmas sends_quiet = sends_silent [OF silent.stable_ret] sends_silent [OF silent.stable_throw]
  sends_silent [OF silent.stable_reading] sends_silent [OF silent_tick]

lemma sends_is_configured: "sends 0 is_configured"
  unfolding is_configured_def by (rule sends_quiet)

lemma sends_catalog_resolve: "sends 1 (catalog_resolve E force)"
proof -
  have "sends 0 (case v of None \<Rightarrow> throw (ValueError ''response is not JSON'')
      | Some (JObj b) \<Rightarrow> ret (f b) | Some _ \<Rightarrow> throw (PyError ''no attribute get''))"
    for v and f :: "dict \<Rightarrow> (string \<times> string) option"
    by (cases v) (auto intro: sends_quiet split: json.split)
  then have "sends 1 (resolve_from_gateway E)"
    unfolding resolve_from_gateway_def
    by (intro sends_andthen [OF sends_gateway_get] sends_if) (auto intro: sends_quiet)
  moreover have "sends 0 (adopt_found found)" for found
  proof -
    have "stable silent (updating (\<lambda>s. s\<lparr>catalog := adopt a b (catalog s)\<rparr>))" for a b
      by (rule silent.stable_updating) (simp add: silent_def)
    then show ?thesis
      unfolding adopt_found_def
      by (auto intro!: sends_is_configured sends_silent silent.stable_andthen silent.stable_ret split: option.split)
  qed
  ultimately have "sends 1 (ask_resolver E now)" for now
    unfolding ask_resolver_def
    by (intro sends_andthen [where a = 0 and b = 1] sends_andthen [where a = 1 and b = 0] sends_catch [where a = 1 and b = 0]
        sends_quiet sends_silent [OF silent.stable_updating]) (auto simp: silent_def)
  then show ?thesis
    unfolding catalog_resolve_def
    by (intro sends_andthen [where a = 0 and b = 1] sends_if sends_quiet sends_mono [OF sends_is_configured]
        sends_mono [OF sends_quiet(1)]) auto
qed

lemma sends_or_unavailable: "sends n m \<Longrightarrow> sends n (or_unavailable m)"
  unfolding or_unavailable_def
  by (rule sends_catch [where a = n and b = 0]) (auto intro: sends_quiet split: exc.split)

lemma sends_reject: "sends 0 (reject_misdelivery resp)"
  unfolding reject_misdelivery_def by (auto intro: sends_silent silent.stable_combinators split: sum.split option.split)

lemma sends_retry_moved: "sends 2 (retry_moved E meth path body why)"
  unfolding retry_moved_def
  by (intro sends_andthen [where a = 0 and b = 2] sends_if sends_andthen [where a = 1 and b = 1]
      sends_andthen [where a = 0 and b = 1] sends_quiet sends_catalog_resolve sends_or_unavailable sends_catalog_send
      sends_mono [OF sends_quiet(2)]) auto

lemma sends_retry_unauthorized: "sends 2 (retry_unauthorized E meth path body resp)"
  unfolding retry_unauthorized_def
  by (intro sends_andthen [where a = 0 and b = 2] sends_if sends_andthen [where a = 1 and b = 1]
      sends_andthen [where a = 0 and b = 1] sends_quiet sends_catalog_resolve sends_or_unavailable sends_catalog_send
      sends_mono [OF sends_quiet(1)]) auto

lemma sends_catalog_request: "sends 6 (catalog_request E meth path body)"
proof -
  have "sends 3 (catch (catalog_send E meth path body)
      (\<lambda>e. case e of HTTPError why \<Rightarrow> retry_moved E meth path body why | _ \<Rightarrow> throw e))"
    by (rule sends_catch [OF sends_catalog_send, where b = 2])
      (auto intro: sends_retry_moved sends_mono [OF sends_quiet(2)] split: exc.split)
  then show ?thesis
    unfolding catalog_request_def
    by (intro sends_andthen [where a = 0 and b = 6] sends_andthen [where a = 1 and b = 5]
        sends_andthen [where a = 0 and b = 5] sends_if sends_andthen [where a = 3 and b = 2]
        sends_andthen [where a = 2 and b = 0] sends_is_configured sends_catalog_resolve
        sends_retry_unauthorized sends_reject sends_mono [OF sends_quiet(1)] sends_mono [OF sends_quiet(2)]) auto
qed

text \<open>The errors a call can raise; the last one is a refusal whose body is not a JSON object.\<close>

definition catalog_error :: "exc \<Rightarrow> bool" where
  "catalog_error e \<longleftrightarrow>
     (case e of CatalogUnavailable _ \<Rightarrow> True | CatalogMisconfigured _ \<Rightarrow> True | PyError _ \<Rightarrow> True | _ \<Rightarrow> False)"

definition is_http_error :: "exc \<Rightarrow> bool" where
  "is_http_error e = (case e of HTTPError _ \<Rightarrow> True | _ \<Rightarrow> False)"

lemma raises_catalog_send: "raises is_http_error (catalog_send E meth path body)"
  by (auto simp: raises_def catalog_send_def send_hooked_stamp send_def is_http_error_def split: sum.splits)

lemma raises_tick [raises_intros]: "raises P (tick clock)"
  by (simp add: raises_def tick_def)

lemma raises_is_configured: "raises P is_configured"
  by (simp add: is_configured_def raises_intros)

lemma raises_catalog_resolve: "raises P (catalog_resolve E force)"
proof -
  have "raises P (adopt_found found)" for found
    unfolding adopt_found_def by (auto intro!: raises_intros raises_is_configured split: option.split)
  then have "raises P (ask_resolver E now)" for now
    unfolding ask_resolver_def by (intro raises_intros raises_catch [OF raises_any])
  then show ?thesis
    unfolding catalog_resolve_def by (intro raises_intros raises_is_configured)
qed

lemma raises_or_unavailable: "raises is_http_error m \<Longrightarrow> raises catalog_error (or_unavailable m)"
  unfolding or_unavailable_def
  by (erule raises_catch) (auto simp: is_http_error_def catalog_error_def intro: raises_throw split: exc.splits)

lemma raises_reject: "raises catalog_error (reject_misdelivery resp)"
  by (auto simp: reject_misdelivery_def misdelivery_error_code_def catalog_error_def
      intro!: raises_intros split: sum.split option.split if_splits json.splits)

lemma raises_catalog_request: "raises catalog_error (catalog_request E meth path body)"
proof -
  have un: "catalog_error (CatalogUnavailable x)" for x by (simp add: catalog_error_def)
  have moved: "raises catalog_error (retry_moved E meth path body why)" for why
    unfolding retry_moved_def
    by (intro raises_intros raises_catalog_resolve raises_or_unavailable raises_catalog_send un)
  have "raises catalog_error (catch (catalog_send E meth path body)
      (\<lambda>e. case e of HTTPError why \<Rightarrow> retry_moved E meth path body why | _ \<Rightarrow> throw e))"
    by (rule raises_catch [OF raises_catalog_send]) (auto simp: is_http_error_def moved split: exc.splits)
  moreover have "raises catalog_error (retry_unauthorized E meth path body resp)" for resp
    unfolding retry_unauthorized_def
    by (intro raises_intros raises_catalog_resolve raises_or_unavailable raises_catalog_send)
  ultimately show ?thesis
    unfolding catalog_request_def
    by (intro raises_intros raises_is_configured raises_catalog_resolve raises_reject un)
qed

lemma reject_returns: "reject_misdelivery resp s = (Inr r, s') \<Longrightarrow> r = resp \<and> misdelivery_error_code r = Inr None"
  by (auto simp: reject_misdelivery_def act_simps split: sum.splits option.splits)

text \<open>C32. A catalog call sends at most six requests, however often addresses and credentials have
  to be learned again; it never returns a misdelivery refusal as an answer, and no transport
  error of the network leaves it as such.\<close>

theorem catalog_request_bounded:
  assumes "catalog_request E meth path body s = (res, s')"
  shows "length (trace s') \<le> length (trace s) + 6
    \<and> (case res of Inr r \<Rightarrow> misdelivery_error_code r = Inr None | Inl e \<Rightarrow> catalog_error e)"
proof (cases res)
  case (Inl e)
  then show ?thesis using sendsD [OF sends_catalog_request assms] raisesD [OF raises_catalog_request] assms by auto
next
  case (Inr r)
  then have "\<exists>s1 x. reject_misdelivery x s1 = (Inr r, s')"
    using assms by (auto simp: catalog_request_def act_simps split: prod.splits sum.splits if_splits)
  then have "misdelivery_error_code r = Inr None" using reject_returns by blast
  then show ?thesis using sendsD [OF sends_catalog_request assms] Inr by simp
qed

definition demo_catalog_world :: world where
  "demo_catalog_world = (demo_world [] [])\<lparr>catalog := new_catalog_client demo_settings True\<rparr>"

lemma demo_catalog_declares:
  "declares demo_catalog_world =
     (if provider_oidc_enabled demo_settings \<or> tenant_id demo_settings = [] then [] else [tenant_id demo_settings])"
  using new_catalog_declaration [of demo_settings True] by (simp add: declares_def demo_catalog_world_def)

theorem catalog_declares_tenant_witness:
  "declares (snd (catalog_request (demo_env (answer 401 ''{}'')) ''GET'' ''/tenants'' None demo_catalog_world)) = [''t1'']"
proof -
  let ?r = "catalog_request (demo_env (answer 401 ''{}'')) ''GET'' ''/tenants'' None demo_catalog_world"
  have "?r = (fst ?r, snd ?r)" by simp
  from catalog_declares_tenant [OF demo_catalog_declares this]
  have "declares (snd ?r) = declares demo_catalog_world" ..
  moreover have "declares demo_catalog_world = [''t1'']"
    unfolding demo_catalog_declares by (simp add: demo_settings_def)
  ultimately show ?thesis by simp
qed

theorem catalog_request_bounded_witness:
  "length (trace (snd (catalog_request (demo_env (answer 401 ''{}'')) ''GET'' ''/tenants'' None demo_catalog_world))) \<le> 6"
proof -
  let ?r = "catalog_request (demo_env (answer 401 ''{}'')) ''GET'' ''/tenants'' None demo_catalog_world"
  have "?r = (fst ?r, snd ?r)" by simp
  from catalog_request_bounded [OF this]
  have "length (trace (snd ?r)) \<le> length (trace demo_catalog_world) + 6" ..
  then show ?thesis by (simp add: demo_catalog_world_def demo_world_def)
qed

end
