(* ===== verification/Tenants.thy ===== *)
theory Tenants
  imports Security Catalog_Client
begin

text \<open>
  Which tenants a provider console knows and how it reaches them: the configured registry
  (\<open>app/tenant_registry.py\<close>), the directory with the catalog's enrolments on top
  (\<open>app/tenant_directory.py\<close>) and the pool of gateway clients (\<open>app/gateway_pool.py\<close>).

  Dicts by tenant id are association lists in insertion order. The warning of a failed refresh
  is not modelled. Results: what a registry must hold to be accepted, that a refresh that fails
  keeps the estate and one that succeeds replaces the enrolled part, and that every client of
  the pool points at its own tenant's gateway until it is invalidated.
\<close>

section \<open>The registry\<close>

definition required_keys :: "string list" where
  "required_keys = [''tenant_id'', ''display_name'', ''gateway_url'']"

text \<open>\<open>PROVIDER_TENANT_REGISTRY[{i}]\<close>: what is wrong with the item at a place of the list.\<close>

definition registry_error :: "nat \<Rightarrow> string \<Rightarrow> exc" where
  "registry_error i what = ValueError (''PROVIDER_TENANT_REGISTRY['' @ show_nat i @ ''] '' @ what)"

definition missing_keys :: "dict \<Rightarrow> json" where
  "missing_keys d = JList (map JStr (filter (\<lambda>k. \<not> truthy (dict_get d k)) required_keys))"

definition registry_item :: "nat \<Rightarrow> json \<Rightarrow> exc + tenant_entry" where
  "registry_item i item =
     (case item of
        JObj d \<Rightarrow>
          (if list_ex (\<lambda>k. \<not> truthy (dict_get d k)) required_keys
           then Inl (registry_error i (''is missing '' @ py_repr (missing_keys d)))
           else if \<not> list_all (\<lambda>k. is_str (dict_get d k)) required_keys
             \<or> dict_has d ''gateway_token_file'' \<and> \<not> is_str (dict_get d ''gateway_token_file'')
           then Inl (registry_error i ''fields must all be strings'')
           else Inr \<lparr>te_tenant_id = py_str (dict_get d ''tenant_id''),
                     te_display_name = py_str (dict_get d ''display_name''),
                     te_gateway_url = py_str (dict_get d ''gateway_url''),
                     te_token_file = py_str (dict_get_or d ''gateway_token_file'' (JStr '''')),
                     te_from_catalog = False\<rparr>)
      | _ \<Rightarrow> Inl (registry_error i ''must be an object''))"

fun registry_entries :: "nat \<Rightarrow> json list \<Rightarrow> (string \<times> tenant_entry) list \<Rightarrow> exc + (string \<times> tenant_entry) list" where
  "registry_entries i [] es = Inr es"
| "registry_entries i (item # rest) es =
     (case registry_item i item of
        Inl e \<Rightarrow> Inl e
      | Inr te \<Rightarrow>
          (if map_of es (te_tenant_id te) \<noteq> None
           then Inl (ValueError (''PROVIDER_TENANT_REGISTRY has a duplicate tenant_id: '' @ repr_str (te_tenant_id te)))
           else registry_entries (Suc i) rest (es @ [(te_tenant_id te, te)])))"

definition load_tenant_registry :: "string \<Rightarrow> exc + (string \<times> tenant_entry) list" where
  "load_tenant_registry raw =
     (let t = py_strip raw in
      if t = [] then Inr []
      else (case json_loads t of
              None \<Rightarrow> Inl (ValueError ''PROVIDER_TENANT_REGISTRY is not valid JSON'')
            | Some (JList items) \<Rightarrow> registry_entries 0 items []
            | Some _ \<Rightarrow> Inl (ValueError ''PROVIDER_TENANT_REGISTRY must be a JSON array of tenant entries'')))"

section \<open>The directory\<close>

definition new_tenant_directory :: "(string \<times> tenant_entry) list \<Rightarrow> tenant_directory" where
  "new_tenant_directory configured = \<lparr>td_configured = configured, td_enrolled = [], td_failed = False\<rparr>"

definition keep_display_name :: "(string \<times> tenant_entry) list \<Rightarrow> string \<Rightarrow> tenant_entry \<Rightarrow> tenant_entry" where
  "keep_display_name merged tid enrolled =
     (case map_of merged tid of
        None \<Rightarrow> enrolled
      | Some configured \<Rightarrow>
          (if te_display_name enrolled = tid \<and> te_display_name configured \<noteq> [] \<and> te_display_name configured \<noteq> tid
           then enrolled\<lparr>te_display_name := te_display_name configured\<rparr> else enrolled))"

definition directory_entries :: "tenant_directory \<Rightarrow> (string \<times> tenant_entry) list" where
  "directory_entries td =
     fold (\<lambda>(tid, enrolled) merged. AList.update tid (keep_display_name merged tid enrolled) merged)
       (td_enrolled td) (td_configured td)"

definition directory_get :: "tenant_directory \<Rightarrow> string \<Rightarrow> exc + tenant_entry" where
  "directory_get td tid =
     (case map_of (directory_entries td) tid of None \<Rightarrow> Inl (KeyError tid) | Some e \<Rightarrow> Inr e)"

text \<open>The rows of the catalog's listing; a row that is not an object raises outside the guarded part.\<close>

fun enrolled_rows :: "json list \<Rightarrow> exc + (string \<times> tenant_entry) list" where
  "enrolled_rows [] = Inr []"
| "enrolled_rows (row # rows) =
     (case row of
        JObj d \<Rightarrow>
          (if \<not> truthy (dict_get d ''tenant_id'') then enrolled_rows rows
           else bind_result (enrolled_rows rows) (\<lambda>es.
             let tid = py_str (dict_get d ''tenant_id'') in
             Inr ((tid, \<lparr>te_tenant_id = tid,
                    te_display_name = py_str (py_or (dict_get d ''display_name'') (dict_get d ''tenant_id'')),
                    te_gateway_url = py_str (py_or (dict_get d ''gateway_url'') (JStr '''')),
                    te_token_file = '''', te_from_catalog = True\<rparr>) # es)))
      | _ \<Rightarrow> Inl (PyError ''no attribute get''))"

text \<open>A dict comprehension keeps the last value of a key, at the key's first position.\<close>

definition dict_of :: "('k \<times> 'v) list \<Rightarrow> ('k \<times> 'v) list" where
  "dict_of kvs = fold (\<lambda>(k, v) d. AList.update k v d) kvs []"

text \<open>
  \<open>resp.json()["tenants"]\<close>: a body without that field is caught, so it is \<open>None\<close> here; a field
  that cannot be iterated is only found out by the loop, which is not guarded.
\<close>

definition listing_rows :: "response \<Rightarrow> (exc + json list) option" where
  "listing_rows resp =
     (case response_json resp of
        Some (JObj b) \<Rightarrow>
          (case map_of b ''tenants'' of
             None \<Rightarrow> None
           | Some JNull \<Rightarrow> Some (Inl (PyError ''not iterable''))
           | Some (JBool _) \<Rightarrow> Some (Inl (PyError ''not iterable''))
           | Some (JInt _) \<Rightarrow> Some (Inl (PyError ''not iterable''))
           | Some (JFloat _) \<Rightarrow> Some (Inl (PyError ''not iterable''))
           | Some v \<Rightarrow> Some (Inr (json_items v)))
      | _ \<Rightarrow> None)"

definition refresh_failed :: "(world, bool) act" where
  "refresh_failed = andthen (updating (\<lambda>s. s\<lparr>directory := (directory s)\<lparr>td_failed := True\<rparr>\<rparr>)) (\<lambda>_. ret False)"

definition refresh_done :: "(string \<times> tenant_entry) list \<Rightarrow> (world, bool) act" where
  "refresh_done es =
     andthen (updating (\<lambda>s. s\<lparr>directory := (directory s)\<lparr>td_enrolled := dict_of es, td_failed := False\<rparr>\<rparr>)) (\<lambda>_. ret True)"

definition is_unavailable :: "exc \<Rightarrow> bool" where
  "is_unavailable e = (case e of CatalogUnavailable _ \<Rightarrow> True | CatalogMisconfigured _ \<Rightarrow> True | _ \<Rightarrow> False)"

definition try_catalog :: "env \<Rightarrow> string \<Rightarrow> (world, response option) act" where
  "try_catalog E path =
     catch (andthen (catalog_request E ''GET'' path None) (\<lambda>resp. ret (Some resp)))
       (\<lambda>e. if is_unavailable e then ret None else throw e)"

definition accept_listing :: "response option \<Rightarrow> (world, bool) act" where
  "accept_listing answered =
     (case answered of
        None \<Rightarrow> refresh_failed
      | Some resp \<Rightarrow>
          (if r_status resp \<noteq> 200 then refresh_failed
           else (case listing_rows resp of
                   None \<Rightarrow> refresh_failed
                 | Some rows \<Rightarrow>
                     (case bind_result rows enrolled_rows of
                        Inl e \<Rightarrow> throw e
                      | Inr es \<Rightarrow> refresh_done es))))"

definition directory_refresh :: "env \<Rightarrow> (world, bool) act" where
  "directory_refresh E =
     andthen is_configured (\<lambda>configured.
       if \<not> configured
       then andthen (updating (\<lambda>s. s\<lparr>directory := (directory s)\<lparr>td_failed := False\<rparr>\<rparr>)) (\<lambda>_. ret True)
       else andthen (try_catalog E ''/tenants'') accept_listing)"

definition gateway_credential :: "env \<Rightarrow> string \<Rightarrow> (world, string option) act" where
  "gateway_credential E tid =
     andthen (try_catalog E (''/tenants/'' @ tid @ ''/gateway-credential'')) (\<lambda>answered.
       case answered of
         None \<Rightarrow> ret None
       | Some resp \<Rightarrow>
           (if r_status resp \<noteq> 200 then ret None
            else (case response_json resp of
                    None \<Rightarrow> ret None
                  | Some (JObj b) \<Rightarrow> ret (Some (py_str (dict_get_or b ''gateway_credential'' (JStr ''''))))
                  | Some _ \<Rightarrow> throw (PyError ''no attribute get''))))"

section \<open>The pool\<close>

definition read_token_file :: "env \<Rightarrow> string \<Rightarrow> string" where
  "read_token_file E path =
     (if path = [] then '''' else (case token_file E path of Some t \<Rightarrow> py_strip t | None \<Rightarrow> ''''))"

text \<open>The pool always has the console's catalog client, as the factory builds it.\<close>

definition token_for :: "env \<Rightarrow> string \<Rightarrow> tenant_entry \<Rightarrow> (world, string) act" where
  "token_for E tid e =
     (if \<not> te_from_catalog e then ret (read_token_file E (te_token_file e))
      else andthen (gateway_credential E tid) (\<lambda>c.
             case c of
               None \<Rightarrow> throw (TenantUnreachable (''the catalog could not be asked for tenant '' @ repr_str tid
                 @ [CHR 0x27] @ ''s gateway credential''))
             | Some credential \<Rightarrow> ret credential))"

definition add_client :: "string \<Rightarrow> gateway_client \<Rightarrow> (world, gateway_client) act" where
  "add_client tid gc =
     andthen (updating (\<lambda>s. s\<lparr>pool := (pool s)\<lparr>gp_clients := AList.update tid gc (gp_clients (pool s))\<rparr>\<rparr>)) (\<lambda>_. ret gc)"

definition pool_get :: "env \<Rightarrow> string \<Rightarrow> (world, gateway_client) act" where
  "pool_get E tid =
     andthen (reading (\<lambda>s. s)) (\<lambda>s.
       case directory_get (directory s) tid of
         Inl e \<Rightarrow> throw e
       | Inr entry \<Rightarrow>
           (case map_of (gp_clients (pool s)) tid of
              Some gc \<Rightarrow> ret gc
            | None \<Rightarrow>
                andthen (token_for E tid entry) (\<lambda>token.
                  add_client tid (new_gateway_client (te_gateway_url entry) token (gp_prefix (pool s))))))"

definition pool_invalidate :: "string \<Rightarrow> (world, unit) act" where
  "pool_invalidate tid =
     updating (\<lambda>s. s\<lparr>pool := (pool s)\<lparr>gp_clients := AList.delete tid (gp_clients (pool s))\<rparr>\<rparr>)"

section \<open>What network calls leave alone\<close>

definition net_frame :: "world \<Rightarrow> world \<Rightarrow> bool" where
  "net_frame s s' \<longleftrightarrow> (\<exists>tk tr c. s' = s\<lparr>ticks := tk, trace := tr, catalog := c\<rparr>)"

interpretation net: step_order net_frame
proof
  show "net_frame s s" for s
    unfolding net_frame_def by (intro exI [of _ "ticks s"] exI [of _ "trace s"] exI [of _ "catalog s"]) simp
  show "net_frame s t \<Longrightarrow> net_frame t u \<Longrightarrow> net_frame s u" for s t u
    unfolding net_frame_def by force
qed

lemma net_frame_update:
  "net_frame s (s\<lparr>ticks := tk\<rparr>)" "net_frame s (s\<lparr>trace := tr\<rparr>)" "net_frame s (s\<lparr>catalog := c\<rparr>)"
  unfolding net_frame_def
    apply (intro exI [of _ tk] exI [of _ "trace s"] exI [of _ "catalog s"], simp)
   apply (intro exI [of _ "ticks s"] exI [of _ tr] exI [of _ "catalog s"], simp)
  apply (intro exI [of _ "ticks s"] exI [of _ "trace s"] exI [of _ c], simp)
  done

lemma net_frame_fields: "net_frame s s' \<Longrightarrow> directory s' = directory s \<and> pool s' = pool s"
  by (auto simp: net_frame_def)

lemma net_send_hooked: "stable net_frame (send_hooked E w)"
  by (auto simp: stable_def send_hooked_stamp send_def net_frame_update split: sum.split)

lemma net_gateway: "stable net_frame (gateway_get E gc p b)" "stable net_frame (gateway_request E gc m p j b hs)"
  by (simp_all add: gateway_get_def gateway_request_def net_send_hooked)

lemma net_tick: "stable net_frame (tick clock)"
  by (simp add: stable_def tick_def net_frame_update)

lemma net_catalog_send: "stable net_frame (catalog_send E m p b)"
  using net_send_hooked by (simp add: stable_def catalog_send_def)

lemma net_is_configured: "stable net_frame is_configured"
  unfolding is_configured_def by (rule net.stable_reading)

lemma net_catalog_resolve: "stable net_frame (catalog_resolve E force)"
proof -
  have "stable net_frame (case v of None \<Rightarrow> throw (ValueError ''response is not JSON'')
      | Some (JObj b) \<Rightarrow> ret (f b) | Some _ \<Rightarrow> throw (PyError ''no attribute get''))"
    for v and f :: "dict \<Rightarrow> (string \<times> string) option"
    by (cases v) (auto intro: net.stable_combinators split: json.split)
  then have "stable net_frame (resolve_from_gateway E)"
    unfolding resolve_from_gateway_def by (intro net.stable_combinators net_gateway)
  moreover have "stable net_frame (adopt_found found)" for found
    unfolding adopt_found_def
    by (auto intro!: net.stable_combinators net_is_configured net.stable_updating net_frame_update split: option.split)
  ultimately have "stable net_frame (ask_resolver E now)" for now
    unfolding ask_resolver_def
    by (intro net.stable_combinators net.stable_updating net_frame_update)
  then show ?thesis
    unfolding catalog_resolve_def by (intro net.stable_combinators net_is_configured net_tick)
qed

lemma net_catalog_request: "stable net_frame (catalog_request E meth path body)"
proof -
  have un: "stable net_frame (or_unavailable m)" if "stable net_frame m" for m :: "(world, response) act"
    unfolding or_unavailable_def using that
    by (intro net.stable_catch) (auto intro: net.stable_throw split: exc.split)
  note steps = net.stable_combinators net_is_configured net_catalog_resolve net_catalog_send un
  have rej: "stable net_frame (reject_misdelivery resp)" for resp
    unfolding reject_misdelivery_def by (auto intro: net.stable_combinators split: sum.split option.split)
  have "stable net_frame (retry_moved E meth path body why)" for why
    unfolding retry_moved_def by (intro steps)
  then have "stable net_frame (case e of HTTPError why \<Rightarrow> retry_moved E meth path body why | _ \<Rightarrow> throw e)" for e
    by (cases e) (auto intro: net.stable_throw)
  moreover have "stable net_frame (retry_unauthorized E meth path body resp)" for resp
    unfolding retry_unauthorized_def by (intro steps)
  ultimately show ?thesis
    unfolding catalog_request_def by (intro steps rej)
qed

lemma net_try_catalog: "stable net_frame (try_catalog E path)"
  unfolding try_catalog_def by (intro net.stable_combinators net_catalog_request)

lemma net_gateway_credential: "stable net_frame (gateway_credential E tid)"
  unfolding gateway_credential_def
  by (intro net.stable_andthen net_try_catalog)
    (auto intro: net.stable_combinators split: option.split json.split)

section \<open>Refreshing the estate\<close>

lemma accept_listing_run:
  "accept_listing answered s = (r, s') \<Longrightarrow>
     (case r of
        Inl e \<Rightarrow> s' = s
      | Inr b \<Rightarrow>
          (if b then (\<exists>resp rows es. answered = Some resp \<and> r_status resp = 200
               \<and> listing_rows resp = Some (Inr rows) \<and> enrolled_rows rows = Inr es
               \<and> directory s' = (directory s)\<lparr>td_enrolled := dict_of es, td_failed := False\<rparr>)
           else directory s' = (directory s)\<lparr>td_failed := True\<rparr>))"
  by (auto simp: accept_listing_def refresh_failed_def refresh_done_def act_simps bind_result_def
      split: option.splits if_splits sum.splits)

lemma refresh_pool: "directory_refresh E s = (r, s') \<Longrightarrow> pool s' = pool s"
proof -
  have "stable (\<lambda>s s'. pool s' = pool s) (directory_refresh E)"
    unfolding stable_def
  proof
    fix s
    obtain a s1 where t: "try_catalog E ''/tenants'' s = (a, s1)" by (cases "try_catalog E ''/tenants'' s")
    have "pool s1 = pool s" using stableD [OF net_try_catalog t] net_frame_fields by blast
    then show "pool (snd (directory_refresh E s)) = pool s"
      using t by (auto simp: directory_refresh_def is_configured_def act_simps accept_listing_def refresh_failed_def
        refresh_done_def split: option.splits if_splits sum.splits)
  qed
  then show "directory_refresh E s = (r, s') \<Longrightarrow> pool s' = pool s" by (rule stableD)
qed

text \<open>A refresh of the estate replaces the enrolled tenants with a listing the catalog answered
  with 200, or leaves every entry as it was; when it could not get one it says so. The
  configured floor is never touched.\<close>

theorem directory_refresh_spec:
  assumes "directory_refresh E s = (r, s')"
  shows "td_configured (directory s') = td_configured (directory s) \<and> pool s' = pool s
    \<and> (case r of
         Inl e \<Rightarrow> directory s' = directory s
       | Inr False \<Rightarrow> directory s' = (directory s)\<lparr>td_failed := True\<rparr>
       | Inr True \<Rightarrow> \<not> td_failed (directory s') \<and>
           (td_enrolled (directory s') = td_enrolled (directory s) \<and> \<not> cc_configured (catalog s)
            \<or> (\<exists>resp rows es. r_status resp = 200 \<and> listing_rows resp = Some (Inr rows)
                 \<and> enrolled_rows rows = Inr es \<and> td_enrolled (directory s') = dict_of es)))"
proof (cases "cc_configured (catalog s)")
  case False
  then show ?thesis using assms
    by (auto simp: directory_refresh_def is_configured_def act_simps)
next
  case True
  obtain a s1 where t: "try_catalog E ''/tenants'' s = (a, s1)" by (cases "try_catalog E ''/tenants'' s")
  have f: "directory s1 = directory s" "pool s1 = pool s"
    using stableD [OF net_try_catalog t] net_frame_fields by blast+
  have p: "pool s' = pool s1" if "a = Inr answered" for answered
    using assms True t that
    by (auto simp: directory_refresh_def is_configured_def act_simps accept_listing_def refresh_failed_def
        refresh_done_def split: option.splits if_splits sum.splits)
  show ?thesis
  proof (cases a)
    case (Inl e)
    then show ?thesis using assms True t f by (auto simp: directory_refresh_def is_configured_def act_simps)
  next
    case (Inr answered)
    then have "accept_listing answered s1 = (r, s')"
      using assms True t by (simp add: directory_refresh_def is_configured_def act_simps)
    from accept_listing_run [OF this] show ?thesis
      using f p [OF Inr] by (auto split: sum.splits bool.splits if_splits)
  qed
qed

section \<open>Looking a tenant up\<close>

lemma directory_entries_lookup:
  assumes "distinct (map fst enrolled)"
  shows "map_of (fold (\<lambda>(tid, e) merged. AList.update tid (keep_display_name merged tid e) merged) enrolled conf) tid =
    (case map_of enrolled tid of None \<Rightarrow> map_of conf tid | Some e \<Rightarrow> Some (keep_display_name conf tid e))"
  using assms
proof (induction enrolled arbitrary: conf)
  case (Cons x enrolled)
  obtain i e where x: "x = (i, e)" by (cases x)
  let ?conf = "AList.update i (keep_display_name conf i e) conf"
  have same: "keep_display_name ?conf tid v = keep_display_name conf tid v" if "tid \<noteq> i" for v
    using that by (simp add: keep_display_name_def map_of_update)
  show ?case
  proof (cases "tid = i")
    case True
    then have "map_of enrolled tid = None" using Cons.prems x by (simp add: map_of_eq_None_iff)
    then show ?thesis using Cons.IH [of ?conf] Cons.prems x True by (simp add: map_of_update)
  next
    case False
    then show ?thesis using Cons.IH [of ?conf] Cons.prems x same by (simp add: map_of_update split: option.split)
  qed
qed simp

text \<open>A tenant of the directory is reached where the catalog says when the catalog lists it and
  where the configuration says otherwise; only a display name that is no name gives way to a
  configured one.\<close>

theorem directory_get_spec:
  assumes "distinct (map fst (td_enrolled td))"
  shows "directory_get td tid =
    (case map_of (td_enrolled td) tid of
       Some e \<Rightarrow>
         (case map_of (td_configured td) tid of
            Some c \<Rightarrow> Inr (if te_display_name e = tid \<and> te_display_name c \<notin> {[], tid}
                          then e\<lparr>te_display_name := te_display_name c\<rparr> else e)
          | None \<Rightarrow> Inr e)
     | None \<Rightarrow> (case map_of (td_configured td) tid of Some c \<Rightarrow> Inr c | None \<Rightarrow> Inl (KeyError tid)))"
  using directory_entries_lookup [OF assms]
  by (auto simp: directory_get_def directory_entries_def keep_display_name_def split: option.splits)

lemma dict_of_distinct: "distinct (map fst (dict_of kvs))"
proof -
  have "distinct (map fst d) \<Longrightarrow> distinct (map fst (fold (\<lambda>(k, v) d. AList.update k v d) kvs d))" for d
    by (induction kvs arbitrary: d) (auto simp: distinct_update)
  then show ?thesis by (simp add: dict_of_def)
qed

lemma registry_item_sound:
  assumes "registry_item i item = Inr te"
  shows "te_tenant_id te \<noteq> [] \<and> te_display_name te \<noteq> [] \<and> te_gateway_url te \<noteq> [] \<and> \<not> te_from_catalog te"
proof -
  have str: "py_str v \<noteq> []" if "truthy v" "is_str v" for v
    using that by (cases v) auto
  obtain d where d: "item = JObj d" using assms by (cases item) (auto simp: registry_item_def)
  have "list_all (\<lambda>k. truthy (dict_get d k) \<and> is_str (dict_get d k)) required_keys"
    using assms d by (auto simp: registry_item_def list_ex_iff list_all_iff split: if_splits)
  then show ?thesis
    using assms d str by (auto simp: registry_item_def required_keys_def split: if_splits)
qed

lemma registry_entries_sound:
  assumes "registry_entries i items es = Inr res" and "distinct (map fst es)"
    and "\<forall>(tid, e) \<in> set es. te_tenant_id e = tid \<and> tid \<noteq> [] \<and> te_display_name e \<noteq> [] \<and> te_gateway_url e \<noteq> []"
  shows "distinct (map fst res) \<and> length res = length es + length items
    \<and> (\<forall>(tid, e) \<in> set res. te_tenant_id e = tid \<and> tid \<noteq> [] \<and> te_display_name e \<noteq> [] \<and> te_gateway_url e \<noteq> [])"
  using assms
proof (induction items arbitrary: i es)
  case (Cons item items)
  obtain te where te: "registry_item i item = Inr te" and new: "map_of es (te_tenant_id te) = None"
    and rest: "registry_entries (Suc i) items (es @ [(te_tenant_id te, te)]) = Inr res"
    using Cons.prems(1) by (auto split: sum.splits if_splits)
  have "te_tenant_id te \<notin> fst ` set es" using new by (simp add: map_of_eq_None_iff)
  then have "distinct (map fst (es @ [(te_tenant_id te, te)]))" using Cons.prems(2) by auto
  moreover have "\<forall>(tid, e) \<in> set (es @ [(te_tenant_id te, te)]). te_tenant_id e = tid \<and> tid \<noteq> [] \<and> te_display_name e \<noteq> []
      \<and> te_gateway_url e \<noteq> []"
    using Cons.prems(3) registry_item_sound [OF te] by auto
  ultimately have "distinct (map fst res) \<and> length res = length (es @ [(te_tenant_id te, te)]) + length items
    \<and> (\<forall>(tid, e) \<in> set res. te_tenant_id e = tid \<and> tid \<noteq> [] \<and> te_display_name e \<noteq> [] \<and> te_gateway_url e \<noteq> [])"
    by (rule Cons.IH [OF rest])
  then show ?case by simp
qed simp

text \<open>A registry that is accepted names each tenant once, by an id, a name and an address that
  are not empty, and drops none of the configured entries.\<close>

theorem tenant_registry_sound:
  assumes "load_tenant_registry raw = Inr es" and "py_strip raw \<noteq> []"
  shows "distinct (map fst es)
    \<and> (\<exists>items. json_loads (py_strip raw) = Some (JList items) \<and> length es = length items)
    \<and> (\<forall>(tid, e) \<in> set es. te_tenant_id e = tid \<and> tid \<noteq> [] \<and> te_display_name e \<noteq> [] \<and> te_gateway_url e \<noteq> [])"
proof -
  obtain items where i: "json_loads (py_strip raw) = Some (JList items)" "registry_entries 0 items [] = Inr es"
    using assms by (auto simp: load_tenant_registry_def Let_def split: option.splits json.splits)
  then show ?thesis using registry_entries_sound [OF i(2)] by auto
qed

section \<open>The clients of the pool\<close>

lemma pool_get_cached:
  "map_of (gp_clients (pool s)) tid = Some gc \<Longrightarrow> directory_get (directory s) tid = Inr e \<Longrightarrow>
     pool_get E tid s = (Inr gc, s)"
  by (simp add: pool_get_def act_simps)

lemma pool_get_caches:
  assumes "pool_get E tid s = (Inr gc, s')"
  shows "map_of (gp_clients (pool s')) tid = Some gc"
proof -
  obtain e where e: "directory_get (directory s) tid = Inr e"
    using assms by (auto simp: pool_get_def act_simps split: sum.splits)
  show ?thesis
  proof (cases "map_of (gp_clients (pool s)) tid")
    case (Some c)
    then show ?thesis using assms pool_get_cached [OF Some e] by simp
  next
    case None
    then show ?thesis
      using assms e by (auto simp: pool_get_def act_simps add_client_def map_of_update split: prod.splits sum.splits)
  qed
qed

text \<open>A client of the pool is pinned to the address and credential it was built with: whatever
  a later refresh learns of its tenant, a new address included, the same client is handed out
  until it is invalidated.\<close>

theorem pool_client_pinned:
  assumes "pool_get E tid s = (Inr gc, s1)" and "directory_refresh E s1 = (r, s2)"
    and "directory_get (directory s2) tid = Inr e"
  shows "pool_get E tid s2 = (Inr gc, s2)"
proof -
  have "pool s2 = pool s1"
    using assms(2) by (rule refresh_pool)
  then show ?thesis using pool_get_caches [OF assms(1)] assms(3) by (simp add: pool_get_cached)
qed

section \<open>At concrete inputs\<close>

definition demo_entry_of :: "string \<Rightarrow> string \<Rightarrow> string \<Rightarrow> tenant_entry" where
  "demo_entry_of tid name url =
     \<lparr>te_tenant_id = tid, te_display_name = name, te_gateway_url = url, te_token_file = '''', te_from_catalog = False\<rparr>"

definition demo_provider_world :: world where
  "demo_provider_world = (demo_world [] [])\<lparr>
     directory := \<lparr>td_configured = [(''t1'', demo_entry_of ''t1'' ''Tenant One'' ''http://old'')], td_enrolled = [], td_failed = False\<rparr>,
     catalog := (catalog (demo_world [] []))\<lparr>cc_configured := True, cc_has_resolver := False, cc_base_url := ''http://cat''\<rparr>\<rparr>"

definition demo_listing :: string where
  "demo_listing = json_dumps (JObj [(''tenants'', JList [JObj [(''tenant_id'', JStr ''t1''), (''gateway_url'', JStr ''http://new'')]])])"

theorem directory_refresh_spec_witness:
  "td_failed (directory (snd (directory_refresh (demo_env (answer 500 ''oops'')) demo_provider_world)))
   \<and> td_configured (directory (snd (directory_refresh (demo_env (answer 500 ''oops'')) demo_provider_world)))
      = [(''t1'', demo_entry_of ''t1'' ''Tenant One'' ''http://old'')]"
proof -
  let ?r = "directory_refresh (demo_env (answer 500 ''oops'')) demo_provider_world"
  have f: "fst ?r = Inr False" by code_simp
  have "?r = (fst ?r, snd ?r)" by simp
  from directory_refresh_spec [OF this]
  show ?thesis by (simp add: f) (simp add: demo_provider_world_def)
qed

theorem directory_get_spec_witness:
  "directory_get \<lparr>td_configured = [(''t1'', demo_entry_of ''t1'' ''Tenant One'' ''http://old'')],
      td_enrolled = [(''t1'', demo_entry_of ''t1'' ''t1'' ''http://new'')], td_failed = False\<rparr> ''t1''
   = Inr (demo_entry_of ''t1'' ''Tenant One'' ''http://new'')"
  by (subst directory_get_spec) (simp_all add: demo_entry_of_def)

theorem tenant_registry_sound_witness:
  "case load_tenant_registry (json_dumps (JList [JObj [(''tenant_id'', JStr ''t1''), (''display_name'', JStr ''T''), (''gateway_url'', JStr ''u'')]])) of
     Inr es \<Rightarrow> distinct (map fst es) \<and> map fst es = [''t1''] | Inl e \<Rightarrow> False"
proof -
  let ?raw = "json_dumps (JList [JObj [(''tenant_id'', JStr ''t1''), (''display_name'', JStr ''T''), (''gateway_url'', JStr ''u'')]])"
  have "(case load_tenant_registry ?raw of Inr es \<Rightarrow> map fst es | Inl e \<Rightarrow> []) = [''t1'']" by code_simp
  then obtain es where es: "load_tenant_registry ?raw = Inr es" "map fst es = [''t1'']"
    by (cases "load_tenant_registry ?raw") auto
  have "py_strip ?raw \<noteq> []" by code_simp
  then show ?thesis using tenant_registry_sound [OF es(1)] es by simp
qed

theorem pool_client_pinned_witness:
  "let E = demo_env (answer 200 demo_listing);
       s1 = snd (pool_get E ''t1'' demo_provider_world);
       s2 = snd (directory_refresh E s1)
   in (case directory_get (directory s2) ''t1'' of Inr e \<Rightarrow> te_gateway_url e | Inl x \<Rightarrow> []) = ''http://new''
      \<and> (case fst (pool_get E ''t1'' s2) of Inr gc \<Rightarrow> gc_base_url gc | Inl x \<Rightarrow> []) = ''http://old''"
proof -
  let ?E = "demo_env (answer 200 demo_listing)"
  let ?s1 = "snd (pool_get ?E ''t1'' demo_provider_world)"
  let ?s2 = "snd (directory_refresh ?E ?s1)"
  have "(case fst (pool_get ?E ''t1'' demo_provider_world) of Inr gc \<Rightarrow> gc_base_url gc | Inl x \<Rightarrow> []) = ''http://old''"
    by code_simp
  then obtain gc where gc: "pool_get ?E ''t1'' demo_provider_world = (Inr gc, ?s1)" "gc_base_url gc = ''http://old''"
    by (cases "pool_get ?E ''t1'' demo_provider_world"; cases "fst (pool_get ?E ''t1'' demo_provider_world)") auto
  have url: "(case directory_get (directory ?s2) ''t1'' of Inr e \<Rightarrow> te_gateway_url e | Inl x \<Rightarrow> []) = ''http://new''"
    by code_simp
  then obtain e where e: "directory_get (directory ?s2) ''t1'' = Inr e"
    by (cases "directory_get (directory ?s2) ''t1''") auto
  have "directory_refresh ?E ?s1 = (fst (directory_refresh ?E ?s1), ?s2)" by simp
  from pool_client_pinned [OF gc(1) this e] show ?thesis using url gc(2) by (simp add: Let_def)
qed

end
