(* ===== verification/Oidc.thy ===== *)
theory Oidc
  imports Security
begin

text \<open>
  The OIDC relying party (\<open>app/oidc.py\<close>): discovery, the authorization request, the code
  exchange, the refresh and the validation of an ID token.

  A deployment has at most two clients, one per plane, in two fields of the world; \<open>idp\<close> names
  the one meant. The JWT library (signature, audience, issuer and expiry) is the function
  \<open>jwt_decode\<close> of the surroundings, applied to the client's settings, the discovered metadata
  and the token; \<open>sha2\<close> is the SHA-2 family by digest size, on bytes. Results: no
  client runs on a plaintext issuer unless told to, the metadata in use is of the configured
  issuer, and claims are only accepted if they are bound to the login's nonce and to the
  access token they came with.
\<close>

section \<open>The two clients\<close>

datatype idp = TenantIdp | ProviderIdp

fun oidc_of :: "idp \<Rightarrow> world \<Rightarrow> oidc_client option" where
  "oidc_of TenantIdp s = oidc s"
| "oidc_of ProviderIdp s = provider_oidc s"

fun set_oidc :: "idp \<Rightarrow> oidc_client \<Rightarrow> world \<Rightarrow> world" where
  "set_oidc TenantIdp c s = s\<lparr>oidc := Some c\<rparr>"
| "set_oidc ProviderIdp c s = s\<lparr>provider_oidc := Some c\<rparr>"

definition starts_with :: "string \<Rightarrow> string \<Rightarrow> bool" where
  "starts_with p s = (take (length p) s = p)"

definition new_oidc_client :: "oidc_view \<Rightarrow> exc + oidc_client" where
  "new_oidc_client v =
     (if ov_issuer v = [] \<or> ov_client_id v = [] \<or> ov_redirect_url v = []
      then Inl (ValueError ''OIDC is enabled but OIDC_ISSUER, OIDC_CLIENT_ID and OIDC_REDIRECT_URL must all be set'')
      else if starts_with ''http://'' (py_lower (ov_issuer v)) \<and> \<not> ov_allow_plaintext v
      then Inl (ValueError (''OIDC_ISSUER is plaintext http ('' @ repr_str (ov_issuer v) @ '') - the authorization code, ''
        @ ''the token exchange and the IdP's signing keys would all cross the network ''
        @ ''unencrypted. Use https, or set OIDC_ALLOW_PLAINTEXT_ISSUER=true to accept that ''
        @ ''risk deliberately (lab and air-gapped deployments).''))
      else Inr \<lparr>oc_view = v, oc_meta = None\<rparr>)"

definition tenant_view :: "settings \<Rightarrow> oidc_view" where
  "tenant_view st = \<lparr>ov_issuer = oidc_issuer st, ov_client_id = oidc_client_id st,
     ov_client_secret = oidc_client_secret st, ov_redirect_url = oidc_redirect_url st,
     ov_scopes = oidc_scopes st, ov_allow_plaintext = oidc_allow_plaintext_issuer st\<rparr>"

definition provider_view :: "settings \<Rightarrow> oidc_view" where
  "provider_view st = \<lparr>ov_issuer = provider_oidc_issuer st, ov_client_id = provider_oidc_client_id st,
     ov_client_secret = provider_oidc_client_secret st, ov_redirect_url = provider_oidc_redirect_url st,
     ov_scopes = provider_oidc_scopes st, ov_allow_plaintext = oidc_allow_plaintext_issuer st\<rparr>"

definition oidc_for_provider :: "settings \<Rightarrow> exc + oidc_client" where
  "oidc_for_provider st =
     (if provider_oidc_issuer st = [] \<or> provider_oidc_client_id st = [] \<or> provider_oidc_redirect_url st = []
      then Inl (ValueError (''The provider plane is enabled but PROVIDER_OIDC_ISSUER, PROVIDER_OIDC_CLIENT_ID ''
        @ ''and PROVIDER_OIDC_REDIRECT_URL must all be set''))
      else new_oidc_client (provider_view st))"

section \<open>Discovery\<close>

definition plain_wire :: "string \<Rightarrow> string \<Rightarrow> wire" where
  "plain_wire meth url =
     \<lparr>w_method = meth, w_url = url, w_headers = [], w_json = None, w_form = [], w_basic = None\<rparr>"

text \<open>\<open>resp.json()\<close> where the code goes on with an object.\<close>

definition json_object :: "response \<Rightarrow> (world, dict) act" where
  "json_object resp =
     (case response_json resp of
        None \<Rightarrow> throw (ValueError ''response is not JSON'')
      | Some (JObj d) \<Rightarrow> ret d
      | Some _ \<Rightarrow> throw (PyError ''no attribute get''))"

definition raise_for_status :: "response \<Rightarrow> (world, unit) act" where
  "raise_for_status resp =
     (if 200 \<le> r_status resp \<and> r_status resp < 300 then ret () else throw (HTTPError ''status''))"

definition the_client :: "idp \<Rightarrow> (world, oidc_client) act" where
  "the_client p s =
     (case oidc_of p s of Some c \<Rightarrow> ret c s | None \<Rightarrow> throw (PyError ''no OIDC client'') s)"

definition declared_issuer :: "dict \<Rightarrow> string" where
  "declared_issuer meta = py_str (py_or (dict_get meta ''issuer'') (JStr ''''))"

definition accept_metadata :: "idp \<Rightarrow> oidc_client \<Rightarrow> dict \<Rightarrow> (world, dict) act" where
  "accept_metadata p c meta =
     (if \<not> truthy (dict_get meta ''authorization_endpoint'') \<or> \<not> truthy (dict_get meta ''token_endpoint'')
         \<or> \<not> truthy (dict_get meta ''jwks_uri'')
      then throw (OIDCError ''OIDC discovery document is missing required endpoints'')
      else if rstrip_slash (declared_issuer meta) \<noteq> rstrip_slash (ov_issuer (oc_view c))
      then throw (OIDCError (''OIDC discovery issuer mismatch: configured '' @ repr_str (ov_issuer (oc_view c))
        @ '', document declares '' @ repr_str (declared_issuer meta)
        @ ''. Refusing - the document must be served by the issuer it names (OIDC Discovery 1.0 '' @ [CHR 0xA7] @ ''4.3).''))
      else andthen (updating (set_oidc p (c\<lparr>oc_meta := Some meta\<rparr>))) (\<lambda>_. ret meta))"

definition discover :: "env \<Rightarrow> idp \<Rightarrow> (world, dict) act" where
  "discover E p =
     andthen (the_client p) (\<lambda>c.
       case oc_meta c of
         Some meta \<Rightarrow> ret meta
       | None \<Rightarrow>
           andthen (send E (plain_wire ''GET'' (rstrip_slash (ov_issuer (oc_view c)) @ ''/.well-known/openid-configuration''))) (\<lambda>resp.
           andthen (raise_for_status resp) (\<lambda>_.
           andthen (json_object resp) (accept_metadata p c))))"

section \<open>The authorization request\<close>

text \<open>\<open>quote_plus\<close>: the UTF-8 bytes outside the unreserved set become escapes, a blank a plus.\<close>

definition unreserved :: "char \<Rightarrow> bool" where
  "unreserved c = (48 \<le> code c \<and> code c \<le> 57 \<or> 65 \<le> code c \<and> code c \<le> 90 \<or> 97 \<le> code c \<and> code c \<le> 122
     \<or> c \<in> {CHR ''_'', CHR ''.'', CHR ''-'', CHR ''~''})"

definition upper_hex :: "nat \<Rightarrow> char" where
  "upper_hex d = (if d < 10 then char_of (48 + d) else char_of (55 + d))"

definition escape_byte :: "nat \<Rightarrow> string" where
  "escape_byte b = [CHR ''%'', upper_hex (b div 16), upper_hex (b mod 16)]"

definition quote_char :: "char \<Rightarrow> string" where
  "quote_char c =
     (if unreserved c then [c]
      else if code c < 128 then escape_byte (code c)
      else escape_byte (192 + code c div 64) @ escape_byte (128 + code c mod 64))"

definition quote_all :: "string \<Rightarrow> string" where
  "quote_all s = concat (map quote_char s)"

definition quote_plus :: "string \<Rightarrow> string" where
  "quote_plus s = concat (map (\<lambda>c. if c = CHR '' '' then ''+'' else quote_char c) s)"

definition urlencode :: "(string \<times> string) list \<Rightarrow> string" where
  "urlencode ps = join_with ''&'' (map (\<lambda>(k, v). quote_plus k @ ''='' @ quote_plus v) ps)"

definition split_blank :: "string \<Rightarrow> string list" where
  "split_blank s = filter (\<lambda>w. w \<noteq> []) (split_on (CHR '' '') (map (\<lambda>c. if is_space c then CHR '' '' else c) s))"

definition merged_scope :: "string \<Rightarrow> string list \<Rightarrow> string" where
  "merged_scope scope extra =
     (if extra = [] then scope
      else join_with '' '' (split_blank scope @ filter (\<lambda>x. x \<noteq> [] \<and> x \<notin> set (split_blank scope)) extra))"

record auth_request =
  ar_state :: string
  ar_nonce :: string
  ar_challenge :: string
  ar_acr_values :: "string option"
  ar_max_age :: "int option"
  ar_redirect_uri :: "string option"
  ar_extra_scopes :: "string list"

definition opt_text :: "string option \<Rightarrow> string \<Rightarrow> string" where
  "opt_text v dflt = (case v of Some (x # xs) \<Rightarrow> x # xs | _ \<Rightarrow> dflt)"

definition auth_params :: "oidc_view \<Rightarrow> auth_request \<Rightarrow> (string \<times> string) list" where
  "auth_params v a =
     [(''response_type'', ''code''), (''client_id'', ov_client_id v),
      (''redirect_uri'', opt_text (ar_redirect_uri a) (ov_redirect_url v)),
      (''scope'', merged_scope (ov_scopes v) (ar_extra_scopes a)),
      (''state'', ar_state a), (''nonce'', ar_nonce a),
      (''code_challenge'', ar_challenge a), (''code_challenge_method'', ''S256'')]
     @ (if opt_text (ar_acr_values a) '''' = [] then [] else [(''acr_values'', opt_text (ar_acr_values a) '''')])
     @ (case ar_max_age a of None \<Rightarrow> [] | Some n \<Rightarrow> [(''max_age'', show_int n)])"

definition authorization_url :: "env \<Rightarrow> idp \<Rightarrow> auth_request \<Rightarrow> (world, string) act" where
  "authorization_url E p a =
     andthen (discover E p) (\<lambda>meta.
     andthen (the_client p) (\<lambda>c.
       ret (py_str (dict_get meta ''authorization_endpoint'') @ ''?'' @ urlencode (auth_params (oc_view c) a))))"

section \<open>The token endpoint\<close>

definition token_wire :: "oidc_view \<Rightarrow> dict \<Rightarrow> (string \<times> string) list \<Rightarrow> wire" where
  "token_wire v meta form =
     \<lparr>w_method = ''POST'', w_url = py_str (dict_get meta ''token_endpoint''), w_headers = [], w_json = None,
      w_form = form,
      w_basic = (if ov_client_secret v = [] then None else Some (ov_client_id v, ov_client_secret v))\<rparr>"

definition exchange_code :: "env \<Rightarrow> idp \<Rightarrow> string \<Rightarrow> string \<Rightarrow> string option \<Rightarrow> (world, dict) act" where
  "exchange_code E p auth_code verifier redirect =
     andthen (discover E p) (\<lambda>meta.
     andthen (the_client p) (\<lambda>c.
     andthen (send E (token_wire (oc_view c) meta
       [(''grant_type'', ''authorization_code''), (''code'', auth_code),
        (''redirect_uri'', opt_text redirect (ov_redirect_url (oc_view c))),
        (''client_id'', ov_client_id (oc_view c)), (''code_verifier'', verifier)])) (\<lambda>resp.
       if r_status resp \<noteq> 200 then throw (OIDCError ''token endpoint returned an error'')
       else andthen (json_object resp) (\<lambda>tokens.
         if \<not> truthy (dict_get tokens ''id_token'') then throw (OIDCError ''token response has no id_token'')
         else ret tokens))))"

text \<open>The refreshed token set is whatever JSON came back.\<close>

definition refresh_tokens :: "env \<Rightarrow> idp \<Rightarrow> string \<Rightarrow> (world, json) act" where
  "refresh_tokens E p refresh_token =
     andthen (discover E p) (\<lambda>meta.
     andthen (the_client p) (\<lambda>c.
     andthen (send E (token_wire (oc_view c) meta
       [(''grant_type'', ''refresh_token''), (''refresh_token'', refresh_token),
        (''client_id'', ov_client_id (oc_view c))])) (\<lambda>resp.
       if r_status resp \<noteq> 200 then throw (OIDCError ''refresh_token grant returned an error'')
       else (case response_json resp of
               None \<Rightarrow> throw (ValueError ''response is not JSON'')
             | Some v \<Rightarrow> ret v))))"

section \<open>Hashes as text\<close>

text \<open>URL-safe base64 without padding.\<close>

definition b64_char :: "nat \<Rightarrow> char" where
  "b64_char n =
     (if n < 26 then char_of (65 + n) else if n < 52 then char_of (71 + n) else if n < 62 then char_of (n - 4)
      else if n = 62 then CHR ''-'' else CHR ''_'')"

fun b64url :: "string \<Rightarrow> string" where
  "b64url [] = []"
| "b64url [a] = [b64_char (code a div 4), b64_char (code a mod 4 * 16)]"
| "b64url [a, b] = [b64_char (code a div 4), b64_char (code a mod 4 * 16 + code b div 16), b64_char (code b mod 16 * 4)]"
| "b64url (a # b # c # rest) =
     b64_char (code a div 4) # b64_char (code a mod 4 * 16 + code b div 16)
       # b64_char (code b mod 16 * 4 + code c div 64) # b64_char (code c mod 64) # b64url rest"

definition left_half :: "string \<Rightarrow> string" where
  "left_half digest = take (length digest div 2) digest"

text \<open>Random bytes are drawn as the text they become.\<close>

definition make_pkce_pair :: "env \<Rightarrow> (world, string \<times> string) act" where
  "make_pkce_pair E = andthen (draw E) (\<lambda>verifier. ret (verifier, b64url (sha2 E ''256'' verifier)))"

section \<open>The ID token\<close>

definition at_hash_matches :: "env \<Rightarrow> string \<Rightarrow> json \<Rightarrow> json \<Rightarrow> exc + bool" where
  "at_hash_matches E alg access_token expected =
     (let bits = drop (length alg - 3) alg in
      if bits \<notin> {''256'', ''384'', ''512''} then Inr False
      else (case (access_token, expected) of
              (JStr t, JStr e) \<Rightarrow>
                (if is_ascii t then compare_digest (b64url (left_half (sha2 E bits t))) e else Inl (ValueError ''ascii''))
            | _ \<Rightarrow> Inl (PyError ''not a string'')))"

definition lift_result :: "exc + 'a \<Rightarrow> (world, 'a) act" where
  "lift_result r = (case r of Inl e \<Rightarrow> throw e | Inr x \<Rightarrow> ret x)"

definition check_claims :: "env \<Rightarrow> string \<Rightarrow> json \<Rightarrow> json \<Rightarrow> dict \<Rightarrow> (world, dict) act" where
  "check_claims E id_token nonce access_token claims =
     (if dict_get claims ''nonce'' \<noteq> nonce then throw (OIDCError ''id_token nonce mismatch'')
      else if truthy (dict_get claims ''at_hash'') \<and> truthy access_token
      then andthen (lift_result (at_hash_matches E (jwt_alg E id_token) access_token (dict_get claims ''at_hash''))) (\<lambda>ok.
             if ok then ret claims else throw (OIDCError ''id_token at_hash does not match access_token''))
      else ret claims)"

definition validate_id_token :: "env \<Rightarrow> idp \<Rightarrow> json \<Rightarrow> json \<Rightarrow> json \<Rightarrow> (world, dict) act" where
  "validate_id_token E p id_token nonce access_token =
     andthen (discover E p) (\<lambda>meta.
     andthen (the_client p) (\<lambda>c.
     andthen (tick (\<lambda>n. n)) (\<lambda>now.
       case jwt_decode E now (oc_view c) meta (py_str id_token) of
         Inl why \<Rightarrow> throw (OIDCError (''id_token validation failed: '' @ why))
       | Inr claims \<Rightarrow> check_claims E (py_str id_token) nonce access_token claims)))"

definition end_session_url :: "env \<Rightarrow> idp \<Rightarrow> string \<Rightarrow> string option \<Rightarrow> (world, string option) act" where
  "end_session_url E p id_token_hint post_logout =
     andthen (discover E p) (\<lambda>meta.
       if \<not> truthy (dict_get meta ''end_session_endpoint'') then ret None
       else ret (Some (py_str (dict_get meta ''end_session_endpoint'') @ ''?''
              @ urlencode ((''id_token_hint'', id_token_hint)
                  # (if opt_text post_logout '''' = [] then [] else [(''post_logout_redirect_uri'', opt_text post_logout '''')])))))"

section \<open>What an operation may change\<close>

text \<open>Everything but the client's discovered metadata, the clocks and the outbound requests.\<close>

definition idp_frame :: "world \<Rightarrow> world \<Rightarrow> bool" where
  "idp_frame s s' \<longleftrightarrow> s' = s\<lparr>ticks := ticks s', trace := trace s', oidc := oidc s', provider_oidc := provider_oidc s'\<rparr>
     \<and> map_option oc_view (oidc s') = map_option oc_view (oidc s)
     \<and> map_option oc_view (provider_oidc s') = map_option oc_view (provider_oidc s)"

interpretation idp_frame: step_order idp_frame
proof
  show "idp_frame s s" for s by (simp add: idp_frame_def)
  show "idp_frame s u" if "idp_frame s t" "idp_frame t u" for s t u
    using that by (cases s; cases t; cases u) (simp add: idp_frame_def)
qed

lemma idp_frame_fields:
  assumes "idp_frame s s'"
  shows "store s' = store s" and "cookie s' = cookie s" and "cached s' = cached s" and "rid s' = rid s"
    and "draws s' = draws s" and "directory s' = directory s" and "pool s' = pool s" and "audit s' = audit s"
    and "throttle_state s' = throttle_state s" and "sink s' = sink s" and "catalog s' = catalog s"
  using assms by (cases s; cases s'; simp add: idp_frame_def)+

lemma oidc_of_set_oidc: "oidc_of q (set_oidc p c s) = (if q = p then Some c else oidc_of q s)"
  by (cases p; cases q) simp_all

lemma idp_frame_set: "oidc_of p s = Some c0 \<Longrightarrow> oc_view c = oc_view c0 \<Longrightarrow> idp_frame s (set_oidc p c s)"
  by (cases p) (auto simp: idp_frame_def)

lemma idp_frame_send [stable_intros]: "stable idp_frame (send E w)"
  unfolding stable_def idp_frame_def send_def
  by (auto split: sum.split)

lemma idp_frame_tick [stable_intros]: "stable idp_frame (tick f)"
  unfolding stable_def idp_frame_def tick_def
  by auto

lemma the_client_run: "the_client p s = (case oidc_of p s of Some c \<Rightarrow> (Inr c, s) | None \<Rightarrow> (Inl (PyError ''no OIDC client''), s))"
  by (simp add: the_client_def act_simps split: option.split)

lemma idp_frame_the_client [stable_intros]: "stable idp_frame (the_client p)"
  by (simp add: stable_def the_client_run idp_frame.R_refl split: option.split)

lemma idp_frame_json_object [stable_intros]: "stable idp_frame (json_object resp)"
  by (auto simp: json_object_def stable_def act_simps idp_frame.R_refl split: option.split json.split)

lemma idp_frame_raise_for_status [stable_intros]: "stable idp_frame (raise_for_status resp)"
  by (auto simp: raise_for_status_def stable_def act_simps idp_frame.R_refl)

text \<open>The metadata in use is of the issuer the client is configured with.\<close>

definition pinned :: "oidc_client \<Rightarrow> bool" where
  "pinned c = (case oc_meta c of None \<Rightarrow> True
     | Some meta \<Rightarrow> rstrip_slash (declared_issuer meta) = rstrip_slash (ov_issuer (oc_view c)))"

definition all_pinned :: "world \<Rightarrow> bool" where
  "all_pinned s \<longleftrightarrow> pred_option pinned (oidc s) \<and> pred_option pinned (provider_oidc s)"

lemma new_oidc_client_pinned: "new_oidc_client v = Inr c \<Longrightarrow> pinned c"
  by (auto simp: new_oidc_client_def pinned_def split: if_splits)

lemma all_pinned_of: "all_pinned s \<Longrightarrow> oidc_of p s = Some c \<Longrightarrow> pinned c"
  by (cases p) (auto simp: all_pinned_def)

lemma all_pinned_set: "all_pinned s \<Longrightarrow> pinned c \<Longrightarrow> all_pinned (set_oidc p c s)"
  by (cases p) (auto simp: all_pinned_def)

lemma discover_run:
  assumes "discover E p s = (r, s')"
  shows "idp_frame s s'" and "all_pinned s \<Longrightarrow> all_pinned s'"
    and "r = Inr meta \<Longrightarrow> \<exists>c. oidc_of p s' = Some c \<and> oc_meta c = Some meta"
    and "length (trace s') \<le> length (trace s) + 1"
proof -
  consider (none) "oidc_of p s = None" | (known) c m where "oidc_of p s = Some c" "oc_meta c = Some m"
    | (fetch) c where "oidc_of p s = Some c" "oc_meta c = None" by (cases "oidc_of p s") auto
  then have "idp_frame s s' \<and> (all_pinned s \<longrightarrow> all_pinned s')
    \<and> (\<forall>meta. r = Inr meta \<longrightarrow> (\<exists>c. oidc_of p s' = Some c \<and> oc_meta c = Some meta))
    \<and> length (trace s') \<le> length (trace s) + 1"
  proof cases
    case none
    then show ?thesis using assms by (auto simp: discover_def the_client_run act_simps idp_frame.R_refl)
  next
    case known
    then show ?thesis using assms by (auto simp: discover_def the_client_run act_simps idp_frame.R_refl)
  next
    case fetch
    let ?w = "plain_wire ''GET'' (rstrip_slash (ov_issuer (oc_view c)) @ ''/.well-known/openid-configuration'')"
    obtain a s1 where a: "send E ?w s = (a, s1)" by (cases "send E ?w s")
    have f: "idp_frame s s1" using stableD [OF idp_frame_send a] .
    have same: "oidc s1 = oidc s" "provider_oidc s1 = provider_oidc s" "length (trace s1) = length (trace s) + 1"
      using a by (auto simp: send_def split: sum.splits)
    have known: "oidc_of p s1 = Some c" using fetch same by (cases p) simp_all
    have pin: "all_pinned s1 = all_pinned s" by (simp only: all_pinned_def same)
    have tr: "trace (set_oidc p c' s1) = trace s1" for c' by (cases p) simp_all
    have cases: "s' = s1 \<and> (\<forall>m. r \<noteq> Inr m) \<or> (\<exists>m. s' = set_oidc p (c\<lparr>oc_meta := Some m\<rparr>) s1 \<and> r = Inr m
        \<and> rstrip_slash (declared_issuer m) = rstrip_slash (ov_issuer (oc_view c)))"
      using assms fetch a
      by (auto simp: discover_def the_client_run act_simps raise_for_status_def json_object_def accept_metadata_def
          split: sum.splits if_splits option.splits json.splits)
    then show ?thesis
    proof
      assume "s' = s1 \<and> (\<forall>m. r \<noteq> Inr m)"
      then show ?thesis using f pin same by auto
    next
      assume "\<exists>m. s' = set_oidc p (c\<lparr>oc_meta := Some m\<rparr>) s1 \<and> r = Inr m
        \<and> rstrip_slash (declared_issuer m) = rstrip_slash (ov_issuer (oc_view c))"
      then obtain m where m: "s' = set_oidc p (c\<lparr>oc_meta := Some m\<rparr>) s1" "r = Inr m"
        "rstrip_slash (declared_issuer m) = rstrip_slash (ov_issuer (oc_view c))" by blast
      have "idp_frame s1 s'" using idp_frame_set [OF known] m(1) by simp
      then have "idp_frame s s'" using f idp_frame.R_trans by blast
      moreover have "all_pinned s \<longrightarrow> all_pinned s'"
        using all_pinned_set [of s1 "c\<lparr>oc_meta := Some m\<rparr>" p] pin m by (simp add: pinned_def)
      ultimately show ?thesis using m same tr by (simp add: oidc_of_set_oidc)
    qed
  qed
  then show "idp_frame s s'" and "all_pinned s \<Longrightarrow> all_pinned s'"
    and "r = Inr meta \<Longrightarrow> \<exists>c. oidc_of p s' = Some c \<and> oc_meta c = Some meta"
    and "length (trace s') \<le> length (trace s) + 1" by auto
qed

lemma idp_frame_discover [stable_intros]: "stable idp_frame (discover E p)"
  unfolding stable_def by (metis discover_run(1) prod.collapse)

lemma idp_frame_lift_result [stable_intros]: "stable idp_frame (lift_result x)"
  by (simp add: stable_def lift_result_def act_simps idp_frame.R_refl split: sum.split)

lemma idp_frame_exchange_code [stable_intros]: "stable idp_frame (exchange_code E p c v redirect)"
  unfolding exchange_code_def by (intro idp_frame.stable_combinators stable_intros)

lemma idp_frame_refresh_tokens [stable_intros]: "stable idp_frame (refresh_tokens E p t)"
  unfolding refresh_tokens_def
  by (intro idp_frame.stable_combinators stable_intros) (auto intro: idp_frame.stable_combinators split: option.split)

lemma idp_frame_check_claims [stable_intros]: "stable idp_frame (check_claims E t n a c)"
  unfolding check_claims_def by (intro idp_frame.stable_combinators stable_intros)

lemma idp_frame_validate_id_token [stable_intros]: "stable idp_frame (validate_id_token E p t n a)"
  unfolding validate_id_token_def
  by (intro idp_frame.stable_combinators stable_intros)
    (auto intro: idp_frame.stable_combinators stable_intros split: sum.split)

lemma idp_frame_authorization_url [stable_intros]: "stable idp_frame (authorization_url E p a)"
  unfolding authorization_url_def by (intro idp_frame.stable_combinators stable_intros)

lemma idp_frame_end_session_url [stable_intros]: "stable idp_frame (end_session_url E p h u)"
  unfolding end_session_url_def by (intro idp_frame.stable_combinators stable_intros)

section \<open>How many requests an operation makes\<close>

lemma sends_discover: "sends 1 (discover E p)"
  unfolding sends_def by (metis discover_run(4) prod.collapse)

lemma silent_the_client [stable_intros]: "stable silent (the_client p)"
  by (simp add: stable_def the_client_run silent_def split: option.split)

lemma silent_json_object [stable_intros]: "stable silent (json_object resp)"
  by (auto simp: json_object_def stable_def act_simps silent_def split: option.split json.split)

lemma silent_check_claims [stable_intros]: "stable silent (check_claims E t n a c)"
  by (auto simp: check_claims_def stable_def act_simps silent_def lift_result_def split: sum.split prod.split)

lemma sends_then_post: "sends 1 (andthen (send E w) k)" if "\<And>r. stable silent (k r)"
  by (rule sends_andthen [OF sends_send sends_silent [OF that]]) simp

lemma sends_refresh_tokens: "sends 2 (refresh_tokens E p t)"
  unfolding refresh_tokens_def
  by (intro sends_andthen [OF sends_discover, where b = 1] sends_andthen [OF sends_silent, where b = 1] sends_then_post silent_the_client)
    (auto intro!: silent.stable_combinators split: option.split)

lemma sends_exchange_code: "sends 2 (exchange_code E p c v redirect)"
  unfolding exchange_code_def
  by (intro sends_andthen [OF sends_discover, where b = 1] sends_andthen [OF sends_silent, where b = 1] sends_then_post silent_the_client)
    (auto intro!: silent.stable_combinators stable_intros)

lemma sends_validate_id_token: "sends 1 (validate_id_token E p t n a)"
  unfolding validate_id_token_def
  by (intro sends_andthen [OF sends_discover, where b = 0] sends_silent silent.stable_combinators stable_intros)
    (auto intro: silent.stable_combinators stable_intros split: sum.split)

section \<open>The issuer in use\<close>

definition keeps_pinned :: "world \<Rightarrow> world \<Rightarrow> bool" where
  "keeps_pinned s s' \<longleftrightarrow> (all_pinned s \<longrightarrow> all_pinned s')"

interpretation keeps_pinned: step_order keeps_pinned
  by unfold_locales (auto simp: keeps_pinned_def)

lemma keeps_pinned_discover [stable_intros]: "stable keeps_pinned (discover E p)"
  unfolding stable_def keeps_pinned_def by (metis discover_run(2) prod.collapse)

lemma keeps_pinned_same: "stable (\<lambda>s s'. oidc s' = oidc s \<and> provider_oidc s' = provider_oidc s) m \<Longrightarrow> stable keeps_pinned m"
  by (simp add: stable_def keeps_pinned_def all_pinned_def)

lemma keeps_pinned_send [stable_intros]: "stable keeps_pinned (send E w)"
  by (rule keeps_pinned_same) (simp add: stable_def send_def split: sum.split)

lemma keeps_pinned_tick [stable_intros]: "stable keeps_pinned (tick f)"
  by (rule keeps_pinned_same) (simp add: stable_def tick_def)

lemma keeps_pinned_the_client [stable_intros]: "stable keeps_pinned (the_client p)"
  by (rule keeps_pinned_same) (simp add: stable_def the_client_run split: option.split)

lemma keeps_pinned_json_object [stable_intros]: "stable keeps_pinned (json_object resp)"
  by (rule keeps_pinned_same) (auto simp: json_object_def stable_def act_simps split: option.split json.split)

lemma keeps_pinned_check_claims [stable_intros]: "stable keeps_pinned (check_claims E t n a c)"
  by (rule keeps_pinned_same)
    (auto simp: check_claims_def stable_def act_simps lift_result_def split: sum.split prod.split)

lemma keeps_pinned_exchange_code [stable_intros]: "stable keeps_pinned (exchange_code E p c v redirect)"
  unfolding exchange_code_def by (intro keeps_pinned.stable_combinators stable_intros)

lemma keeps_pinned_refresh_tokens [stable_intros]: "stable keeps_pinned (refresh_tokens E p t)"
  unfolding refresh_tokens_def
  by (intro keeps_pinned.stable_combinators stable_intros) (auto intro: keeps_pinned.stable_combinators split: option.split)

lemma keeps_pinned_validate_id_token [stable_intros]: "stable keeps_pinned (validate_id_token E p t n a)"
  unfolding validate_id_token_def
  by (intro keeps_pinned.stable_combinators stable_intros)
    (auto intro: keeps_pinned.stable_combinators stable_intros split: sum.split)

lemma discover_view:
  assumes "discover E p s = (Inr meta, s')" and "oidc_of p s = Some c"
  shows "oidc_of p s' = Some (c\<lparr>oc_meta := Some meta\<rparr>)"
proof -
  obtain c' where c': "oidc_of p s' = Some c'" "oc_meta c' = Some meta"
    using discover_run(3) [OF assms(1)] by blast
  have "idp_frame s s'" using discover_run(1) [OF assms(1)] .
  then have "oc_view c' = oc_view c" using c'(1) assms(2) by (cases p) (auto simp: idp_frame_def)
  then show ?thesis using c' by (cases c'; cases c) simp
qed

text \<open>Whatever a discovery document says, the metadata a client goes on with declares the issuer
  the client is configured with, up to a trailing slash; a document that declares another one
  is never kept.\<close>

theorem issuer_pinned:
  assumes "all_pinned s" and "oidc_of p s = Some c" and "discover E p s = (Inr meta, s')"
  shows "rstrip_slash (declared_issuer meta) = rstrip_slash (ov_issuer (oc_view c))
    \<and> oidc_of p s' = Some (c\<lparr>oc_meta := Some meta\<rparr>) \<and> all_pinned s'
    \<and> length (trace s') \<le> length (trace s) + 1"
proof -
  have of: "oidc_of p s' = Some (c\<lparr>oc_meta := Some meta\<rparr>)" using discover_view [OF assms(3,2)] .
  have pin: "all_pinned s'" using discover_run(2) [OF assms(3,1)] .
  show ?thesis
    using all_pinned_of [OF pin of] of pin discover_run(4) [OF assms(3)] by (simp add: pinned_def)
qed

section \<open>What an accepted ID token is bound to\<close>

text \<open>
  What the JWT library promises of an accepted token: its issuer is the one it was asked for,
  and its audience names the client.
\<close>

definition names_audience :: "json \<Rightarrow> string \<Rightarrow> bool" where
  "names_audience aud client = (aud = JStr client \<or> (\<exists>xs. aud = JList xs \<and> JStr client \<in> set xs))"

definition jwt_checks :: "env \<Rightarrow> bool" where
  "jwt_checks E \<longleftrightarrow> (\<forall>n v meta t claims i.
     jwt_decode E n v meta t = Inr claims \<longrightarrow> dict_get meta ''issuer'' = JStr i \<longrightarrow>
       dict_get claims ''iss'' = JStr i \<and> names_audience (dict_get claims ''aud'') (ov_client_id v))"

lemma check_claims_accepts:
  "check_claims E t nonce acc claims s = (Inr res, s') \<longleftrightarrow>
     res = claims \<and> s' = s \<and> dict_get claims ''nonce'' = nonce
     \<and> (truthy (dict_get claims ''at_hash'') \<and> truthy acc \<longrightarrow>
          at_hash_matches E (jwt_alg E t) acc (dict_get claims ''at_hash'') = Inr True)"
  by (auto simp: check_claims_def act_simps lift_result_def split: sum.splits)

lemma at_hash_matches_exact:
  "at_hash_matches E alg acc expected = Inr True \<Longrightarrow>
     drop (length alg - 3) alg \<in> {''256'', ''384'', ''512''}
     \<and> (\<exists>t. acc = JStr t \<and> expected = JStr (b64url (left_half (sha2 E (drop (length alg - 3) alg) t))))"
  by (auto simp: at_hash_matches_def Let_def compare_digest_def split: if_splits json.splits)

text \<open>C13. Claims are accepted only if the JWT library accepted the token against metadata of the
  configured issuer (so that issuer and audience are this client's), they carry the nonce of
  this login, and, when they carry the hash of an access token and one came with them, it is
  the hash of that access token.\<close>

theorem id_token_bound:
  assumes "jwt_checks E" and "all_pinned s" and "oidc_of p s = Some c"
    and "validate_id_token E p tok nonce acc s = (Inr claims, s')"
  shows "\<exists>meta n. rstrip_slash (declared_issuer meta) = rstrip_slash (ov_issuer (oc_view c))
      \<and> jwt_decode E n (oc_view c) meta (py_str tok) = Inr claims
      \<and> (is_str (dict_get meta ''issuer'') \<longrightarrow>
           rstrip_slash (py_str (dict_get claims ''iss'')) = rstrip_slash (ov_issuer (oc_view c))
           \<and> names_audience (dict_get claims ''aud'') (ov_client_id (oc_view c)))
      \<and> dict_get claims ''nonce'' = nonce
      \<and> (if truthy (dict_get claims ''at_hash'') \<and> truthy acc
         then \<exists>bits t. bits \<in> {''256'', ''384'', ''512''} \<and> acc = JStr t
                \<and> dict_get claims ''at_hash'' = JStr (b64url (left_half (sha2 E bits t)))
         else True)"
proof -
  obtain meta s1 where d: "discover E p s = (Inr meta, s1)"
    using assms(4) by (auto simp: validate_id_token_def act_simps split: prod.splits sum.splits)
  have of: "oidc_of p s1 = Some (c\<lparr>oc_meta := Some meta\<rparr>)" using discover_view [OF d assms(3)] .
  have iss: "rstrip_slash (declared_issuer meta) = rstrip_slash (ov_issuer (oc_view c))"
    using issuer_pinned [OF assms(2,3) d] by blast
  have jwt: "jwt_decode E (ticks s1) (oc_view c) meta (py_str tok) = Inr claims"
    and chk: "dict_get claims ''nonce'' = nonce"
      "truthy (dict_get claims ''at_hash'') \<and> truthy acc \<longrightarrow>
          at_hash_matches E (jwt_alg E (py_str tok)) acc (dict_get claims ''at_hash'') = Inr True"
    using assms(4) d of
    by (auto simp: validate_id_token_def act_simps the_client_run tick_def check_claims_accepts split: sum.splits)
  have "is_str (dict_get meta ''issuer'') \<longrightarrow>
      rstrip_slash (py_str (dict_get claims ''iss'')) = rstrip_slash (ov_issuer (oc_view c))
      \<and> names_audience (dict_get claims ''aud'') (ov_client_id (oc_view c))"
  proof
    assume "is_str (dict_get meta ''issuer'')"
    then obtain i where i: "dict_get meta ''issuer'' = JStr i" by (auto simp: is_str_iff)
    have *: "dict_get claims ''iss'' = JStr i" "names_audience (dict_get claims ''aud'') (ov_client_id (oc_view c))"
      using assms(1) jwt i unfolding jwt_checks_def by blast+
    moreover have "declared_issuer meta = i" by (simp add: declared_issuer_def i py_or_def)
    ultimately show "rstrip_slash (py_str (dict_get claims ''iss'')) = rstrip_slash (ov_issuer (oc_view c))
      \<and> names_audience (dict_get claims ''aud'') (ov_client_id (oc_view c))" using iss by simp
  qed
  moreover have "if truthy (dict_get claims ''at_hash'') \<and> truthy acc
         then \<exists>bits t. bits \<in> {''256'', ''384'', ''512''} \<and> acc = JStr t
                \<and> dict_get claims ''at_hash'' = JStr (b64url (left_half (sha2 E bits t))) else True"
    using chk(2) at_hash_matches_exact [of E "jwt_alg E (py_str tok)" acc "dict_get claims ''at_hash''"] by auto
  ultimately show ?thesis using iss jwt chk(1) by blast
qed

section \<open>At concrete inputs\<close>

definition demo_discovery :: string where
  "demo_discovery = json_dumps (JObj [(''issuer'', JStr ''https://idp/''), (''authorization_endpoint'', JStr ''https://idp/auth''),
     (''token_endpoint'', JStr ''https://idp/token''), (''jwks_uri'', JStr ''https://idp/keys'')])"

definition demo_idp_env :: env where
  "demo_idp_env = (demo_env (answer 200 demo_discovery))\<lparr>jwt_decode := \<lambda>n v meta t. Inr
     [(''iss'', dict_get meta ''issuer''), (''aud'', JStr (ov_client_id v)), (''sub'', JStr ''alice''),
      (''nonce'', JStr ''n1''), (''at_hash'', JStr ''dG9r'')]\<rparr>"

lemma demo_jwt_checks: "jwt_checks demo_idp_env"
  by (simp add: jwt_checks_def demo_idp_env_def names_audience_def)

lemma demo_all_pinned: "all_pinned (demo_world ck ss)"
  by (simp add: all_pinned_def demo_world_def pinned_def)

lemma demo_oidc_of: "oidc_of TenantIdp (demo_world ck ss) = Some \<lparr>oc_view = demo_view, oc_meta = None\<rparr>"
  by (simp add: demo_world_def)

theorem issuer_pinned_witness:
  "case fst (discover demo_idp_env TenantIdp (demo_world [] [])) of
     Inr meta \<Rightarrow> declared_issuer meta = ''https://idp/'' \<and> rstrip_slash (declared_issuer meta) = ''https://idp''
   | Inl e \<Rightarrow> False"
proof -
  let ?run = "discover demo_idp_env TenantIdp (demo_world [] [])"
  have d: "(case fst ?run of Inr meta \<Rightarrow> declared_issuer meta | Inl e \<Rightarrow> []) = ''https://idp/''" by code_simp
  then obtain meta where f: "fst ?run = Inr meta" and m: "declared_issuer meta = ''https://idp/''"
    by (cases "fst ?run") auto
  then have run: "?run = (Inr meta, snd ?run)" by (metis prod.collapse)
  have "rstrip_slash (ov_issuer demo_view) = ''https://idp''" by code_simp
  then show ?thesis
    unfolding f using issuer_pinned [OF demo_all_pinned demo_oidc_of run] m by simp
qed

theorem id_token_bound_witness:
  "case fst (validate_id_token demo_idp_env TenantIdp (JStr ''jwt'') (JStr ''n1'') (JStr ''tok'') (demo_world [] [])) of
     Inr claims \<Rightarrow> rstrip_slash (py_str (dict_get claims ''iss'')) = ''https://idp'' \<and> dict_get claims ''nonce'' = JStr ''n1''
   | Inl e \<Rightarrow> False"
proof -
  let ?run = "validate_id_token demo_idp_env TenantIdp (JStr ''jwt'') (JStr ''n1'') (JStr ''tok'') (demo_world [] [])"
  have "(case fst ?run of Inr claims \<Rightarrow> dict_get claims ''iss'' | Inl e \<Rightarrow> JNull) = JStr ''https://idp/''" by code_simp
  then obtain claims where f: "fst ?run = Inr claims" and c: "dict_get claims ''iss'' = JStr ''https://idp/''"
    by (cases "fst ?run") auto
  then have run: "?run = (Inr claims, snd ?run)" by (metis prod.collapse)
  have "rstrip_slash ''https://idp/'' = ''https://idp''" by code_simp
  then show ?thesis
    unfolding f using id_token_bound [OF demo_jwt_checks demo_all_pinned demo_oidc_of run] c by auto
qed

section \<open>The query string\<close>

text \<open>
  An escape is an alphabet of its own: neither \<open>&\<close> nor \<open>=\<close> occurs in a quoted text, and the
  quoted text determines the original, so no parameter value can add or change another one.
\<close>

definition quoted_char :: "char \<Rightarrow> string" where
  "quoted_char c = (if c = CHR '' '' then ''+'' else quote_char c)"

lemma quote_plus_quoted: "quote_plus s = concat (map quoted_char s)"
  by (simp add: quote_plus_def quoted_char_def [abs_def])

lemma code_upper_hex: "d < 16 \<Longrightarrow> code (upper_hex d) = (if d < 10 then 48 + d else 55 + d)"
  by (simp add: upper_hex_def)

lemma upper_hex_inject: "d < 16 \<Longrightarrow> e < 16 \<Longrightarrow> upper_hex d = upper_hex e \<Longrightarrow> d = e"
  by (drule arg_cong [where f = code]) (simp add: code_upper_hex split: if_splits)

lemma escape_byte_inject:
  assumes "a < 256" and "b < 256" and "escape_byte a @ r = escape_byte b @ r'" shows "a = b \<and> r = r'"
proof -
  have "a div 16 = b div 16" using assms by (intro upper_hex_inject) (auto simp: escape_byte_def)
  moreover have "a mod 16 = b mod 16" using assms(3) by (intro upper_hex_inject) (auto simp: escape_byte_def)
  ultimately have "a = b" by (metis div_mult_mod_eq)
  then show ?thesis using assms(3) by (simp add: escape_byte_def)
qed

lemma upper_hex_safe: "d < 16 \<Longrightarrow> upper_hex d \<notin> {CHR ''&'', CHR ''=''}"
proof
  assume d: "d < 16" and u: "upper_hex d \<in> {CHR ''&'', CHR ''=''}"
  from u have "code (upper_hex d) \<in> {38, 61}" by auto
  then show False using code_upper_hex [OF d] d by (auto split: if_splits)
qed

lemma escape_byte_safe:
  assumes "b < 256" and "c \<in> {CHR ''&'', CHR ''=''}" shows "c \<notin> set (escape_byte b)"
proof -
  have "b div 16 < 16" "b mod 16 < 16" using assms(1) by (auto simp: less_mult_imp_div_less)
  from upper_hex_safe [OF this(1)] upper_hex_safe [OF this(2)] show ?thesis
    using assms(2) by (auto simp: escape_byte_def)
qed

lemma utf8_bytes: "192 + code x div 64 < 256" "128 + code x mod 64 < 256"
proof -
  have "code x < 64 * 64" using nat_of_char_less_256 [of x] by linarith
  then have "code x div 64 < 64" by (rule less_mult_imp_div_less)
  then show "192 + code x div 64 < 256" by simp
qed simp

lemma quoted_char_safe: "c \<in> {CHR ''&'', CHR ''=''} \<Longrightarrow> c \<notin> set (quoted_char x)"
proof -
  assume c: "c \<in> {CHR ''&'', CHR ''=''}"
  have "c \<noteq> x" if "unreserved x" using that c by (auto simp: unreserved_def)
  moreover have "c \<noteq> CHR ''+''" using c by auto
  ultimately show ?thesis
    using escape_byte_safe [OF _ c] nat_of_char_less_256 [of x] utf8_bytes [of x]
    by (auto simp: quoted_char_def quote_char_def)
qed

text \<open>The first code point of a quoted text tells which kind of quoting was used.\<close>

definition quote_kind :: "char \<Rightarrow> nat" where
  "quote_kind c = (if c = CHR '' '' then 0 else if unreserved c then 1 else 2)"

lemma quoted_char_kind:
  "hd (quoted_char c @ r) = (if quote_kind c = 0 then CHR ''+'' else if quote_kind c = 1 then c else CHR ''%'')"
  by (auto simp: quoted_char_def quote_kind_def quote_char_def escape_byte_def)

lemma quoted_escape:
  "quote_kind c = 2 \<Longrightarrow> quoted_char c @ r =
     (if code c < 128 then escape_byte (code c) @ r
      else escape_byte (192 + code c div 64) @ (escape_byte (128 + code c mod 64) @ r))"
  by (auto simp: quoted_char_def quote_kind_def quote_char_def split: if_splits)

lemma quoted_char_inject:
  assumes "quoted_char c @ r = quoted_char d @ r'" shows "c = d \<and> r = r'"
proof -
  have un: "\<not> unreserved (CHR ''+'')" "\<not> unreserved (CHR ''%'')" by code_simp+
  have k1: "quote_kind x = 1 \<Longrightarrow> unreserved x" for x by (auto simp: quote_kind_def split: if_splits)
  have k3: "quote_kind x \<in> {0, 1, 2}" for x by (simp add: quote_kind_def)
  have h: "hd (quoted_char c @ r) = hd (quoted_char d @ r')" using assms by simp
  have kind: "quote_kind c = quote_kind d"
  proof -
    consider "quote_kind c = 0" | "quote_kind c = 1" | "quote_kind c = 2" using k3 [of c] by auto
    then show ?thesis
      using h un k1 [of c] k1 [of d] k3 [of d] unfolding quoted_char_kind by cases (auto split: if_splits)
  qed
  show ?thesis
  proof (cases "quote_kind c = 2")
    case False
    then have "c = d" using h kind k3 [of c] unfolding quoted_char_kind by (auto simp: quote_kind_def split: if_splits)
    then show ?thesis using assms by simp
  next
    case True
    then have e: "(if code c < 128 then escape_byte (code c) @ r
        else escape_byte (192 + code c div 64) @ (escape_byte (128 + code c mod 64) @ r)) =
      (if code d < 128 then escape_byte (code d) @ r'
        else escape_byte (192 + code d div 64) @ (escape_byte (128 + code d mod 64) @ r'))"
      using assms kind by (simp only: quoted_escape [symmetric])
    let ?b = "\<lambda>x. if code x < 128 then code x else 192 + code x div 64"
    have small: "?b x < 256" for x using utf8_bytes [of x] by auto
    have first: "?b c = ?b d"
    proof -
      have "\<exists>y. quoted_char x @ q = escape_byte (?b x) @ y" if "quote_kind x = 2" for x q
        unfolding quoted_escape [OF that] by auto
      then obtain y z where "quoted_char c @ r = escape_byte (?b c) @ y" "quoted_char d @ r' = escape_byte (?b d) @ z"
        using True kind by metis
      then have "escape_byte (?b c) @ y = escape_byte (?b d) @ z" using assms by metis
      then show ?thesis using escape_byte_inject [OF small small] by blast
    qed
    show ?thesis
    proof (cases "code c < 128")
      case True
      then have "code d < 128" using first by (auto split: if_splits)
      moreover have "code c = code d" using True calculation first by simp
      ultimately show ?thesis using e True by simp
    next
      case False
      then have d: "\<not> code d < 128" using first by (auto split: if_splits)
      then have div: "code c div 64 = code d div 64" using first False by simp
      have "escape_byte (128 + code c mod 64) @ r = escape_byte (128 + code d mod 64) @ r'"
        using e False d escape_byte_inject [OF utf8_bytes(1) [of c] utf8_bytes(1) [of d]] by simp
      from escape_byte_inject [OF utf8_bytes(2) utf8_bytes(2) this]
      have "code c mod 64 = code d mod 64" "r = r'" by auto
      then have "code c = code d" using div by (metis div_mult_mod_eq)
      then show ?thesis using \<open>r = r'\<close> by simp
    qed
  qed
qed

lemma quote_plus_inject: "quote_plus s = quote_plus t \<longleftrightarrow> s = t"
proof
  have ne: "quoted_char c \<noteq> []" for c
    by (auto simp: quoted_char_def quote_char_def escape_byte_def)
  show "quote_plus s = quote_plus t \<Longrightarrow> s = t"
  proof (induction s arbitrary: t)
    case Nil
    then show ?case using ne by (cases t) (auto simp: quote_plus_quoted)
  next
    case (Cons c s)
    obtain d u where t: "t = d # u" using Cons.prems ne by (cases t) (auto simp: quote_plus_quoted)
    then have "quoted_char c @ quote_plus s = quoted_char d @ quote_plus u"
      using Cons.prems by (simp add: quote_plus_quoted)
    from quoted_char_inject [OF this] Cons.IH t show ?case by simp
  qed
qed simp

lemma quote_plus_safe: "c \<in> {CHR ''&'', CHR ''=''} \<Longrightarrow> c \<notin> set (quote_plus s)"
  using quoted_char_safe by (auto simp: quote_plus_quoted)

lemma split_on_free: "c \<notin> set x \<Longrightarrow> split_on c x = [x]"
  by (induction x) auto

lemma split_on_append: "c \<notin> set x \<Longrightarrow> split_on c (x @ c # y) = x # split_on c y"
  by (induction x) auto

lemma split_on_join: "(\<And>x. x \<in> set xs \<Longrightarrow> c \<notin> set x) \<Longrightarrow> xs \<noteq> [] \<Longrightarrow> split_on c (join_with [c] xs) = xs"
proof (induction xs)
  case (Cons x xs)
  then show ?case by (cases xs) (auto simp: split_on_free split_on_append)
qed simp

definition pair_text :: "string \<times> string \<Rightarrow> string" where
  "pair_text p = (case p of (k, v) \<Rightarrow> quote_plus k @ ''='' @ quote_plus v)"

lemma urlencode_pair_text: "urlencode ps = join_with ''&'' (map pair_text ps)"
  by (simp add: urlencode_def pair_text_def [abs_def])

lemma pair_text_inject: "pair_text p = pair_text q \<longleftrightarrow> p = q"
proof
  obtain k v l w where pq: "p = (k, v)" "q = (l, w)" by (cases p; cases q)
  assume "pair_text p = pair_text q"
  then have "split_on (CHR ''='') (pair_text p) = split_on (CHR ''='') (pair_text q)" by simp
  then have "quote_plus k = quote_plus l \<and> quote_plus v = quote_plus w"
    using quote_plus_safe [of "CHR ''=''"] by (simp add: pq pair_text_def split_on_append split_on_free)
  then show "p = q" by (simp add: pq quote_plus_inject)
qed simp

text \<open>A query string determines the parameters it was built from: two different parameter
  lists never give the same text, whatever characters names and values contain, so no value
  can smuggle in a parameter of its own.\<close>

theorem urlencode_injective: "urlencode ps = urlencode qs \<longleftrightarrow> ps = qs"
proof
  have free: "x \<in> set (map pair_text ps) \<Longrightarrow> CHR ''&'' \<notin> set x" for x ps
    using quote_plus_safe [of "CHR ''&''"] by (auto simp: pair_text_def)
  have split: "split_on (CHR ''&'') (urlencode ps) = map pair_text ps" if "ps \<noteq> []" for ps
    unfolding urlencode_pair_text using that free by (intro split_on_join) auto
  have ne: "urlencode ps \<noteq> []" if "ps \<noteq> []" for ps
    using that by (cases ps rule: remdups_adj.cases) (auto simp: urlencode_pair_text pair_text_def)
  have inj: "map pair_text ps = map pair_text qs \<Longrightarrow> ps = qs" for ps qs
    by (metis injI map_injective pair_text_inject)
  show "urlencode ps = urlencode qs \<Longrightarrow> ps = qs"
  proof (cases "ps = [] \<or> qs = []")
    case True
    assume e: "urlencode ps = urlencode qs"
    have "urlencode [] = []" by (simp add: urlencode_def)
    then show ?thesis using True e ne by metis
  next
    case False
    assume "urlencode ps = urlencode qs"
    then have "map pair_text ps = map pair_text qs" using split False by metis
    then show ?thesis by (rule inj)
  qed
qed simp

end
