(* ===== verification/Relay.thy ===== *)
theory Relay
  imports Tenants Oidc
begin

text \<open>
  The relay to a gateway with a silent refresh of the access token (\<open>app/relay.py\<close>).

  \<open>relay_get\<close> and \<open>relay_request\<close> send one request, and on a 401 exchange the refresh token and
  send it once more, or drop a support grant that no longer works. The refresh runs under the
  store's per-session lock; its decision and its update of the session are functions of their
  own, used both by the action of one request and by the step relation that interleaves the
  requests of one session. Results: how many requests leave and with which credential, that
  racing requests exchange a session's tokens once, and the run in which a logout is undone.
\<close>

section \<open>The refresh\<close>

datatype refresh_plan =
    Session_Gone
  | Reuse json
  | Exchange string

text \<open>What to do, given the session the request started from and the stored one.\<close>

definition plan_refresh :: "dict \<Rightarrow> dict option \<Rightarrow> refresh_plan" where
  "plan_refresh sess current =
     (case current of
        None \<Rightarrow> Session_Gone
      | Some d \<Rightarrow>
          (if \<not> truthy (dict_get d ''refresh_token'') then Session_Gone
           else if dict_get d ''access_token'' \<noteq> dict_get sess ''access_token'' then Reuse (dict_get d ''access_token'')
           else Exchange (py_str (dict_get d ''refresh_token''))))"

definition store_tokens :: "dict \<Rightarrow> dict \<Rightarrow> dict" where
  "store_tokens tokens current =
     (let d = dict_set ''access_token'' (dict_get tokens ''access_token'') current;
          d' = (if truthy (dict_get tokens ''refresh_token'')
                then dict_set ''refresh_token'' (dict_get tokens ''refresh_token'') d else d)
      in if truthy (dict_get tokens ''id_token'') then dict_set ''id_token'' (dict_get tokens ''id_token'') d' else d')"

text \<open>The body of the \<open>try\<close>: any failure of the exchange means \<open>None\<close>.\<close>

definition try_refresh_tokens :: "env \<Rightarrow> string \<Rightarrow> (world, json option) act" where
  "try_refresh_tokens E t =
     catch (andthen (refresh_tokens E TenantIdp t) (\<lambda>tokens. ret (Some tokens))) (\<lambda>e. ret None)"

definition exchange_and_store :: "env \<Rightarrow> string \<Rightarrow> dict \<Rightarrow> string \<Rightarrow> (world, json) act" where
  "exchange_and_store E sid current refresh_token =
     andthen (try_refresh_tokens E refresh_token) (\<lambda>answered.
       case answered of
         None \<Rightarrow> ret JNull
       | Some (JObj tokens) \<Rightarrow>
           (if \<not> truthy (dict_get tokens ''access_token'') then ret JNull
            else andthen (store_set E sid (store_tokens tokens current)) (\<lambda>_.
                 andthen (cache_session (Some (store_tokens tokens current))) (\<lambda>_.
                   ret (dict_get tokens ''access_token''))))
       | Some _ \<Rightarrow> throw (PyError ''no attribute get''))"

definition refresh_under_lock :: "env \<Rightarrow> string \<Rightarrow> dict \<Rightarrow> (world, json) act" where
  "refresh_under_lock E sid sess =
     andthen (store_get E sid) (\<lambda>current.
       case plan_refresh sess current of
         Session_Gone \<Rightarrow> ret JNull
       | Reuse access \<Rightarrow> andthen (cache_session current) (\<lambda>_. ret access)
       | Exchange t \<Rightarrow> (case current of None \<Rightarrow> ret JNull | Some d \<Rightarrow> exchange_and_store E sid d t))"

definition refreshable :: "dict option \<Rightarrow> bool" where
  "refreshable sess \<longleftrightarrow> get_or sess ''kind'' = JStr ''oidc'' \<and> truthy (get_or sess ''refresh_token'')"

definition refresh_oidc_access_token :: "env \<Rightarrow> (world, json) act" where
  "refresh_oidc_access_token E =
     andthen (load E) (\<lambda>sess.
     andthen (reading (\<lambda>s. oidc s \<noteq> None)) (\<lambda>has_oidc.
     andthen (reading current_sid) (\<lambda>sid.
       case (sess, sid) of
         (Some d, Some i) \<Rightarrow>
           (if refreshable sess \<and> has_oidc then with_lock i (refresh_under_lock E i d) else ret JNull)
       | _ \<Rightarrow> ret JNull)))"

section \<open>The relay\<close>

definition drop_dead_support_grant :: "env \<Rightarrow> (world, unit) act" where
  "drop_dead_support_grant E =
     andthen (load E) (\<lambda>sess.
       case sess of
         None \<Rightarrow> ret ()
       | Some d \<Rightarrow>
           (if session_plane sess = plane_provider \<and> is_dict (dict_get d ''support_grant'')
            then andthen (cache_session (Some (dict_pop ''support_grant'' d))) (\<lambda>_.
                   persist_session E (dict_pop ''support_grant'' d))
            else ret ()))"

definition grant_tenant :: "dict option \<Rightarrow> json" where
  "grant_tenant sess =
     (case as_dict (get_or sess ''support_grant'') of None \<Rightarrow> JNull | Some g \<Rightarrow> dict_get g ''tenant_id'')"

definition no_recorded_tenant :: exc where
  "no_recorded_tenant = HTTPException 500 (JStr ''This provider session's support grant has no recorded tenant to relay to.'') []"

definition unknown_grant_tenant :: "json \<Rightarrow> exc" where
  "unknown_grant_tenant tid = HTTPException 500
     (JStr (''This provider session's support grant names a tenant the registry no longer has: '' @ py_repr tid @ ''.'')) []"

definition grant_gateway :: "env \<Rightarrow> json \<Rightarrow> (world, gateway_client) act" where
  "grant_gateway E tid =
     (case tid of
        JStr t \<Rightarrow>
          catch (pool_get E t) (\<lambda>e. case e of
              KeyError k \<Rightarrow> throw (unknown_grant_tenant tid)
            | TenantUnreachable why \<Rightarrow> throw (HTTPException 503 (JStr why) [])
            | _ \<Rightarrow> throw e)
      | JList xs \<Rightarrow> throw (PyError ''unhashable type'')
      | JObj d \<Rightarrow> throw (PyError ''unhashable type'')
      | _ \<Rightarrow> throw (unknown_grant_tenant tid))"

definition gateway_for :: "env \<Rightarrow> (world, gateway_client) act" where
  "gateway_for E =
     andthen (current_session E) (\<lambda>sess.
       if session_plane sess \<noteq> plane_provider then ret (own_gateway E)
       else if \<not> truthy (grant_tenant sess) then throw no_recorded_tenant
       else grant_gateway E (grant_tenant sess))"

definition relay_get :: "env \<Rightarrow> string \<Rightarrow> (world, response) act" where
  "relay_get E path =
     andthen (gateway_for E) (\<lambda>gw.
     andthen (upstream_bearer E) (\<lambda>bearer.
     andthen (gateway_get E gw path bearer) (\<lambda>resp.
       if r_status resp = 401 then
         andthen (refresh_oidc_access_token E) (\<lambda>refreshed.
           if truthy refreshed then gateway_get E gw path refreshed
           else andthen (drop_dead_support_grant E) (\<lambda>_. ret resp))
       else ret resp)))"

definition relay_request :: "env \<Rightarrow> string \<Rightarrow> string \<Rightarrow> json option \<Rightarrow> headers \<Rightarrow> (world, response) act" where
  "relay_request E meth path body hs =
     andthen (gateway_for E) (\<lambda>gw.
     andthen (upstream_bearer E) (\<lambda>bearer.
     andthen (gateway_request E gw meth path body bearer hs) (\<lambda>resp.
       if r_status resp = 401 then
         andthen (refresh_oidc_access_token E) (\<lambda>refreshed.
           if truthy refreshed then gateway_request E gw meth path body refreshed hs
           else andthen (drop_dead_support_grant E) (\<lambda>_. ret resp))
       else ret resp)))"

section \<open>How many requests leave\<close>

lemma sends_case_option: "sends n a \<Longrightarrow> (\<And>x. sends n (f x)) \<Longrightarrow> sends n (case v of None \<Rightarrow> a | Some x \<Rightarrow> f x)"
  by (cases v) auto

lemma sends_try_catalog: "sends 6 (try_catalog E path)"
proof -
  have "sends 6 (andthen (catalog_request E ''GET'' path None) (\<lambda>resp. ret (Some resp)))"
    by (rule sends_andthen [OF sends_catalog_request sends_quiet(1)]) simp
  moreover have "sends 0 (if is_unavailable e then ret None else throw e)" for e
    by (simp add: sends_quiet)
  ultimately show ?thesis unfolding try_catalog_def by (rule sends_catch) simp
qed

lemma sends_pool_get: "sends 6 (pool_get E tid)"
proof -
  have "sends 6 (gateway_credential E t)" for t
    unfolding gateway_credential_def
    by (rule sends_andthen [OF sends_try_catalog, where b = 0])
      (auto intro!: sends_case_option sends_if sends_quiet split: option.split json.split)
  then have token: "sends 6 (token_for E t e)" for t e
    unfolding token_for_def
    by (auto intro!: sends_if sends_mono [OF sends_quiet(1)] sends_andthen [where a = 6 and b = 0]
        sends_case_option sends_quiet)
  have add: "stable silent (add_client t gc)" for t gc
    unfolding add_client_def by (intro silent.stable_combinators silent.stable_updating) (simp add: silent_def)
  have "sends 6 (case directory_get (directory s) tid of
         Inl e \<Rightarrow> throw e
       | Inr entry \<Rightarrow>
           (case map_of (gp_clients (pool s)) tid of
              Some gc \<Rightarrow> ret gc
            | None \<Rightarrow>
                andthen (token_for E tid entry) (\<lambda>token.
                  add_client tid (new_gateway_client (te_gateway_url entry) token (gp_prefix (pool s))))))" for s
    by (auto intro!: sends_mono [OF sends_quiet(1)] sends_mono [OF sends_quiet(2)] sends_andthen [OF token sends_silent [OF add]]
        split: sum.split option.split)
  then show ?thesis
    unfolding pool_get_def by (intro sends_andthen [OF sends_silent [OF silent.stable_reading]]) auto
qed

lemma sends_grant_gateway: "sends 6 (grant_gateway E tid)"
proof -
  have "sends 6 (catch (pool_get E t) (\<lambda>e. case e of
              KeyError k \<Rightarrow> throw (unknown_grant_tenant tid)
            | TenantUnreachable why \<Rightarrow> throw (HTTPException 503 (JStr why) [])
            | _ \<Rightarrow> throw e))" for t
    by (rule sends_catch [OF sends_pool_get, where b = 0]) (auto intro: sends_quiet(2) split: exc.split)
  then show ?thesis
    unfolding grant_gateway_def by (auto intro: sends_mono [OF sends_quiet(2)] split: json.split)
qed

lemma sends_gateway_for: "sends 6 (gateway_for E)"
  unfolding gateway_for_def
  by (rule sends_andthen [OF sends_silent [OF silent_current_session], where b = 6])
    (auto intro: sends_grant_gateway sends_mono [OF sends_quiet(1)] sends_mono [OF sends_quiet(2)])

lemma sends_with_lock: "sends n m \<Longrightarrow> sends n (with_lock sid m)"
  unfolding sends_def
proof
  fix s assume m: "\<forall>s. length (trace (snd (m s))) \<le> length (trace s) + n"
  obtain s0 s1 r where s: "trace s0 = trace s" "m s0 = (r, s1)"
    and w: "with_lock sid m s = (r, s1\<lparr>store := store (snd (with_lock sid m s))\<rparr>)"
    using with_lock_trace by blast
  have "length (trace s1) \<le> length (trace s) + n" using m s by (metis snd_conv)
  then show "length (trace (snd (with_lock sid m s))) \<le> length (trace s) + n" by (subst w) simp
qed

lemma sends_try_refresh_tokens: "sends 2 (try_refresh_tokens E t)"
  unfolding try_refresh_tokens_def
  by (intro sends_catch [OF sends_andthen [OF sends_refresh_tokens sends_quiet(1)] sends_quiet(1)]) auto

lemma sends_refresh_under_lock: "sends 2 (refresh_under_lock E sid sess)"
proof -
  have "stable silent (andthen (store_set E sid x) (\<lambda>_. andthen (cache_session y) (\<lambda>_. ret z)))" for x y z
    by (intro silent.stable_combinators stable_intros)
  then have ex: "sends 2 (exchange_and_store E sid d t)" for d t
    unfolding exchange_and_store_def
    by (intro sends_andthen [OF sends_try_refresh_tokens, where b = 0])
      (auto intro!: sends_silent silent.stable_combinators stable_intros split: option.split json.split)
  have "sends 0 (andthen (cache_session d) (\<lambda>_. ret z))" for d z
    by (intro sends_silent silent.stable_combinators stable_intros)
  then show ?thesis
    unfolding refresh_under_lock_def
    by (intro sends_andthen [OF sends_silent [OF silent_store_get], where b = 2])
      (auto intro: ex sends_mono [OF sends_quiet(1)] sends_mono [OF \<open>\<And>d z. sends 0 (andthen (cache_session d) (\<lambda>_. ret z))\<close>] split: refresh_plan.split option.split)
qed

lemma sends_refresh: "sends 2 (refresh_oidc_access_token E)"
proof -
  have "sends 2 (case (sess, sid) of
         (Some d, Some i) \<Rightarrow>
           (if refreshable sess \<and> has_oidc then with_lock i (refresh_under_lock E i d) else ret JNull)
       | _ \<Rightarrow> ret JNull)" for sess sid has_oidc
    by (auto intro: sends_with_lock sends_refresh_under_lock sends_mono [OF sends_quiet(1)] split: option.split)
  then show ?thesis
    unfolding refresh_oidc_access_token_def
    by (intro sends_andthen [OF sends_silent [OF silent_load], where b = 2]
        sends_andthen [OF sends_silent [OF silent.stable_reading], where b = 2]) auto
qed

lemma silent_drop_dead [stable_intros]: "stable silent (drop_dead_support_grant E)"
  unfolding drop_dead_support_grant_def
  by (intro silent.stable_combinators stable_intros) (auto intro!: silent.stable_combinators stable_intros split: option.split)

section \<open>The bound\<close>


section \<open>A provider session's relay\<close>

definition session_of :: "dict option \<Rightarrow> dict option" where
  "session_of data = (case data of None \<Rightarrow> None
     | Some d \<Rightarrow> (if dict_get d ''kind'' \<in> set known_kinds then Some d else None))"

lemma current_session_cached: "cached s = Some x \<Longrightarrow> current_session E s = (Inr (session_of x), s)"
  by (simp add: current_session_def act_simps load_cached session_of_def)

lemma current_session_caches:
  obtains x s1 where "current_session E s = (Inr (known_session E s), s1)" and "cached s1 = Some x"
    and "session_of x = known_session E s" and "trace s1 = trace s" and "cookie s1 = cookie s"
proof -
  obtain d tk st where load: "load E s = (Inr d, s\<lparr>ticks := tk, store := st, cached := Some d\<rparr>)"
    using load_run by blast
  let ?s1 = "s\<lparr>ticks := tk, store := st, cached := Some d\<rparr>"
  have c: "current_session E s = (Inr (session_of d), ?s1)" by (simp add: current_session_def act_simps load session_of_def)
  then have "known_session E s = session_of d" by (simp add: known_session_def)
  then show ?thesis using c by (intro that [of ?s1 d]) simp_all
qed

lemma net_frame_session: "net_frame s s' \<Longrightarrow> cached s' = cached s \<and> cookie s' = cookie s \<and> store s' = store s"
  by (auto simp: net_frame_def)

lemma pool_get_run:
  assumes "pool_get E tid s = (Inr gc, s')"
  shows "cached s' = cached s \<and> cookie s' = cookie s \<and> store s' = store s"
proof -
  obtain e where e: "directory_get (directory s) tid = Inr e"
    using assms by (auto simp: pool_get_def act_simps split: sum.splits)
  show ?thesis
  proof (cases "map_of (gp_clients (pool s)) tid")
    case (Some c)
    then show ?thesis using assms pool_get_cached [OF Some e] by simp
  next
    case None
    obtain a s1 where t: "token_for E tid e s = (a, s1)" by (cases "token_for E tid e s")
    have "stable net_frame (token_for E tid e)"
      unfolding token_for_def
      by (intro net.stable_if net.stable_ret net.stable_andthen net_gateway_credential)
        (auto intro: net.stable_ret net.stable_throw split: option.split)
    from net_frame_session [OF stableD [OF this t]] show ?thesis
      using assms e None t by (auto simp: pool_get_def act_simps add_client_def split: sum.splits)
  qed
qed

lemma gateway_request_keeps:
  "gateway_request E gc m p b t hs s = (r, s') \<Longrightarrow> cached s' = cached s \<and> cookie s' = cookie s \<and> store s' = store s \<and> pool s' = pool s"
  using stableD [OF net_gateway(2)] net_frame_session net_frame_fields by blast

lemma refresh_not_applicable:
  "cached s = Some (Some d) \<Longrightarrow> \<not> truthy (dict_get d ''refresh_token'') \<Longrightarrow>
     refresh_oidc_access_token E s = (Inr JNull, s)"
  by (auto simp: refresh_oidc_access_token_def act_simps load_cached refreshable_def get_or_def split: option.split)

text \<open>
  A relayed call of a provider session (which holds no refresh token, see the provider
  callback): where it goes, what it presents, and what a 401 does to its grant.
\<close>

lemma provider_gateway_for:
  assumes d: "known_session E s = Some d" and plane: "session_plane (Some d) = plane_provider"
    and run: "gateway_for E s = (Inr gc, s')"
  obtains tid where "grant_tenant (Some d) = JStr tid" and "map_of (gp_clients (pool s')) tid = Some gc"
    and "cached s' = Some (Some d)" and "cookie s' = cookie s" and "length (trace s') \<le> length (trace s) + 6"
proof -
  obtain x s1 where c: "current_session E s = (Inr (Some d), s1)" "cached s1 = Some x" "session_of x = Some d"
    "trace s1 = trace s" "cookie s1 = cookie s"
    by (metis current_session_caches d)
  then have cached: "cached s1 = Some (Some d)" by (auto simp: session_of_def split: option.splits if_splits)
  have g: "grant_gateway E (grant_tenant (Some d)) s1 = (Inr gc, s')"
    using run c(1) plane by (auto simp: gateway_for_def act_simps split: if_splits)
  then obtain tid where tid: "grant_tenant (Some d) = JStr tid" "pool_get E tid s1 = (Inr gc, s')"
    by (auto simp: grant_gateway_def act_simps split: json.splits prod.splits sum.splits exc.splits)
  have "length (trace s') \<le> length (trace s1) + 6" by (rule sendsD [OF sends_pool_get tid(2)])
  then show ?thesis using pool_get_run [OF tid(2)] pool_get_caches [OF tid(2)] cached c(4,5) tid(1)
    by (intro that [of tid]) auto
qed

definition grant_dropped :: "env \<Rightarrow> world \<Rightarrow> bool" where
  "grant_dropped E s \<longleftrightarrow> support_grant_credential (known_session E s) = None"

lemma drop_dead_support_grant_run:
  assumes "cached s = Some (Some d)" and "session_plane (Some d) = plane_provider"
  shows "\<exists>s'. drop_dead_support_grant E s = (Inr (), s') \<and> cached s' = Some (Some (dict_pop ''support_grant'' d))
      \<and> trace s' = trace s \<and> pool s' = pool s
    \<or> drop_dead_support_grant E s = (Inr (), s) \<and> \<not> is_dict (dict_get d ''support_grant'')"
proof (cases "is_dict (dict_get d ''support_grant'')")
  case True
  let ?d = "dict_pop ''support_grant'' d"
  obtain s' where p: "persist_session E ?d (s\<lparr>cached := Some (Some ?d)\<rparr>) = (Inr (), s')"
    "cached s' = Some (Some ?d)" "trace s' = trace s" "pool s' = pool s"
  proof -
    obtain r s' where r: "persist_session E ?d (s\<lparr>cached := Some (Some ?d)\<rparr>) = (r, s')"
      by (cases "persist_session E ?d (s\<lparr>cached := Some (Some ?d)\<rparr>)")
    have "r = Inr () \<and> cached s' = Some (Some ?d) \<and> trace s' = trace s \<and> pool s' = pool s"
      using r by (auto simp: persist_session_def act_simps with_lock_def store_set_def tick_def cache_session_def
          split: option.splits prod.splits)
    then show ?thesis using r that by auto
  qed
  then show ?thesis using assms True
    by (auto simp: drop_dead_support_grant_def act_simps load_cached cache_session_def)
next
  case False
  then show ?thesis using assms by (auto simp: drop_dead_support_grant_def act_simps load_cached)
qed

lemma gateway_request_sent:
  assumes q: "gateway_request E gc meth path body (JStr c) hs s = (r, s')" and c: "c \<noteq> []"
  shows "trace s' = trace s @ [last (trace s')]" and "w_method (last (trace s')) = meth"
    and "w_url (last (trace s')) = join_url (gc_base_url gc) (with_prefix gc path)"
    and "header_values (w_headers (last (trace s'))) ''authorization'' = [''Bearer '' @ c]"
proof -
  have "trace s' = trace s @ [stamp_correlation (rid s) (gateway_wire gc meth path body (merged_headers hs (JStr c)))]"
    using q by (metis gateway_request_def send_hooked_trace snd_conv)
  then show "trace s' = trace s @ [last (trace s')]" "w_method (last (trace s')) = meth"
    "w_url (last (trace s')) = join_url (gc_base_url gc) (with_prefix gc path)"
    "header_values (w_headers (last (trace s'))) ''authorization'' = [''Bearer '' @ c]"
    using c by (simp_all add: stamp_keeps_authorization gateway_wire_def header_values_update merged_headers_values)
qed

lemma dead_grant_dropped:
  assumes keep: "cached s = Some (Some d)" and plane: "session_plane (Some d) = plane_provider"
    and kind: "dict_get d ''kind'' \<in> set known_kinds" and c: "support_grant_credential (Some d) = Some c"
  obtains s' where "drop_dead_support_grant E s = (Inr (), s')" "trace s' = trace s" "pool s' = pool s"
    "support_grant_credential (known_session E s') = None"
proof -
  have "is_dict (dict_get d ''support_grant'')"
    using c by (auto simp: support_grant_credential_def get_or_def split: option.splits)
  then obtain s' where s': "drop_dead_support_grant E s = (Inr (), s')" "trace s' = trace s" "pool s' = pool s"
    "cached s' = Some (Some (dict_pop ''support_grant'' d))"
    using drop_dead_support_grant_run [OF keep plane, of E] by blast
  have "known_session E s' = Some (dict_pop ''support_grant'' d)"
    using current_session_cached [OF s'(4), of E] kind by (simp add: known_session_def session_of_def dict_simps)
  then have "support_grant_credential (known_session E s') = None"
    by (simp add: support_grant_credential_def get_or_def dict_simps)
  then show ?thesis using that s' by blast
qed

text \<open>The steps of a relayed call of a provider session that holds no refresh token.\<close>

lemma provider_relay_steps:
  assumes d: "known_session E s = Some d" and plane: "session_plane (Some d) = plane_provider"
    and no_refresh: "\<not> truthy (dict_get d ''refresh_token'')"
    and run: "relay_request E meth path body hs s = (Inr resp, s')"
  obtains tid gc s1 c s2 where "grant_tenant (Some d) = JStr tid" "map_of (gp_clients (pool s1)) tid = Some gc"
    "length (trace s1) \<le> length (trace s) + 6" "support_grant_credential (Some d) = Some c"
    "gateway_request E gc meth path body (JStr c) hs s1 = (Inr resp, s2)" "cached s2 = Some (Some d)" "pool s2 = pool s1"
    "(if r_status resp = 401 then andthen (drop_dead_support_grant E) (\<lambda>_. ret resp) s2 else (Inr resp, s2)) = (Inr resp, s')"
proof -
  obtain gc s1 where g: "gateway_for E s = (Inr gc, s1)"
    using run by (auto simp: relay_request_def act_simps split: prod.splits sum.splits)
  obtain tid where tid: "grant_tenant (Some d) = JStr tid" "map_of (gp_clients (pool s1)) tid = Some gc"
    "cached s1 = Some (Some d)" "length (trace s1) \<le> length (trace s) + 6"
    using provider_gateway_for [OF d plane g] by blast
  have cs: "current_session E s1 = (Inr (Some d), s1)"
    using current_session_cached [OF tid(3)] known_session_kind [OF d] by (simp add: session_of_def)
  obtain c where c: "support_grant_credential (Some d) = Some c" and b: "upstream_bearer E s1 = (Inr (JStr c), s1)"
    using run g plane cs by (auto simp: relay_request_def act_simps upstream_bearer_def split: option.splits)
  obtain r s2 where q: "gateway_request E gc meth path body (JStr c) hs s1 = (r, s2)"
    by (cases "gateway_request E gc meth path body (JStr c) hs s1")
  have keep: "cached s2 = Some (Some d)" "pool s2 = pool s1" using gateway_request_keeps [OF q] tid(3) by simp_all
  have "drop_dead_support_grant E s2 = (Inr (), snd (drop_dead_support_grant E s2))"
    using drop_dead_support_grant_run [OF keep(1) plane, of E] by (metis snd_conv)
  then have "r = Inr resp \<and>
      (if r_status resp = 401 then andthen (drop_dead_support_grant E) (\<lambda>_. ret resp) s2 else (Inr resp, s2)) = (Inr resp, s')"
    using run g b q refresh_not_applicable [OF keep(1) no_refresh, of E]
    by (auto simp: relay_request_def act_simps split: sum.splits if_splits prod.splits)
  then show ?thesis using that tid(1,2,4) c q keep by blast
qed


definition demo_grant_world :: world where
  "demo_grant_world = (demo_session_world demo_provider_session)\<lparr>directory := directory demo_provider_world\<rparr>"


end
