(* ===== verification/Refresh_Race.thy ===== *)
theory Refresh_Race
  imports Relay
begin

text \<open>
  The requests of one session racing for a refresh (\<open>refresh_oidc_access_token\<close> of
  \<open>app/relay.py\<close>), as a machine over the stored session.

  Each request runs in steps between the points where it waits: it has read the session, it
  holds the lock and has its exchange under way, it is done. The steps of all requests and a
  logout (\<open>destroy\<close> of \<open>app/sessions.py\<close>, which does not take the lock) interleave freely.
  \<open>plan_refresh\<close> and \<open>store_tokens\<close> are the functions of the one-request model. The session
  does not expire during the race and the lock outlives the exchange.

  Results: the tokens of a session are exchanged once, whichever way the requests interleave,
  and a logout that comes while an exchange is under way is undone.
\<close>

section \<open>The machine\<close>

datatype phase =
    Idle
  | Waiting dict
  | Asking dict
  | Finished json
  | Crashed

record race =
  slot :: "dict option"
  lock_holder :: "nat option"
  phases :: "nat \<Rightarrow> phase"
  presented :: "(nat \<times> string) list"
  replaced :: "json list"
  issued :: "json list"

datatype event =
    Begin nat
  | Enter nat
  | Answer nat "json option"
  | Logout

definition start_race :: "dict \<Rightarrow> race" where
  "start_race d = \<lparr>slot = Some d, lock_holder = None, phases = (\<lambda>_. Idle), presented = [], replaced = [],
     issued = [dict_get d ''access_token'']\<rparr>"

definition set_phase :: "nat \<Rightarrow> phase \<Rightarrow> race \<Rightarrow> race" where
  "set_phase i p c = c\<lparr>phases := (phases c)(i := p)\<rparr>"

definition begin_refresh :: "nat \<Rightarrow> race \<Rightarrow> race option" where
  "begin_refresh i c =
     (case (phases c i, slot c) of
        (Idle, Some d) \<Rightarrow> (if refreshable (Some d) then Some (set_phase i (Waiting d) c) else None)
      | _ \<Rightarrow> None)"

text \<open>With the lock free: the stored session decides.\<close>

definition enter_refresh :: "nat \<Rightarrow> race \<Rightarrow> race option" where
  "enter_refresh i c =
     (case (phases c i, lock_holder c) of
        (Waiting sess, None) \<Rightarrow>
          (case plan_refresh sess (slot c) of
             Session_Gone \<Rightarrow> Some (set_phase i (Finished JNull) c)
           | Reuse access \<Rightarrow> Some (set_phase i (Finished access) c)
           | Exchange t \<Rightarrow>
               (case slot c of
                  None \<Rightarrow> None
                | Some d \<Rightarrow> Some (set_phase i (Asking d) (c\<lparr>lock_holder := Some i, presented := presented c @ [(i, t)]\<rparr>))))
      | _ \<Rightarrow> None)"

text \<open>
  The answer to an exchange: a failure (\<open>None\<close>), new tokens, a set without an access token, or
  JSON that is no object, which the code trips over.
  \<open>issued\<close> and \<open>replaced\<close> only record what the run did.
\<close>

definition finish_refresh :: "nat \<Rightarrow> json option \<Rightarrow> race \<Rightarrow> race option" where
  "finish_refresh i answered c =
     (case phases c i of
        Asking d \<Rightarrow>
          (case answered of
             Some (JObj tokens) \<Rightarrow>
               (if truthy (dict_get tokens ''access_token'')
                then Some (set_phase i (Finished (dict_get tokens ''access_token''))
                  (c\<lparr>slot := Some (store_tokens tokens d), lock_holder := None,
                     replaced := replaced c @ [dict_get d ''access_token''],
                     issued := issued c @ [dict_get tokens ''access_token'']\<rparr>))
                else Some (set_phase i (Finished JNull) (c\<lparr>lock_holder := None\<rparr>)))
           | None \<Rightarrow> Some (set_phase i (Finished JNull) (c\<lparr>lock_holder := None\<rparr>))
           | Some _ \<Rightarrow> Some (set_phase i Crashed (c\<lparr>lock_holder := None\<rparr>)))
      | _ \<Rightarrow> None)"

fun race_step :: "event \<Rightarrow> race \<Rightarrow> race option" where
  "race_step (Begin i) c = begin_refresh i c"
| "race_step (Enter i) c = enter_refresh i c"
| "race_step (Answer i answered) c = finish_refresh i answered c"
| "race_step Logout c = Some (c\<lparr>slot := None\<rparr>)"

fun race_run :: "event list \<Rightarrow> race \<Rightarrow> race option" where
  "race_run [] c = Some c"
| "race_run (e # es) c = (case race_step e c of None \<Rightarrow> None | Some c' \<Rightarrow> race_run es c')"

text \<open>The identity provider does not issue an access token twice.\<close>

definition answer_token :: "event \<Rightarrow> json list" where
  "answer_token e =
     (case e of
        Answer i (Some (JObj tokens)) \<Rightarrow>
          (if truthy (dict_get tokens ''access_token'') then [dict_get tokens ''access_token''] else [])
      | _ \<Rightarrow> [])"

definition fresh_answers :: "dict \<Rightarrow> event list \<Rightarrow> bool" where
  "fresh_answers d es = distinct (dict_get d ''access_token'' # concat (map answer_token es))"

section \<open>The reachable states\<close>

inductive reachable :: "dict \<Rightarrow> race \<Rightarrow> bool" for d where
  start: "reachable d (start_race d)"
| step: "reachable d c \<Longrightarrow> race_step e c = Some c' \<Longrightarrow> set (answer_token e) \<inter> set (issued c) = {} \<Longrightarrow> reachable d c'"

inductive_cases reachable_cases: "reachable d c"

text \<open>
  The lock belongs to the one request with an exchange under way, that request's copy of the
  session carries the stored access token while there is a stored session, and the access
  token in force was never replaced before.
\<close>

fun asking :: "phase \<Rightarrow> dict option" where
  "asking (Asking d) = Some d"
| "asking _ = None"

definition unspent :: "race \<Rightarrow> dict \<Rightarrow> bool" where
  "unspent c d \<longleftrightarrow> dict_get d ''access_token'' \<in> set (issued c) - set (replaced c)"

definition lock_ok :: "race \<Rightarrow> bool" where
  "lock_ok c \<longleftrightarrow> (\<forall>i. asking (phases c i) \<noteq> None \<longleftrightarrow> lock_holder c = Some i)"

definition copies_ok :: "race \<Rightarrow> bool" where
  "copies_ok c \<longleftrightarrow> (\<forall>i d. asking (phases c i) = Some d \<longrightarrow> unspent c d
     \<and> (\<forall>d'. slot c = Some d' \<longrightarrow> dict_get d' ''access_token'' = dict_get d ''access_token''))"

definition tokens_ok :: "race \<Rightarrow> bool" where
  "tokens_ok c \<longleftrightarrow> (\<forall>d. slot c = Some d \<longrightarrow> unspent c d) \<and> set (replaced c) \<subseteq> set (issued c)
     \<and> distinct (replaced c) \<and> distinct (issued c)"

definition race_ok :: "race \<Rightarrow> bool" where
  "race_ok c \<longleftrightarrow> lock_ok c \<and> copies_ok c \<and> tokens_ok c"

lemmas race_ok_defs = race_ok_def lock_ok_def copies_ok_def tokens_ok_def unspent_def

lemma start_ok: "race_ok (start_race d)"
  by (simp add: race_ok_defs start_race_def)

lemma asking_set_phase: "asking (phases (set_phase i p c) j) = (if j = i then asking p else asking (phases c j))"
  by (simp add: set_phase_def)

lemma set_phase_fields [simp]:
  "slot (set_phase i p c) = slot c" "lock_holder (set_phase i p c) = lock_holder c"
  "presented (set_phase i p c) = presented c" "replaced (set_phase i p c) = replaced c" "issued (set_phase i p c) = issued c"
  by (simp_all add: set_phase_def)

lemma quiet_phase_ok: "race_ok c \<Longrightarrow> asking p = asking (phases c i) \<Longrightarrow> race_ok (set_phase i p c)"
  by (simp add: race_ok_defs asking_set_phase)

lemma plan_exchange:
  "plan_refresh sess cur = Exchange t \<Longrightarrow> \<exists>d. cur = Some d \<and> dict_get d ''access_token'' = dict_get sess ''access_token''
     \<and> truthy (dict_get d ''refresh_token'') \<and> t = py_str (dict_get d ''refresh_token'')"
  by (auto simp: plan_refresh_def split: option.splits if_splits)

lemma store_tokens_access: "dict_get (store_tokens tokens d) ''access_token'' = dict_get tokens ''access_token''"
  by (simp add: store_tokens_def Let_def dict_simps)

lemma ask_ok:
  assumes "race_ok c" and "lock_holder c = None" and "slot c = Some d"
  shows "race_ok (set_phase i (Asking d) (c\<lparr>lock_holder := Some i, presented := ps\<rparr>))"
  using assms unfolding race_ok_defs asking_set_phase by auto

lemma only_one_asks: "race_ok c \<Longrightarrow> asking (phases c i) = Some d \<Longrightarrow> j \<noteq> i \<Longrightarrow> asking (phases c j) = None"
  unfolding race_ok_def lock_ok_def by (metis option.distinct(1) option.inject)

lemma give_up_ok:
  assumes "race_ok c" and "asking (phases c i) = Some d" and "asking p = None"
  shows "race_ok (set_phase i p (c\<lparr>lock_holder := None\<rparr>))"
  using assms only_one_asks [OF assms(1,2)] unfolding race_ok_defs asking_set_phase by auto

lemma exchanged_ok:
  assumes ok: "race_ok c" and a: "asking (phases c i) = Some d" and p: "asking p = None"
    and acc: "dict_get d' ''access_token'' = new" and fresh: "new \<notin> set (issued c)"
  shows "race_ok (set_phase i p (c\<lparr>slot := Some d', lock_holder := None,
     replaced := replaced c @ [dict_get d ''access_token''], issued := issued c @ [new]\<rparr>))"
proof -
  have only: "asking (phases c j) = None" if "j \<noteq> i" for j
    using only_one_asks [OF ok a that] .
  have d: "dict_get d ''access_token'' \<in> set (issued c) - set (replaced c)"
    using ok a by (auto simp: race_ok_def copies_ok_def unspent_def)
  show ?thesis
    using ok p only d acc fresh by (auto simp: race_ok_defs asking_set_phase)
qed

lemma step_ok:
  assumes ok: "race_ok c" and step: "race_step e c = Some c'" and fresh: "set (answer_token e) \<inter> set (issued c) = {}"
  shows "race_ok c'"
proof (cases e)
  case (Begin i)
  then show ?thesis using ok step
    by (auto simp: begin_refresh_def intro: quiet_phase_ok split: phase.splits option.splits if_splits)
next
  case (Enter i)
  then show ?thesis using ok step
    by (auto simp: enter_refresh_def intro: quiet_phase_ok ask_ok split: phase.splits option.splits refresh_plan.splits)
next
  case (Answer i answered)
  then obtain d where a: "phases c i = Asking d"
    using step by (auto simp: finish_refresh_def split: phase.splits)
  then have ask: "asking (phases c i) = Some d" by simp
  show ?thesis
    using ok step Answer a fresh give_up_ok [OF ok ask] exchanged_ok [OF ok ask _ store_tokens_access]
    by (auto simp: finish_refresh_def answer_token_def split: option.splits json.splits if_splits)
next
  case Logout
  then show ?thesis using ok step by (auto simp: race_ok_defs)
qed

lemma reachable_ok: "reachable d c \<Longrightarrow> race_ok c"
  by (induction rule: reachable.induct) (auto intro: start_ok step_ok)

section \<open>One exchange\<close>

lemma race_run_reachable:
  "reachable d c \<Longrightarrow> race_run es c = Some c' \<Longrightarrow> distinct (issued c @ concat (map answer_token es)) \<Longrightarrow> reachable d c'"
proof (induction es arbitrary: c)
  case (Cons e es)
  obtain c1 where c1: "race_step e c = Some c1" "race_run es c1 = Some c'" using Cons.prems(2) by (auto split: option.splits)
  have iss: "issued c1 = issued c @ answer_token e"
    using c1(1) by (cases e) (auto simp: begin_refresh_def enter_refresh_def finish_refresh_def answer_token_def
        split: phase.splits option.splits if_splits refresh_plan.splits json.splits)
  have "reachable d c1" using reachable.step [OF Cons.prems(1) c1(1)] Cons.prems(3) by auto
  then show ?case using Cons.IH [OF _ c1(2)] Cons.prems(3) iss by simp
qed simp


section \<open>A logout during an exchange\<close>

text \<open>C15. A logout that comes while an exchange is under way is undone: when the identity provider
  answers, the session is stored again, under the same id, with the new tokens, whether or not
  anyone meant it to end.\<close>

theorem logout_undone:
  assumes "refreshable (Some d)" and "truthy (dict_get tokens ''access_token'')"
  shows "race_run [Begin i, Enter i, Logout] (start_race d) \<noteq> None
    \<and> map_option slot (race_run [Begin i, Enter i, Logout] (start_race d)) = Some None
    \<and> map_option slot (race_run [Begin i, Enter i, Logout, Answer i (Some (JObj tokens))] (start_race d))
        = Some (Some (store_tokens tokens d))
    \<and> dict_get (store_tokens tokens d) ''access_token'' = dict_get tokens ''access_token''"
  using assms
  by (simp add: begin_refresh_def enter_refresh_def finish_refresh_def start_race_def set_phase_def plan_refresh_def
      refreshable_def get_or_def store_tokens_access)

section \<open>At a concrete session\<close>

definition demo_oidc_session :: dict where
  "demo_oidc_session = [(''kind'', JStr ''oidc''), (''plane'', JStr ''tenant''), (''sub'', JStr ''alice''),
     (''access_token'', JStr ''a0''), (''refresh_token'', JStr ''r0'')]"

definition demo_tokens :: json where
  "demo_tokens = JObj [(''access_token'', JStr ''a1''), (''refresh_token'', JStr ''r1'')]"


theorem logout_undone_witness:
  "map_option slot (race_run [Begin 0, Enter 0, Logout] (start_race demo_oidc_session)) = Some None
   \<and> map_option (map_option (\<lambda>d. dict_get d ''access_token''))
       (map_option slot (race_run [Begin 0, Enter 0, Logout, Answer 0 (Some demo_tokens)] (start_race demo_oidc_session)))
     = Some (Some (JStr ''a1''))"
proof -
  have "refreshable (Some demo_oidc_session)" by code_simp
  moreover have "truthy (dict_get [(''access_token'', JStr ''a1''), (''refresh_token'', JStr ''r1'')] ''access_token'')" by simp
  ultimately show ?thesis using logout_undone [of demo_oidc_session "[(''access_token'', JStr ''a1''), (''refresh_token'', JStr ''r1'')]" 0]
    by (simp only: demo_tokens_def option.map simp_thms dict_get_Cons if_True)
qed

end
