(* ===== verification/Auth.thy ===== *)
theory Auth
  imports Relay
begin

text \<open>
  The login routes (\<open>app/routers/auth.py\<close>): what login methods there are, the password login, the
  two federated logins with their callbacks, logout and the identity of the session.

  The cookie session is the field \<open>cookie\<close>; a login transaction lives in it between the redirect
  and the callback. Results: a password is only looked at while the caller's address is not
  locked, a callback establishes a session only for a login this browser began and of the plane
  whose identity provider answered, a failed callback establishes nothing and uses the
  transaction up, and logout ends the session whatever the identity provider does.
\<close>

section \<open>Pieces\<close>

definition outcome_success :: string where
  "outcome_success = ''success''"

definition outcome_denied :: string where
  "outcome_denied = ''denied''"

definition jopt :: "string option \<Rightarrow> json" where
  "jopt v = (case v of None \<Rightarrow> JNull | Some x \<Rightarrow> JStr x)"

definition auth_config :: "env \<Rightarrow> (world, reply) act" where
  "auth_config E =
     andthen (reading (\<lambda>s. s)) (\<lambda>s.
       ret (Json_Body (JObj
         [(''oidc_enabled'', JBool (oidc s \<noteq> None)),
          (''password_login'', JBool (ui_admin_password (cfg E) \<noteq> [] \<or> ui_viewer_password (cfg E) \<noteq> [])),
          (''provider_enabled'', JBool (provider_oidc s \<noteq> None)),
          (''catalog_enabled'', JBool (tenant_id (cfg E) \<noteq> [] \<and> \<not> provider_oidc_enabled (cfg E))),
          (''tenancy_configured'', JBool (tenant_id (cfg E) \<noteq> []))])))"

section \<open>The password login\<close>

definition throttle_retry_after :: "env \<Rightarrow> string \<Rightarrow> (world, int) act" where
  "throttle_retry_after E ip =
     andthen (tick (monotonic E)) (\<lambda>now.
     andthen (tick (monotonic E)) (\<lambda>now' s.
       (case retry_after ip now now' (throttle_state s) of
          (k, t) \<Rightarrow> (Inr k, s\<lparr>throttle_state := t\<rparr>))))"

definition throttle_record_failure :: "env \<Rightarrow> string \<Rightarrow> (world, unit) act" where
  "throttle_record_failure E ip =
     andthen (tick (monotonic E)) (\<lambda>now s.
       (case record_failure ip now (throttle_state s) of
          Inl e \<Rightarrow> (Inl e, s)
        | Inr t \<Rightarrow> (Inr (), s\<lparr>throttle_state := t\<rparr>)))"

definition throttle_record_success :: "string \<Rightarrow> (world, unit) act" where
  "throttle_record_success ip = updating (\<lambda>s. s\<lparr>throttle_state := record_success ip (throttle_state s)\<rparr>)"

definition too_many_attempts :: "int \<Rightarrow> exc" where
  "too_many_attempts locked =
     HTTPException 429 (JStr ''Too many failed login attempts; try again later'') [(''Retry-After'', show_int locked)]"

definition invalid_credentials :: exc where
  "invalid_credentials = HTTPException 401 (JStr ''Invalid credentials'') []"

definition password_session :: "string \<Rightarrow> dict" where
  "password_session role = [(''kind'', JStr ''password''), (''role'', JStr role), (''plane'', JStr plane_tenant)]"

definition refuse_locked :: "env \<Rightarrow> http_request \<Rightarrow> string \<Rightarrow> int \<Rightarrow> (world, reply) act" where
  "refuse_locked E q ip locked =
     andthen (record_request E q ''auth.login'' outcome_denied None [(''reason'', JStr ''throttled''), (''ip'', JStr ip)]) (\<lambda>_.
       throw (too_many_attempts locked))"

definition refuse_password :: "env \<Rightarrow> http_request \<Rightarrow> string \<Rightarrow> (world, reply) act" where
  "refuse_password E q ip =
     andthen (throttle_record_failure E ip) (\<lambda>_.
     andthen (record_request E q ''auth.login'' outcome_denied None [(''reason'', JStr ''bad_credentials''), (''ip'', JStr ip)]) (\<lambda>_.
       throw invalid_credentials))"

definition accept_password :: "env \<Rightarrow> http_request \<Rightarrow> string \<Rightarrow> string \<Rightarrow> (world, reply) act" where
  "accept_password E q ip role =
     andthen (throttle_record_success ip) (\<lambda>_.
     andthen (establish E (password_session role)) (\<lambda>_.
     andthen (record_request E q ''auth.login'' outcome_success (Some role) [(''ip'', JStr ip), (''method'', JStr ''password'')]) (\<lambda>_.
       ret (Json_Body (JObj [(''role'', JStr role)])))))"

definition login :: "env \<Rightarrow> http_request \<Rightarrow> string \<Rightarrow> (world, reply) act" where
  "login E q password =
     (let ip = client_ip (q_client q) (q_headers q) (trusted_nets E) in
      andthen (throttle_retry_after E ip) (\<lambda>locked.
        if locked \<noteq> 0 then refuse_locked E q ip locked
        else andthen (lift_result (resolve_role (cfg E) password)) (\<lambda>role.
          case role of
            None \<Rightarrow> refuse_password E q ip
          | Some r \<Rightarrow> accept_password E q ip r)))"

section \<open>Logout\<close>

definition session_idp :: "dict option \<Rightarrow> idp" where
  "session_idp sess = (if session_plane sess = plane_provider then ProviderIdp else TenantIdp)"

definition logout_url :: "env \<Rightarrow> dict option \<Rightarrow> (world, string option) act" where
  "logout_url E sess =
     andthen (reading (oidc_of (session_idp sess))) (\<lambda>client.
       if get_or sess ''kind'' = JStr ''oidc'' \<and> client \<noteq> None \<and> truthy (get_or sess ''id_token'')
       then catch (end_session_url E (session_idp sess) (py_str (get_or sess ''id_token''))
                     (if oidc_post_logout_redirect (cfg E) = [] then None else Some (oidc_post_logout_redirect (cfg E))))
              (\<lambda>e. ret None)
       else ret None)"

definition logout :: "env \<Rightarrow> http_request \<Rightarrow> (world, reply) act" where
  "logout E q =
     andthen (current_session E) (\<lambda>sess.
     andthen (logout_url E sess) (\<lambda>url.
     andthen (record_request E q ''auth.logout'' outcome_success None [(''method'', get_or sess ''kind'')]) (\<lambda>_.
     andthen destroy (\<lambda>_.
       ret (Json_Body (JObj [(''status'', JStr ''logged out''), (''end_session_url'', jopt url)]))))))"

section \<open>Who am I\<close>

text \<open>\<open>sorted\<close> of strings; a session holds its provider scopes as strings.\<close>

definition py_sorted :: "json list \<Rightarrow> exc + json list" where
  "py_sorted xs =
     (if length xs \<le> 1 then Inr xs
      else if list_all is_str xs then Inr (map JStr (sort (map py_str xs)))
      else Inl (PyError ''not supported between instances''))"

definition me_provider :: "dict \<Rightarrow> (world, reply) act" where
  "me_provider d =
     andthen (lift_result (py_sorted (json_items (py_or (dict_get d ''provider_scopes'') (JList []))))) (\<lambda>scopes.
       ret (Json_Body (JObj
         [(''kind'', dict_get_or d ''kind'' (JStr ''oidc'')), (''plane'', JStr plane_provider),
          (''subject'', py_or (dict_get d ''sub'') (JStr ''unknown'')), (''name'', dict_get d ''name''),
          (''role'', JNull), (''scopes'', JList []), (''provider_scopes'', JList scopes)])))"

definition role_scopes :: "json \<Rightarrow> string list" where
  "role_scopes role = (case role of JStr r \<Rightarrow> (case map_of password_role_scopes r of Some sc \<Rightarrow> sc | None \<Rightarrow> []) | _ \<Rightarrow> [])"

definition me_password :: "dict \<Rightarrow> (world, reply) act" where
  "me_password d =
     (let role = py_or (dict_get d ''role'') (JStr ''viewer'') in
      ret (Json_Body (JObj
        [(''kind'', JStr ''password''), (''plane'', JStr plane_tenant), (''subject'', JStr (''local:'' @ py_str role)),
         (''role'', role), (''scopes'', JList (map JStr (role_scopes role))), (''provider_scopes'', JList [])])))"

definition me_reply :: "dict \<Rightarrow> json \<Rightarrow> json \<Rightarrow> (world, reply) act" where
  "me_reply d subject scopes =
     ret (Json_Body (JObj
       [(''kind'', JStr ''oidc''), (''plane'', JStr plane_tenant), (''subject'', subject), (''name'', dict_get d ''name''),
        (''role'', JNull), (''scopes'', scopes), (''provider_scopes'', JList [])]))"

definition session_expired :: exc where
  "session_expired = HTTPException 401 (JStr ''Session expired'') []"

definition try_relay_get :: "env \<Rightarrow> string \<Rightarrow> (world, response option) act" where
  "try_relay_get E path = catch (andthen (relay_get E path) (\<lambda>resp. ret (Some resp))) (\<lambda>e. ret None)"

definition me_oidc :: "env \<Rightarrow> dict \<Rightarrow> (world, reply) act" where
  "me_oidc E d =
     (let subject = py_or (dict_get d ''sub'') (JStr ''unknown'') in
      andthen (try_relay_get E ''/auth/me'') (\<lambda>answered.
        case answered of
          None \<Rightarrow> me_reply d subject (JList [])
        | Some resp \<Rightarrow>
            (if r_status resp = 401 then andthen destroy (\<lambda>_. throw session_expired)
             else if r_status resp = 200 then
               andthen (json_object resp) (\<lambda>data.
                 me_reply d (dict_get_or data ''subject'' subject) (dict_get_or data ''scopes'' (JList [])))
             else me_reply d subject (JList []))))"

definition me :: "env \<Rightarrow> (world, reply) act" where
  "me E =
     andthen (current_session E) (\<lambda>sess.
       case sess of
         None \<Rightarrow> throw not_authenticated
       | Some d \<Rightarrow>
           (if d = [] then throw not_authenticated
            else if session_plane sess = plane_provider then me_provider d
            else if dict_get d ''kind'' = JStr ''password'' then me_password d
            else me_oidc E d))"

section \<open>The federated logins\<close>

definition start_login :: "env \<Rightarrow> idp \<Rightarrow> string \<Rightarrow> string \<Rightarrow> (world, reply) act" where
  "start_login E p tx_key not_enabled =
     andthen (reading (oidc_of p)) (\<lambda>client.
       case client of
         None \<Rightarrow> throw (HTTPException 404 (JStr not_enabled) [])
       | Some c \<Rightarrow>
           andthen (draw E) (\<lambda>state.
           andthen (draw E) (\<lambda>nonce.
           andthen (make_pkce_pair E) (\<lambda>(verifier, challenge).
           andthen (updating (\<lambda>s. s\<lparr>cookie := dict_set tx_key
              (JObj [(''state'', JStr state), (''nonce'', JStr nonce), (''verifier'', JStr verifier)]) (cookie s)\<rparr>)) (\<lambda>_.
           andthen (authorization_url E p \<lparr>ar_state = state, ar_nonce = nonce, ar_challenge = challenge,
              ar_acr_values = None, ar_max_age = None, ar_redirect_uri = None, ar_extra_scopes = []\<rparr>) (\<lambda>url.
             ret (Redirect url)))))))"

definition oidc_login :: "env \<Rightarrow> (world, reply) act" where
  "oidc_login E = start_login E TenantIdp ''oidc_tx'' ''OIDC is not enabled''"

definition provider_login :: "env \<Rightarrow> (world, reply) act" where
  "provider_login E = start_login E ProviderIdp ''provider_oidc_tx'' ''The provider plane is not enabled on this BFF''"

text \<open>The query parameters of a callback.\<close>

record callback =
  cb_code :: "string option"
  cb_state :: "string option"
  cb_error :: "string option"

definition bad_request :: "string \<Rightarrow> exc" where
  "bad_request why = HTTPException 400 (JStr why) []"

definition compare_json :: "string \<Rightarrow> json \<Rightarrow> exc + bool" where
  "compare_json a v = (case v of JStr b \<Rightarrow> compare_digest a b | _ \<Rightarrow> Inl (PyError ''unsupported operand types''))"

definition require_key :: "dict \<Rightarrow> string \<Rightarrow> (world, json) act" where
  "require_key d k = (case map_of d k of None \<Rightarrow> throw (KeyError k) | Some v \<Rightarrow> ret v)"

definition pop_cookie :: "string \<Rightarrow> (world, json) act" where
  "pop_cookie k = andthen (reading (\<lambda>s. dict_get (cookie s) k)) (\<lambda>v.
     andthen (updating (\<lambda>s. s\<lparr>cookie := dict_pop k (cookie s)\<rparr>)) (\<lambda>_. ret v))"

text \<open>The exchange and the validation; an \<open>OIDCError\<close> of either is recorded and refused.\<close>

definition exchange_and_validate :: "env \<Rightarrow> idp \<Rightarrow> string \<Rightarrow> dict \<Rightarrow> (world, dict \<times> dict) act" where
  "exchange_and_validate E p code_text tx =
     andthen (require_key tx ''verifier'') (\<lambda>verifier.
     andthen (exchange_code E p code_text (py_str verifier) None) (\<lambda>tokens.
     andthen (require_key tx ''nonce'') (\<lambda>nonce.
     andthen (validate_id_token E p (dict_get tokens ''id_token'') nonce (dict_get tokens ''access_token'')) (\<lambda>claims.
       ret (tokens, claims)))))"

definition recorded_exchange :: "env \<Rightarrow> http_request \<Rightarrow> idp \<Rightarrow> string \<Rightarrow> string \<Rightarrow> dict \<Rightarrow> (world, dict \<times> dict) act" where
  "recorded_exchange E q p action code_text tx =
     catch (exchange_and_validate E p code_text tx)
       (\<lambda>e. case e of
          OIDCError why \<Rightarrow>
            andthen (record_request E q action outcome_denied None [(''reason'', JStr ''token_exchange_failed'')]) (\<lambda>_.
              throw (HTTPException 401 (JStr (''OIDC login failed: '' @ why)) []))
        | _ \<Rightarrow> throw e)"

definition check_state :: "env \<Rightarrow> http_request \<Rightarrow> string \<Rightarrow> string \<Rightarrow> dict \<Rightarrow> (world, unit) act" where
  "check_state E q action state tx =
     andthen (lift_result (compare_json state (dict_get_or tx ''state'' (JStr '''')))) (\<lambda>same.
       if same then ret ()
       else andthen (record_request E q action outcome_denied None [(''reason'', JStr ''state_mismatch'')]) (\<lambda>_.
              throw (bad_request ''OIDC state mismatch'')))"

text \<open>What follows once the transaction is popped.\<close>

definition callback_with :: "env \<Rightarrow> http_request \<Rightarrow> idp \<Rightarrow> string \<Rightarrow> callback \<Rightarrow> json \<Rightarrow> (world, dict \<times> dict) act" where
  "callback_with E q p a cb tx =
     (if opt_text (cb_error cb) '''' \<noteq> [] then throw (bad_request (''IdP returned an error: '' @ opt_text (cb_error cb) ''''))
      else if opt_text (cb_code cb) '''' = [] \<or> opt_text (cb_state cb) '''' = [] \<or> \<not> is_dict tx
      then throw (bad_request ''Invalid OIDC callback'')
      else (case tx of
              JObj t \<Rightarrow>
                andthen (check_state E q a (opt_text (cb_state cb) '''') t) (\<lambda>_.
                  recorded_exchange E q p a (opt_text (cb_code cb) '''') t)
            | _ \<Rightarrow> throw (bad_request ''Invalid OIDC callback'')))"

text \<open>What the two callbacks share: everything up to the session they establish.\<close>

definition finish_callback :: "env \<Rightarrow> http_request \<Rightarrow> idp \<Rightarrow> string \<Rightarrow> string \<Rightarrow> callback \<Rightarrow> (world, dict \<times> dict) act" where
  "finish_callback E q p tx_key action cb = andthen (pop_cookie tx_key) (callback_with E q p action cb)"

definition display_name_of :: "dict \<Rightarrow> json" where
  "display_name_of claims =
     py_or (dict_get claims ''name'') (py_or (dict_get claims ''preferred_username'') (dict_get claims ''email''))"

definition oidc_session :: "dict \<Rightarrow> dict \<Rightarrow> dict" where
  "oidc_session tokens claims =
     [(''kind'', JStr ''oidc''), (''plane'', JStr plane_tenant), (''sub'', dict_get claims ''sub''),
      (''name'', display_name_of claims), (''access_token'', dict_get tokens ''access_token''),
      (''id_token'', dict_get tokens ''id_token''), (''refresh_token'', dict_get tokens ''refresh_token'')]"

definition post_login :: "settings \<Rightarrow> reply" where
  "post_login st = Redirect (if oidc_post_login_redirect st = [] then ''/'' else oidc_post_login_redirect st)"

definition oidc_callback :: "env \<Rightarrow> http_request \<Rightarrow> callback \<Rightarrow> (world, reply) act" where
  "oidc_callback E q cb =
     andthen (reading (oidc_of TenantIdp)) (\<lambda>client.
       if client = None then throw (HTTPException 404 (JStr ''OIDC is not enabled'') [])
       else andthen (finish_callback E q TenantIdp ''oidc_tx'' ''auth.oidc_login'' cb) (\<lambda>(tokens, claims).
         andthen (establish E (oidc_session tokens claims)) (\<lambda>_.
         andthen (record_request E q ''auth.oidc_login'' outcome_success None [(''method'', JStr ''oidc'')]) (\<lambda>_.
           ret (post_login (cfg E))))))"

text \<open>Some identity providers emit a single group as a bare string.\<close>

definition asserted_groups :: "settings \<Rightarrow> dict \<Rightarrow> json" where
  "asserted_groups st claims =
     (case py_or (dict_get claims (provider_groups_claim st)) (JList []) of
        JStr g \<Rightarrow> JList [JStr g]
      | v \<Rightarrow> v)"

definition provider_session :: "dict \<Rightarrow> dict \<Rightarrow> string list \<Rightarrow> dict" where
  "provider_session tokens claims scopes =
     [(''kind'', JStr ''oidc''), (''plane'', JStr plane_provider), (''sub'', dict_get claims ''sub''),
      (''name'', display_name_of claims), (''provider_scopes'', JList (map JStr (sort scopes))),
      (''access_token'', dict_get tokens ''access_token''), (''id_token'', dict_get tokens ''id_token'')]"

text \<open>Iterating over a group claim that is a number or a boolean is an error.\<close>

definition iterable :: "json \<Rightarrow> bool" where
  "iterable v = (case v of JList xs \<Rightarrow> True | JStr s \<Rightarrow> True | JObj d \<Rightarrow> True | _ \<Rightarrow> False)"

definition scopes_of_claims :: "settings \<Rightarrow> dict \<Rightarrow> exc + string list" where
  "scopes_of_claims st claims =
     (if iterable (asserted_groups st claims)
      then provider_scopes_for_groups (asserted_groups st claims) (provider_group_scopes st)
      else Inl (PyError ''not iterable''))"

definition provider_callback :: "env \<Rightarrow> http_request \<Rightarrow> callback \<Rightarrow> (world, reply) act" where
  "provider_callback E q cb =
     andthen (reading (oidc_of ProviderIdp)) (\<lambda>client.
       if client = None then throw (HTTPException 404 (JStr ''The provider plane is not enabled on this BFF'') [])
       else andthen (finish_callback E q ProviderIdp ''provider_oidc_tx'' ''auth.provider_login'' cb) (\<lambda>(tokens, claims).
         andthen (lift_result (scopes_of_claims (cfg E) claims)) (\<lambda>scopes.
         andthen (if scopes = [] then record_request E q ''auth.provider_login'' outcome_denied None
                     [(''reason'', JStr ''no_mapped_group''), (''method'', JStr ''oidc'')] else ret ()) (\<lambda>_.
         andthen (establish E (provider_session tokens claims scopes)) (\<lambda>_.
         andthen (record_request E q ''auth.provider_login'' outcome_success None [(''method'', JStr ''oidc'')]) (\<lambda>_.
           ret (post_login (cfg E))))))))"

section \<open>Steps that log nobody in\<close>

text \<open>The browser keeps the session id it had, and no stored session appears or changes.\<close>

definition no_login :: "world \<Rightarrow> world \<Rightarrow> bool" where
  "no_login s s' \<longleftrightarrow> dict_get (cookie s') cookie_sid_key = dict_get (cookie s) cookie_sid_key
     \<and> (\<forall>t i. mem_view (store s') t i = None \<or> mem_view (store s') t i = mem_view (store s) t i)"

interpretation no_login: step_order no_login
proof
  show "no_login s s" for s by (simp add: no_login_def)
  show "no_login s u" if "no_login s t" "no_login t u" for s t u
    using that unfolding no_login_def by (auto, metis+)
qed

lemma no_login_frame: "cookie s' = cookie s \<Longrightarrow> store s' = store s \<Longrightarrow> no_login s s'"
  by (simp add: no_login_def)

lemma no_login_sid: "no_login s s' \<Longrightarrow> current_sid s' = current_sid s"
  by (simp add: no_login_def current_sid_def)

lemma no_login_idp: "stable idp_frame m \<Longrightarrow> stable no_login m"
  unfolding stable_def using idp_frame_fields(1,2) no_login_frame by blast

lemma no_login_tick [stable_intros]: "stable no_login (tick f)"
  by (simp add: stable_def tick_def no_login_frame)

lemma no_login_draw [stable_intros]: "stable no_login (draw E)"
  by (simp add: stable_def draw_def no_login_frame)

lemma no_login_cache [stable_intros]: "stable no_login (cache_session d)"
  by (simp add: stable_def cache_session_def act_simps no_login_frame)

lemma mem_get_view_shrinks: "mem_view (snd (mem_get sid now st)) t i = None \<or> mem_view (snd (mem_get sid now st)) t i = mem_view st t i"
  by (auto simp: mem_get_def mem_view_def map_of_delete split: option.splits prod.splits)

lemma no_login_store_get [stable_intros]: "stable no_login (store_get E sid)"
  unfolding stable_def
proof
  fix s :: world
  obtain d st where g: "mem_get sid (monotonic E (ticks s)) (store s) = (d, st)"
    by (cases "mem_get sid (monotonic E (ticks s)) (store s)")
  then show "no_login s (snd (store_get E sid s))"
    using mem_get_view_shrinks [of sid "monotonic E (ticks s)" "store s"]
    by (simp add: store_get_def act_simps tick_def no_login_def)
qed

lemma no_login_load [stable_intros]: "stable no_login (load E)"
proof -
  have "stable no_login (andthen (store_get E sid) (\<lambda>d. andthen (cache_session d) (\<lambda>_. ret d)))" for sid
    by (intro no_login.stable_combinators stable_intros)
  moreover have "stable no_login (andthen (cache_session None) (\<lambda>_. ret None))"
    by (intro no_login.stable_combinators stable_intros)
  ultimately show ?thesis
    by (auto simp: stable_def load_def act_simps no_login.R_refl split: option.splits)
qed

lemma no_login_current_session [stable_intros]: "stable no_login (current_session E)"
  unfolding current_session_def by (intro no_login.stable_combinators stable_intros)

lemma no_login_record_request [stable_intros]: "stable no_login (record_request E q a out t d)"
  unfolding record_request_def
  by (intro no_login.stable_combinators stable_intros no_login.stable_updating)
    (auto simp: Let_def intro: no_login_frame split: prod.split)

lemma no_login_lift_result [stable_intros]: "stable no_login (lift_result r)"
  by (rule no_login_idp) (rule stable_intros)

lemma record_request_returns: "fst (record_request E q a out t d s) = Inr ()"
proof -
  obtain s1 where "current_session E s = (Inr (known_session E s), s1)" by (rule current_session_run)
  then show ?thesis by (simp add: record_request_def act_simps tick_def draw_def)
qed

lemma record_request_run: "record_request E q a out t d s = (Inr (), snd (record_request E q a out t d s))"
  by (metis record_request_returns prod.collapse)

lemma record_request_then [act_simps]:
  "(case record_request E q a out t d s of (Inl e, s') \<Rightarrow> f e s' | (Inr x, s') \<Rightarrow> g x s') = g () (snd (record_request E q a out t d s))"
  by (subst record_request_run) simp

text \<open>Recording a request does not change who is logged in.\<close>

lemma record_request_cached:
  "cached s = Some x \<Longrightarrow> cached (snd (record_request E q a out t d s)) = Some x
     \<and> cookie (snd (record_request E q a out t d s)) = cookie s \<and> store (snd (record_request E q a out t d s)) = store s
     \<and> throttle_state (snd (record_request E q a out t d s)) = throttle_state s"
  by (simp add: record_request_def act_simps current_session_cached tick_def draw_def Let_def split: prod.split)

lemma record_request_throttle: "throttle_state (snd (record_request E q a out t d s)) = throttle_state s"
proof -
  obtain d' tk st where load: "load E s = (Inr d', s\<lparr>ticks := tk, store := st, cached := Some d'\<rparr>)"
    using load_run by blast
  then show ?thesis
    by (simp add: record_request_def current_session_def act_simps tick_def draw_def Let_def split: prod.split)
qed

section \<open>The password login\<close>

lemma refuse_locked_run:
  "refuse_locked E q ip k s = (Inl (too_many_attempts k), snd (refuse_locked E q ip k s))"
  by (simp add: refuse_locked_def act_simps)

lemma no_login_refuse_locked: "stable no_login (refuse_locked E q ip k)"
  unfolding refuse_locked_def by (intro no_login.stable_combinators stable_intros)

lemma refuse_locked_throttle: "throttle_state (snd (refuse_locked E q ip k s)) = throttle_state s"
  by (simp add: refuse_locked_def act_simps record_request_throttle)

lemma refuse_password_run:
  assumes "record_failure ip (monotonic E (ticks s)) (throttle_state s) = Inr t"
  shows "\<exists>s'. refuse_password E q ip s = (Inl invalid_credentials, s') \<and> throttle_state s' = t \<and> no_login s s'"
proof -
  let ?s1 = "s\<lparr>ticks := Suc (ticks s), throttle_state := t\<rparr>"
  let ?rec = "record_request E q ''auth.login'' outcome_denied None [(''reason'', JStr ''bad_credentials''), (''ip'', JStr ip)]"
  have "throttle_record_failure E ip s = (Inr (), ?s1)"
    using assms by (simp add: throttle_record_failure_def act_simps tick_def)
  then have "refuse_password E q ip s = (Inl invalid_credentials, snd (?rec ?s1))"
    by (simp add: refuse_password_def act_simps)
  moreover have "no_login s (snd (?rec ?s1))"
  proof (rule no_login.R_trans)
    show "no_login s ?s1" by (simp add: no_login_frame)
    show "no_login ?s1 (snd (?rec ?s1))" using no_login_record_request by (simp add: stable_def)
  qed
  ultimately show ?thesis by (simp add: record_request_throttle)
qed

lemma accept_password_run:
  "\<exists>s'. accept_password E q ip role s = (Inr (Json_Body (JObj [(''role'', JStr role)])), s')
     \<and> throttle_state s' = record_success ip (throttle_state s) \<and> cached s' = Some (Some (password_session role))"
proof -
  let ?s1 = "s\<lparr>throttle_state := record_success ip (throttle_state s)\<rparr>"
  obtain sid s2 where e: "establish E (password_session role) ?s1 = (Inr sid, s2)"
    "cached s2 = Some (Some (password_session role))" "throttle_state s2 = throttle_state ?s1"
    by (simp add: establish_run Let_def)
  let ?rec = "record_request E q ''auth.login'' outcome_success (Some role) [(''ip'', JStr ip), (''method'', JStr ''password'')]"
  have "accept_password E q ip role s = (Inr (Json_Body (JObj [(''role'', JStr role)])), snd (?rec s2))"
    using e(1) by (simp add: accept_password_def throttle_record_success_def act_simps)
  then show ?thesis using e(2,3) record_request_cached [OF e(2)] by simp
qed

lemma known_session_cached: "cached s = Some x \<Longrightarrow> known_session E s = session_of x"
  by (simp add: known_session_def current_session_cached)

text \<open>The three ways a login goes on, from the state \<open>s1\<close> in which the throttle has answered.\<close>

lemma login_locked:
  assumes "throttle_retry_after E (client_ip (q_client q) (q_headers q) (trusted_nets E)) s = (Inr k, s1)" "k \<noteq> 0"
    and f: "no_login s s1"
  shows "\<exists>s'. login E q password s = (Inl (too_many_attempts k), s') \<and> throttle_state s' = throttle_state s1 \<and> no_login s s'"
proof -
  let ?ip = "client_ip (q_client q) (q_headers q) (trusted_nets E)"
  have "login E q password s = refuse_locked E q ?ip k s1" using assms(1,2) by (simp add: login_def Let_def act_simps)
  then have "login E q password s = (Inl (too_many_attempts k), snd (refuse_locked E q ?ip k s1))"
    using refuse_locked_run by metis
  moreover have "no_login s (snd (refuse_locked E q ?ip k s1))"
    by (rule no_login.R_trans [OF f]) (use no_login_refuse_locked in \<open>simp add: stable_def\<close>)
  ultimately show ?thesis using refuse_locked_throttle by blast
qed

lemma login_unlocked:
  assumes "throttle_retry_after E (client_ip (q_client q) (q_headers q) (trusted_nets E)) s = (Inr 0, s1)"
    and "resolve_role (cfg E) password = Inr role"
  shows "login E q password s =
    (case role of None \<Rightarrow> refuse_password E q (client_ip (q_client q) (q_headers q) (trusted_nets E)) s1
     | Some r \<Rightarrow> accept_password E q (client_ip (q_client q) (q_headers q) (trusted_nets E)) r s1)"
  using assms by (simp add: login_def Let_def act_simps lift_result_def split: option.split)

lemma accepted_session:
  assumes "cached s = Some (Some (password_session r))"
  shows "known_session E s = Some (password_session r)" and "session_plane (known_session E s) = plane_tenant"
proof -
  show k: "known_session E s = Some (password_session r)"
    using known_session_cached [OF assms] by (simp add: session_of_def password_session_def known_kinds_def)
  show "session_plane (known_session E s) = plane_tenant"
    by (simp add: k session_plane_def get_or_def password_session_def plane_tenant_def plane_provider_def)
qed

text \<open>C29. The login handler is the throttle's login attempt of the caller's address, answered as HTTP:
  a locked address is refused with 429 and the time to wait without a look at the password, a
  wrong password is counted and refused with 401, a right one clears the address and
  establishes a password session of its role on the tenant plane. The clock is read as one
  instant.\<close>

theorem login_refines_attempt:
  assumes same: "monotonic E (ticks s) = now" "monotonic E (Suc (ticks s)) = now" "monotonic E (Suc (Suc (ticks s))) = now"
    and role: "resolve_role (cfg E) password = Inr role"
    and spec: "login_attempt (client_ip (q_client q) (q_headers q) (trusted_nets E)) (role \<noteq> None) now (throttle_state s) = Inr (v, t)"
  shows "\<exists>r s'. login E q password s = (r, s') \<and> throttle_state s' = t
    \<and> (case v of
         Locked k \<Rightarrow> r = Inl (too_many_attempts k) \<and> no_login s s'
       | Rejected \<Rightarrow> r = Inl invalid_credentials \<and> no_login s s'
       | Accepted \<Rightarrow> r = Inr (Json_Body (JObj [(''role'', jopt role)]))
           \<and> known_session E s' = Some (password_session (the role)) \<and> session_plane (known_session E s') = plane_tenant)"
proof -
  let ?ip = "client_ip (q_client q) (q_headers q) (trusted_nets E)"
  obtain k t1 where ra: "retry_after ?ip now now (throttle_state s) = (k, t1)" by (cases "retry_after ?ip now now (throttle_state s)")
  let ?s1 = "s\<lparr>ticks := Suc (Suc (ticks s)), throttle_state := t1\<rparr>"
  have check: "throttle_retry_after E ?ip s = (Inr k, ?s1)"
    using same ra by (simp add: throttle_retry_after_def act_simps tick_def)
  have f1: "no_login s ?s1" by (simp add: no_login_frame)
  consider "k \<noteq> 0" | "k = 0" "role = None" | r where "k = 0" "role = Some r" by blast
  then show ?thesis
  proof cases
    case 1
    then have "v = Locked k" "t = t1" using spec ra by (auto simp: login_attempt_def)
    then show ?thesis using login_locked [OF check 1 f1, of password] by auto
  next
    case 2
    then have v: "v = Rejected" and rf: "record_failure ?ip (monotonic E (ticks ?s1)) (throttle_state ?s1) = Inr t"
      using spec ra same by (auto simp: login_attempt_def split: sum.splits)
    obtain s' where s': "refuse_password E q ?ip ?s1 = (Inl invalid_credentials, s')" "throttle_state s' = t" "no_login ?s1 s'"
      using refuse_password_run [OF rf] by blast
    have "login E q password s = (Inl invalid_credentials, s')"
      using login_unlocked [OF _ role, of q s ?s1] check 2 s'(1) by simp
    then show ?thesis using s' v no_login.R_trans [OF f1 s'(3)] by simp
  next
    case 3
    then have v: "v = Accepted" "t = record_success ?ip (throttle_state ?s1)"
      using spec ra by (auto simp: login_attempt_def)
    obtain s' where s': "accept_password E q ?ip r ?s1 = (Inr (Json_Body (JObj [(''role'', JStr r)])), s')"
      "throttle_state s' = t" "cached s' = Some (Some (password_session r))"
      using accept_password_run [of E q ?ip r ?s1] v(2) by auto
    have "login E q password s = (Inr (Json_Body (JObj [(''role'', JStr r)])), s')"
      using login_unlocked [OF _ role, of q s ?s1] check 3 s'(1) by simp
    then show ?thesis using s'(2) v 3 accepted_session [OF s'(3), of E] by (simp add: jopt_def)
  qed
qed

section \<open>The callbacks\<close>

lemma no_login_pop_cookie: "k \<noteq> cookie_sid_key \<Longrightarrow> stable no_login (pop_cookie k)"
  by (simp add: stable_def pop_cookie_def act_simps no_login_def dict_simps)

lemma no_login_require_key [stable_intros]: "stable no_login (require_key d k)"
  by (auto simp: stable_def require_key_def act_simps no_login.R_refl split: option.split)

lemma no_login_exchange_and_validate [stable_intros]: "stable no_login (exchange_and_validate E p c tx)"
  unfolding exchange_and_validate_def
  by (intro no_login.stable_combinators no_login_require_key no_login_idp [OF idp_frame_exchange_code]
      no_login_idp [OF idp_frame_validate_id_token])

lemma no_login_recorded_exchange [stable_intros]: "stable no_login (recorded_exchange E q p a c tx)"
proof -
  have "stable no_login (case e of
          OIDCError why \<Rightarrow>
            andthen (record_request E q a outcome_denied None [(''reason'', JStr ''token_exchange_failed'')]) (\<lambda>_.
              throw (HTTPException 401 (JStr (''OIDC login failed: '' @ why)) []))
        | _ \<Rightarrow> throw e)" for e
    by (cases e) (auto intro: no_login.stable_combinators stable_intros)
  then show ?thesis
    unfolding recorded_exchange_def by (intro no_login.stable_catch no_login_exchange_and_validate)
qed

lemma no_login_check_state [stable_intros]: "stable no_login (check_state E q a st tx)"
  unfolding check_state_def by (intro no_login.stable_combinators stable_intros)

lemma no_login_finish_callback:
  "k \<noteq> cookie_sid_key \<Longrightarrow> stable no_login (finish_callback E q p k a cb)"
  unfolding finish_callback_def callback_with_def
  by (intro no_login.stable_combinators no_login_pop_cookie)
    (auto intro: no_login.stable_combinators stable_intros split: json.split)

text \<open>The transaction is used up, and the browser's cookie otherwise as it was.\<close>

definition same_cookie :: "world \<Rightarrow> world \<Rightarrow> bool" where
  "same_cookie s s' \<longleftrightarrow> cookie s' = cookie s"

interpretation same_cookie: step_order same_cookie
  by unfold_locales (auto simp: same_cookie_def)

lemma same_cookie_record [stable_intros]: "stable same_cookie (record_request E q a out t d)"
proof -
  have "cookie (snd (record_request E q a out t d s)) = cookie s" for s
  proof -
    obtain d' tk st where "load E s = (Inr d', s\<lparr>ticks := tk, store := st, cached := Some d'\<rparr>)"
      using load_run by blast
    then show ?thesis
      by (simp add: record_request_def current_session_def run_andthen run_ret run_updating tick_def draw_def Let_def
          split: prod.split)
  qed
  then show ?thesis by (simp add: stable_def same_cookie_def)
qed

lemma same_cookie_idp: "stable idp_frame m \<Longrightarrow> stable same_cookie m"
  unfolding stable_def same_cookie_def using idp_frame_fields(2) by blast

lemma same_cookie_exchange [stable_intros]: "stable same_cookie (recorded_exchange E q p a c tx)"
proof -
  have "stable same_cookie (require_key d k)" for d k
    by (auto simp: stable_def require_key_def act_simps same_cookie.R_refl split: option.split)
  then have "stable same_cookie (exchange_and_validate E p c tx)"
    unfolding exchange_and_validate_def
    by (intro same_cookie.stable_combinators same_cookie_idp [OF idp_frame_exchange_code]
      same_cookie_idp [OF idp_frame_validate_id_token])
  moreover have "stable same_cookie (case e of
          OIDCError why \<Rightarrow>
            andthen (record_request E q a outcome_denied None [(''reason'', JStr ''token_exchange_failed'')]) (\<lambda>_.
              throw (HTTPException 401 (JStr (''OIDC login failed: '' @ why)) []))
        | _ \<Rightarrow> throw e)" for e
    by (cases e) (auto intro: same_cookie.stable_combinators stable_intros)
  ultimately show ?thesis
    unfolding recorded_exchange_def by (intro same_cookie.stable_catch)
qed

lemma same_cookie_check_state [stable_intros]: "stable same_cookie (check_state E q a st tx)"
proof -
  have "stable same_cookie (lift_result r)" for r by (rule same_cookie_idp) (rule stable_intros)
  then show ?thesis unfolding check_state_def by (intro same_cookie.stable_combinators stable_intros)
qed

lemma finish_callback_popped:
  "finish_callback E q p k a cb s = callback_with E q p a cb (dict_get (cookie s) k) (s\<lparr>cookie := dict_pop k (cookie s)\<rparr>)"
  by (simp add: finish_callback_def pop_cookie_def act_simps)

lemma finish_callback_cookie: "cookie (snd (finish_callback E q p k a cb s)) = dict_pop k (cookie s)"
proof -
  have "stable same_cookie (callback_with E q p a cb tx)" for tx
    unfolding callback_with_def
    by (intro same_cookie.stable_if same_cookie.stable_throw)
      (auto intro: same_cookie.stable_combinators stable_intros split: json.split)
  then show ?thesis by (simp add: finish_callback_popped stable_def same_cookie_def)
qed

lemma check_state_accepts:
  "check_state E q a state tx s = (Inr (), s') \<Longrightarrow> state \<noteq> [] \<Longrightarrow> dict_get tx ''state'' = JStr state \<and> s' = s"
  by (auto simp: check_state_def lift_result_def compare_json_def compare_digest_def act_simps dict_get_or_def dict_get_def
      split: json.splits if_splits option.splits)

lemma opt_text_some: "opt_text v '''' \<noteq> [] \<Longrightarrow> v = Some (opt_text v '''')"
  by (auto simp: opt_text_def split: option.splits list.splits)

lemma finish_callback_accepts:
  assumes "finish_callback E q p k a cb s = (Inr (tokens, claims), s')"
  obtains t state nonce s1 where "dict_get (cookie s) k = JObj t" and "cb_state cb = Some state" and "state \<noteq> []"
    and "dict_get t ''state'' = JStr state" and "dict_get t ''nonce'' = nonce" and "opt_text (cb_error cb) '''' = []"
    and "idp_frame (s\<lparr>cookie := dict_pop k (cookie s)\<rparr>) s1"
    and "validate_id_token E p (dict_get tokens ''id_token'') nonce (dict_get tokens ''access_token'') s1 = (Inr claims, s')"
    and "all_pinned s \<Longrightarrow> all_pinned s1"
proof -
  let ?s0 = "s\<lparr>cookie := dict_pop k (cookie s)\<rparr>"
  have run: "callback_with E q p a cb (dict_get (cookie s) k) ?s0 = (Inr (tokens, claims), s')"
    using assms by (simp add: finish_callback_popped)
  then have err: "opt_text (cb_error cb) '''' = []" and st: "opt_text (cb_state cb) '''' \<noteq> []"
    and d: "is_dict (dict_get (cookie s) k)" by (auto simp: callback_with_def run_throw split: if_splits)
  then obtain t where t: "dict_get (cookie s) k = JObj t" by (auto simp: is_dict_iff)
  have run2: "andthen (check_state E q a (opt_text (cb_state cb) '''') t) (\<lambda>_.
      recorded_exchange E q p a (opt_text (cb_code cb) '''') t) ?s0 = (Inr (tokens, claims), s')"
    using run err st t by (auto simp: callback_with_def run_throw split: if_splits)
  then obtain s0' where chk: "check_state E q a (opt_text (cb_state cb) '''') t ?s0 = (Inr (), s0')"
    and ex: "recorded_exchange E q p a (opt_text (cb_code cb) '''') t s0' = (Inr (tokens, claims), s')"
    by (auto simp: run_andthen split: prod.splits sum.splits)
  from check_state_accepts [OF chk st] have state: "dict_get t ''state'' = JStr (opt_text (cb_state cb) '''')" "s0' = ?s0" by auto
  have "exchange_and_validate E p (opt_text (cb_code cb) '''') t ?s0 = (Inr (tokens, claims), s')"
    using ex state(2)
    by (auto simp: recorded_exchange_def run_catch run_andthen run_throw split: prod.splits sum.splits exc.splits)
  then obtain verifier nonce s1 where e: "exchange_code E p (opt_text (cb_code cb) '''') (py_str verifier) None ?s0 = (Inr tokens, s1)"
    and n: "map_of t ''nonce'' = Some nonce"
    and v: "validate_id_token E p (dict_get tokens ''id_token'') nonce (dict_get tokens ''access_token'') s1 = (Inr claims, s')"
    by (auto simp: exchange_and_validate_def require_key_def act_simps split: option.splits prod.splits sum.splits)
  have "all_pinned s \<Longrightarrow> all_pinned s1"
    using stableD [OF keeps_pinned_exchange_code e] by (simp add: keeps_pinned_def all_pinned_def)
  then show ?thesis
    using that [OF t opt_text_some [OF st] st state(1) _ err stableD [OF idp_frame_exchange_code e] v] n by (simp add: dict_get_def)
qed

lemma establish_keeps:
  "\<exists>s'. establish E data s = (Inr (random_token E (draws s)), s') \<and> cached s' = Some (Some data)
     \<and> cookie s' = [(cookie_sid_key, JStr (random_token E (draws s)))]"
  by (simp add: establish_run Let_def)

lemma establish_then [act_simps]:
  "(case establish E d s of (Inl e, s') \<Rightarrow> f e s' | (Inr x, s') \<Rightarrow> g x s') = g (random_token E (draws s)) (snd (establish E d s))"
  by (simp add: establish_run Let_def)

lemma validate_shows_client: "validate_id_token E p tok nonce acc s = (Inr claims, s') \<Longrightarrow> \<exists>c. oidc_of p s = Some c"
  by (auto simp: validate_id_token_def discover_def the_client_run act_simps split: prod.splits sum.splits option.splits)

lemma validate_bound:
  assumes "all_pinned s" and "validate_id_token E p tok nonce acc s = (Inr claims, s')"
  shows "dict_get claims ''nonce'' = nonce \<and> (\<exists>c meta n. oidc_of p s = Some c
      \<and> rstrip_slash (declared_issuer meta) = rstrip_slash (ov_issuer (oc_view c))
      \<and> jwt_decode E n (oc_view c) meta (py_str tok) = Inr claims)"
proof -
  obtain c where c: "oidc_of p s = Some c" using validate_shows_client [OF assms(2)] by blast
  obtain meta s1 where d: "discover E p s = (Inr meta, s1)"
    using assms(2) by (auto simp: validate_id_token_def act_simps split: prod.splits sum.splits)
  have of: "oidc_of p s1 = Some (c\<lparr>oc_meta := Some meta\<rparr>)" using discover_view [OF d c] .
  then have "pinned (c\<lparr>oc_meta := Some meta\<rparr>)" using all_pinned_of discover_run(2) [OF d assms(1)] by blast
  then have "rstrip_slash (declared_issuer meta) = rstrip_slash (ov_issuer (oc_view c))" by (simp add: pinned_def)
  moreover have "jwt_decode E (ticks s1) (oc_view c) meta (py_str tok) = Inr claims" "dict_get claims ''nonce'' = nonce"
    using assms(2) d of
    by (auto simp: validate_id_token_def act_simps the_client_run tick_def check_claims_accepts split: sum.splits)
  ultimately show ?thesis using c by blast
qed

text \<open>The login transaction a callback completes.\<close>

definition begun_by_browser :: "env \<Rightarrow> idp \<Rightarrow> string \<Rightarrow> callback \<Rightarrow> world \<Rightarrow> dict \<Rightarrow> dict \<Rightarrow> bool" where
  "begun_by_browser E p tx_key cb s tokens claims \<longleftrightarrow>
     (\<exists>t state. dict_get (cookie s) tx_key = JObj t \<and> cb_state cb = Some state \<and> state \<noteq> []
        \<and> dict_get t ''state'' = JStr state \<and> dict_get claims ''nonce'' = dict_get t ''nonce'')
     \<and> (\<exists>c meta n. oidc_of p s = Some c \<and> rstrip_slash (declared_issuer meta) = rstrip_slash (ov_issuer (oc_view c))
        \<and> jwt_decode E n (oc_view c) meta (py_str (dict_get tokens ''id_token'')) = Inr claims)"

lemma finish_callback_begun:
  assumes pinned: "all_pinned s" and run: "finish_callback E q p k a cb s = (Inr (tokens, claims), s')"
  shows "begun_by_browser E p k cb s tokens claims"
proof -
  obtain t state nonce s1 where t: "dict_get (cookie s) k = JObj t" "cb_state cb = Some state" "state \<noteq> []"
    "dict_get t ''state'' = JStr state" "dict_get t ''nonce'' = nonce"
    and frame: "idp_frame (s\<lparr>cookie := dict_pop k (cookie s)\<rparr>) s1"
    and v: "validate_id_token E p (dict_get tokens ''id_token'') nonce (dict_get tokens ''access_token'') s1 = (Inr claims, s')"
    and p1: "all_pinned s1"
    using finish_callback_accepts [OF run] pinned by metis
  obtain c1 meta n where c1: "oidc_of p s1 = Some c1" "rstrip_slash (declared_issuer meta) = rstrip_slash (ov_issuer (oc_view c1))"
    "jwt_decode E n (oc_view c1) meta (py_str (dict_get tokens ''id_token'')) = Inr claims"
    and nonce: "dict_get claims ''nonce'' = nonce"
    using validate_bound [OF p1 v] by blast
  have "map_option oc_view (oidc_of p s1) = map_option oc_view (oidc_of p s)"
    using frame by (cases p) (simp_all add: idp_frame_def)
  then obtain c where "oidc_of p s = Some c" "oc_view c = oc_view c1" using c1(1) by (cases "oidc_of p s") auto
  then show ?thesis using t c1 nonce unfolding begun_by_browser_def by metis
qed

text \<open>C11. A tenant login ends in a session only for a login this browser began: the state in its
  cookie is the one that came back, the ID token was accepted against the configured issuer and
  carries that login's nonce. The session is the subject's, on the tenant plane, under a new
  id, and nothing else stays in the cookie.\<close>

theorem oidc_callback_binds:
  assumes "all_pinned s" and "oidc_callback E q cb s = (Inr r, s')"
  shows "\<exists>tokens claims. begun_by_browser E TenantIdp ''oidc_tx'' cb s tokens claims
    \<and> known_session E s' = Some (oidc_session tokens claims)
    \<and> session_plane (known_session E s') = plane_tenant
    \<and> (\<exists>sid. cookie s' = [(cookie_sid_key, JStr sid)])"
proof -
  obtain tokens claims s1 where f: "finish_callback E q TenantIdp ''oidc_tx'' ''auth.oidc_login'' cb s = (Inr (tokens, claims), s1)"
    using assms(2) by (auto simp: oidc_callback_def act_simps split: if_splits prod.splits sum.splits)
  obtain sid s2 where e: "establish E (oidc_session tokens claims) s1 = (Inr sid, s2)"
    "cached s2 = Some (Some (oidc_session tokens claims))" "cookie s2 = [(cookie_sid_key, JStr sid)]"
    using establish_keeps by metis
  have s': "s' = snd (record_request E q ''auth.oidc_login'' outcome_success None [(''method'', JStr ''oidc'')] s2)"
    using assms(2) f e(1) by (auto simp: oidc_callback_def act_simps split: if_splits)
  have "known_session E s' = Some (oidc_session tokens claims)"
    using record_request_cached [OF e(2)] known_session_cached
    by (simp add: s' session_of_def oidc_session_def known_kinds_def)
  moreover have "session_plane (Some (oidc_session tokens claims)) = plane_tenant"
    by (simp add: session_plane_def get_or_def oidc_session_def plane_tenant_def plane_provider_def)
  ultimately show ?thesis
    using finish_callback_begun [OF assms(1) f] record_request_cached [OF e(2)] e(3) s' by auto
qed

text \<open>C12. A provider login ends in a session only for a login this browser began with the provider's
  identity provider; the session is on the provider plane, holds exactly the scopes its
  asserted groups map to, in order, and no refresh token.\<close>

theorem provider_callback_binds:
  assumes "all_pinned s" and "provider_callback E q cb s = (Inr r, s')"
  shows "\<exists>tokens claims scopes. begun_by_browser E ProviderIdp ''provider_oidc_tx'' cb s tokens claims
    \<and> known_session E s' = Some (provider_session tokens claims scopes)
    \<and> session_plane (known_session E s') = plane_provider
    \<and> set scopes = {sc. \<exists>g. JStr g \<in> set (json_items (asserted_groups (cfg E) claims))
                          \<and> map_of (provider_group_scopes (cfg E)) g = Some sc}
    \<and> dict_get (provider_session tokens claims scopes) ''provider_scopes'' = JList (map JStr (sort scopes))
    \<and> dict_get (provider_session tokens claims scopes) ''refresh_token'' = JNull"
proof -
  obtain tokens claims s1 where f: "finish_callback E q ProviderIdp ''provider_oidc_tx'' ''auth.provider_login'' cb s = (Inr (tokens, claims), s1)"
    using assms(2) by (auto simp: provider_callback_def act_simps split: if_splits prod.splits sum.splits)
  obtain scopes where sc: "scopes_of_claims (cfg E) claims = Inr scopes"
    using assms(2) f by (auto simp: provider_callback_def act_simps lift_result_def split: if_splits sum.splits)
  let ?s2 = "if scopes = [] then snd (record_request E q ''auth.provider_login'' outcome_denied None
                     [(''reason'', JStr ''no_mapped_group''), (''method'', JStr ''oidc'')] s1) else s1"
  obtain sid s3 where e: "establish E (provider_session tokens claims scopes) ?s2 = (Inr sid, s3)"
    "cached s3 = Some (Some (provider_session tokens claims scopes))"
    using establish_keeps by metis
  have s': "s' = snd (record_request E q ''auth.provider_login'' outcome_success None [(''method'', JStr ''oidc'')] s3)"
    using assms(2) f sc e(1)
    by (auto simp: provider_callback_def act_simps lift_result_def split: if_splits)
  have "known_session E s' = Some (provider_session tokens claims scopes)"
    using record_request_cached [OF e(2)] known_session_cached
    by (simp add: s' session_of_def provider_session_def known_kinds_def)
  moreover have "session_plane (Some (provider_session tokens claims scopes)) = plane_provider"
    by (simp add: session_plane_def get_or_def provider_session_def)
  moreover have "provider_scopes_for_groups (asserted_groups (cfg E) claims) (provider_group_scopes (cfg E)) = Inr scopes"
    using sc by (simp add: scopes_of_claims_def split: if_splits)
  then have "set scopes = {sc. \<exists>g. JStr g \<in> set (json_items (asserted_groups (cfg E) claims))
                          \<and> map_of (provider_group_scopes (cfg E)) g = Some sc}"
    using scopes_of_groups_sound [of "provider_group_scopes (cfg E)" "json_items (asserted_groups (cfg E) claims)" "[]" scopes]
    by (simp add: provider_scopes_for_groups_def)
  ultimately show ?thesis
    using finish_callback_begun [OF assms(1) f] by (auto simp: provider_session_def)
qed

text \<open>A callback that fails does so before it would establish a session.\<close>

lemma failed_callback:
  assumes "oidc_callback E q cb s = (Inl e, s') \<and> k = ''oidc_tx'' \<and> oidc s \<noteq> None
    \<or> provider_callback E q cb s = (Inl e, s') \<and> k = ''provider_oidc_tx'' \<and> provider_oidc s \<noteq> None"
  obtains p a where "s' = snd (finish_callback E q p k a cb s)"
  using assms
proof
  assume o: "oidc_callback E q cb s = (Inl e, s') \<and> k = ''oidc_tx'' \<and> oidc s \<noteq> None"
  obtain x s1 where f: "finish_callback E q TenantIdp k ''auth.oidc_login'' cb s = (x, s1)"
    by (cases "finish_callback E q TenantIdp k ''auth.oidc_login'' cb s")
  have "s' = s1"
  proof (cases x)
    case (Inr tc)
    then show ?thesis using o f by (cases tc) (auto simp: oidc_callback_def act_simps split: if_splits)
  qed (use o f in \<open>auto simp: oidc_callback_def act_simps\<close>)
  then show ?thesis using f that by (metis snd_conv)
next
  assume o: "provider_callback E q cb s = (Inl e, s') \<and> k = ''provider_oidc_tx'' \<and> provider_oidc s \<noteq> None"
  obtain x s1 where f: "finish_callback E q ProviderIdp k ''auth.provider_login'' cb s = (x, s1)"
    by (cases "finish_callback E q ProviderIdp k ''auth.provider_login'' cb s")
  have "s' = s1"
  proof (cases x)
    case (Inr tc)
    then show ?thesis using o f
      by (cases tc; cases "scopes_of_claims (cfg E) (snd tc)")
        (auto simp: provider_callback_def act_simps lift_result_def split: if_splits)
  qed (use o f in \<open>auto simp: provider_callback_def act_simps\<close>)
  then show ?thesis using f that by (metis snd_conv)
qed

text \<open>A callback that fails, for whatever reason, logs nobody in: the browser keeps the session
  id it had, no stored session appears or changes, and a transaction that was looked at is used
  up, so that the same answer cannot be sent again.\<close>

theorem callback_failure_harmless:
  assumes "oidc_callback E q cb s = (Inl e, s') \<and> k = ''oidc_tx'' \<and> oidc s \<noteq> None
    \<or> provider_callback E q cb s = (Inl e, s') \<and> k = ''provider_oidc_tx'' \<and> provider_oidc s \<noteq> None"
  shows "current_sid s' = current_sid s \<and> dict_get (cookie s') k = JNull
    \<and> (\<forall>t i. mem_view (store s') t i = None \<or> mem_view (store s') t i = mem_view (store s) t i)"
proof -
  have key: "k \<noteq> cookie_sid_key" using assms by (auto simp: cookie_sid_key_def)
  from failed_callback [OF assms] obtain p a where "s' = snd (finish_callback E q p k a cb s)" by blast
  then have "no_login s s'" "cookie s' = dict_pop k (cookie s)"
    using no_login_finish_callback [OF key] finish_callback_cookie by (simp_all add: stable_def)
  then show ?thesis using no_login_sid by (simp add: no_login_def dict_simps)
qed

section \<open>Logout\<close>

lemma logout_url_run: "\<exists>url s'. logout_url E sess s = (Inr url, s') \<and> idp_frame s s'"
proof -
  have c: "\<exists>x s'. catch m (\<lambda>e. ret None) s = (Inr x, s') \<and> idp_frame s s'" if "stable idp_frame m"
    for m :: "(world, string option) act"
    using stableD [OF that] by (cases "m s") (auto simp: act_simps split: sum.split)
  show ?thesis
    unfolding logout_url_def run_andthen run_reading
    using c [OF idp_frame_end_session_url] by (auto simp: act_simps idp_frame.R_refl)
qed

text \<open>Logout always succeeds, whatever the identity provider does, and ends the session: the
  browser's cookie is empty, no request of this browser has a session, and the stored session
  is gone at every time. No other session appears or changes.\<close>

theorem logout_ends_session:
  "\<exists>url s'. logout E q s = (Inr (Json_Body (JObj [(''status'', JStr ''logged out''), (''end_session_url'', jopt url)])), s')
    \<and> cookie s' = [] \<and> known_session E s' = None
    \<and> (\<forall>t i. mem_view (store s') t i = None \<or> current_sid s \<noteq> Some i \<and> mem_view (store s') t i = mem_view (store s) t i)"
proof -
  obtain s1 where c: "current_session E s = (Inr (known_session E s), s1)" by (rule current_session_run)
  have n1: "no_login s s1" using stableD [OF no_login_current_session c] .
  obtain url s2 where u: "logout_url E (known_session E s) s1 = (Inr url, s2)" "idp_frame s1 s2"
    using logout_url_run by blast
  have n2: "no_login s1 s2" using u(2) idp_frame_fields(1,2) no_login_frame by blast
  let ?s3 = "snd (record_request E q ''auth.logout'' outcome_success None [(''method'', get_or (known_session E s) ''kind'')] s2)"
  have n3: "no_login s2 ?s3" using no_login_record_request by (simp add: stable_def)
  have n: "no_login s ?s3" using n1 n2 n3 no_login.R_trans by blast
  obtain s4 where d: "destroy ?s3 = (Inr (), s4)" "cookie s4 = []" "cached s4 = Some None"
    "\<forall>t i. mem_view (store s4) t i = (if current_sid ?s3 = Some i then None else mem_view (store ?s3) t i)"
    using destroy_ends_session by blast
  have "logout E q s = (Inr (Json_Body (JObj [(''status'', JStr ''logged out''), (''end_session_url'', jopt url)])), s4)"
    using c u(1) d(1) by (simp add: logout_def act_simps)
  moreover have "known_session E s4 = None" using known_session_cached [OF d(3)] by (simp add: session_of_def)
  ultimately show ?thesis using d n no_login_sid [OF n] unfolding no_login_def by auto
qed

section \<open>Who am I\<close>

definition reply_get :: "reply \<Rightarrow> string \<Rightarrow> json" where
  "reply_get r k = (case r of Json_Body (JObj b) \<Rightarrow> dict_get b k | _ \<Rightarrow> JNull)"

text \<open>Nobody is told scopes of both planes: a provider session is answered with its own provider
  scopes and no tenant scope, a tenant session with no provider scope, and a request without a
  session is refused.\<close>

theorem me_reports_one_plane:
  assumes "me E s = (Inr r, s')"
  shows "\<exists>d. known_session E s = Some d \<and>
    (if session_plane (Some d) = plane_provider
     then reply_get r ''plane'' = JStr plane_provider \<and> reply_get r ''scopes'' = JList [] \<and> trace s' = trace s
     else reply_get r ''plane'' = JStr plane_tenant \<and> reply_get r ''provider_scopes'' = JList [])"
proof -
  obtain s1 where c: "current_session E s = (Inr (known_session E s), s1)" "trace s1 = trace s"
    by (rule current_session_run)
  obtain d where d: "known_session E s = Some d" using assms c(1) by (auto simp: me_def act_simps split: option.splits)
  have ne: "d \<noteq> []" using known_session_kind [OF d] by (auto simp: known_kinds_def)
  have reply: "reply_get x ''plane'' = JStr plane_tenant \<and> reply_get x ''provider_scopes'' = JList []"
    if "me_reply e subject scopes t = (Inr x, t')" for e subject scopes t x t'
    using that by (auto simp: me_reply_def act_simps reply_get_def)
  consider (provider) "session_plane (Some d) = plane_provider"
    | (password) "session_plane (Some d) \<noteq> plane_provider" "dict_get d ''kind'' = JStr ''password''"
    | (federated) "session_plane (Some d) \<noteq> plane_provider" "dict_get d ''kind'' \<noteq> JStr ''password''" by blast
  then show ?thesis
  proof cases
    case provider
    then show ?thesis using assms c d ne
      by (auto simp: me_def act_simps me_provider_def lift_result_def reply_get_def split: sum.splits)
  next
    case password
    then show ?thesis using assms c d ne
      by (auto simp: me_def act_simps me_password_def Let_def reply_get_def)
  next
    case federated
    then have "me_oidc E d s1 = (Inr r, s')" using assms c d ne by (simp add: me_def act_simps)
    then obtain subject scopes t where "me_reply d subject scopes t = (Inr r, s')"
      by (auto simp: me_oidc_def Let_def act_simps destroy_run split: prod.splits sum.splits option.splits if_splits)
    from reply [OF this] show ?thesis using federated d by auto
  qed
qed

section \<open>At concrete inputs\<close>

definition demo_request :: http_request where
  "demo_request = \<lparr>q_client = Some ''10.0.0.9'', q_headers = [], q_body = None\<rparr>"

definition demo_login_env :: env where
  "demo_login_env = demo_idp_env\<lparr>monotonic := \<lambda>_. 5,
     cfg := demo_settings\<lparr>provider_group_scopes := [(''ops'', ''provider:admin'')]\<rparr>,
     network := \<lambda>tr w. Inr \<lparr>r_status = 200, r_headers = [],
       r_text = (if w_method w = ''GET'' then demo_discovery
                 else json_dumps (JObj [(''id_token'', JStr ''jwt''), (''access_token'', JStr ''tok'')]))\<rparr>,
     jwt_decode := \<lambda>n v meta t. Inr
       [(''iss'', dict_get meta ''issuer''), (''aud'', JStr (ov_client_id v)), (''sub'', JStr ''alice''),
        (''nonce'', JStr ''n1''), (''groups'', JStr ''ops'')]\<rparr>"

definition demo_tx :: json where
  "demo_tx = JObj [(''state'', JStr ''st''), (''nonce'', JStr ''n1''), (''verifier'', JStr ''v'')]"

definition demo_callback :: "string \<Rightarrow> callback" where
  "demo_callback state = \<lparr>cb_code = Some ''c0'', cb_state = Some state, cb_error = None\<rparr>"

definition demo_client :: oidc_client where
  "demo_client = \<lparr>oc_view = demo_view, oc_meta = Some [(''issuer'', JStr ''https://idp''), (''token_endpoint'', JStr ''https://idp/token'')]\<rparr>"

definition demo_tenant_login :: world where
  "demo_tenant_login = (demo_world [(''oidc_tx'', demo_tx)] [])\<lparr>oidc := Some demo_client\<rparr>"

definition demo_provider_login :: world where
  "demo_provider_login = (demo_world [(''provider_oidc_tx'', demo_tx)] [])\<lparr>oidc := None, provider_oidc := Some demo_client\<rparr>"

lemma demo_login_pinned: "all_pinned demo_tenant_login" "all_pinned demo_provider_login"
  unfolding all_pinned_def demo_tenant_login_def demo_provider_login_def demo_world_def
  by (simp_all add: pinned_def demo_client_def demo_view_def declared_issuer_def py_or_def)

theorem login_refines_attempt_witness:
  "\<exists>s'. login demo_login_env demo_request ''wrong'' (demo_world [] []) = (Inl invalid_credentials, s')
     \<and> throttle_state s' = (new_throttle 2 60)\<lparr>fails := [(''10.0.0.9'', [5])]\<rparr>"
proof -
  have role: "resolve_role (cfg demo_login_env) ''wrong'' = Inr None" by code_simp
  have ip: "client_ip (q_client demo_request) (q_headers demo_request) (trusted_nets demo_login_env) = ''10.0.0.9''" by code_simp
  have spec: "login_attempt (client_ip (q_client demo_request) (q_headers demo_request) (trusted_nets demo_login_env))
      (None \<noteq> (None :: string option)) 5 (throttle_state (demo_world [] [])) = Inr (Rejected, (new_throttle 2 60)\<lparr>fails := [(''10.0.0.9'', [5])]\<rparr>)"
    unfolding ip by (simp add: demo_world_def login_attempt_def retry_after_def prune_def new_throttle_def record_failure_def)
  have "monotonic demo_login_env n = 5" for n by (simp add: demo_login_env_def)
  from login_refines_attempt [OF this this this role spec] show ?thesis by auto
qed

theorem oidc_callback_binds_witness:
  "let s' = snd (oidc_callback demo_login_env demo_request (demo_callback ''st'') demo_tenant_login)
   in session_plane (known_session demo_login_env s') = plane_tenant \<and> known_session demo_login_env s' \<noteq> None
      \<and> dict_get (cookie s') ''oidc_tx'' = JNull"
proof -
  let ?run = "oidc_callback demo_login_env demo_request (demo_callback ''st'') demo_tenant_login"
  let ?f = "finish_callback demo_login_env demo_request TenantIdp ''oidc_tx'' ''auth.oidc_login'' (demo_callback ''st'') demo_tenant_login"
  have "(case fst ?f of Inr r \<Rightarrow> True | Inl e \<Rightarrow> False)" by code_simp
  then obtain tokens claims s1 where "?f = (Inr (tokens, claims), s1)" by (cases ?f; cases "fst ?f") auto
  moreover have "oidc demo_tenant_login \<noteq> None" by (simp add: demo_tenant_login_def)
  ultimately have "\<exists>r. fst ?run = Inr r" by (simp add: oidc_callback_def act_simps)
  then obtain r where "?run = (Inr r, snd ?run)" by (metis prod.collapse)
  from oidc_callback_binds [OF demo_login_pinned(1) this] show ?thesis by (auto simp: Let_def cookie_sid_key_def)
qed

theorem provider_callback_binds_witness:
  "let s' = snd (provider_callback demo_login_env demo_request (demo_callback ''st'') demo_provider_login)
   in session_plane (known_session demo_login_env s') = plane_provider"
proof -
  let ?run = "provider_callback demo_login_env demo_request (demo_callback ''st'') demo_provider_login"
  let ?f = "finish_callback demo_login_env demo_request ProviderIdp ''provider_oidc_tx'' ''auth.provider_login'' (demo_callback ''st'') demo_provider_login"
  have "(case fst ?f of Inr (tokens, claims) \<Rightarrow> scopes_of_claims (cfg demo_login_env) claims | Inl e \<Rightarrow> Inl e) = Inr [''provider:admin'']"
    by code_simp
  then obtain tokens claims s1 where "?f = (Inr (tokens, claims), s1)" "scopes_of_claims (cfg demo_login_env) claims = Inr [''provider:admin'']"
    by (cases ?f; cases "fst ?f") auto
  moreover have "provider_oidc demo_provider_login \<noteq> None" by (simp add: demo_provider_login_def)
  ultimately have "\<exists>r. fst ?run = Inr r" by (simp add: provider_callback_def lift_result_def act_simps)
  then obtain r where "?run = (Inr r, snd ?run)" by (metis prod.collapse)
  from provider_callback_binds [OF demo_login_pinned(2) this] show ?thesis by (auto simp: Let_def)
qed

theorem callback_failure_harmless_witness:
  "let s' = snd (oidc_callback demo_login_env demo_request (demo_callback ''forged'') demo_tenant_login)
   in current_sid s' = None \<and> dict_get (cookie s') ''oidc_tx'' = JNull"
proof -
  let ?run = "oidc_callback demo_login_env demo_request (demo_callback ''forged'') demo_tenant_login"
  have c: "current_sid demo_tenant_login = None" and o: "oidc demo_tenant_login \<noteq> None" by code_simp+
  have "fst ?run = Inl (bad_request ''OIDC state mismatch'')"
    using o by (simp add: oidc_callback_def act_simps finish_callback_popped callback_with_def demo_callback_def opt_text_def
      demo_tenant_login_def demo_world_def demo_tx_def check_state_def lift_result_def compare_json_def compare_digest_def
      dict_get_or_def is_ascii_def)
  then obtain e where run: "?run = (Inl e, snd ?run)" by (metis prod.collapse)
  show ?thesis using callback_failure_harmless [OF disjI1 [OF conjI [OF run conjI [OF refl o]]]] c by (simp add: Let_def)
qed

theorem me_reports_one_plane_witness:
  "case fst (me (demo_env (answer 200 ''{}'')) (demo_session_world demo_provider_session)) of
     Inr r \<Rightarrow> reply_get r ''plane'' = JStr plane_provider \<and> reply_get r ''scopes'' = JList [] | Inl e \<Rightarrow> False"
proof -
  let ?E = "demo_env (answer 200 ''{}'')"
  let ?run = "me ?E (demo_session_world demo_provider_session)"
  have "(case fst ?run of Inr r \<Rightarrow> True | Inl e \<Rightarrow> False)" by code_simp
  then obtain r where f: "fst ?run = Inr r" by (cases "fst ?run") auto
  then have run: "?run = (Inr r, snd ?run)" by (metis prod.collapse)
  have "known_session ?E (demo_session_world demo_provider_session) = Some demo_provider_session"
    by (rule demo_known_session) (simp add: demo_provider_session_def known_kinds_def)
  moreover have "session_plane (Some demo_provider_session) = plane_provider" by code_simp
  ultimately show ?thesis unfolding f using me_reports_one_plane [OF run] by auto
qed

end
