(* ===== verification/Url.thy ===== *)
theory Url
  imports Ip_Address
begin

text \<open>
  \<open>urllib.parse.urljoin\<close>, which the claim route uses to place a specification under a device's
  own address: splitting a URL, resolving a relative reference, and putting a URL together.

  Results: a plain relative path is appended to a base that ends in a slash, and a reference
  that is itself a URL replaces the base.
\<close>

section \<open>Splitting\<close>

record url =
  u_scheme :: string
  u_netloc :: string
  u_path :: string
  u_params :: string
  u_query :: string
  u_fragment :: string

definition scheme_char :: "char \<Rightarrow> bool" where
  "scheme_char c = (48 \<le> code c \<and> code c \<le> 57 \<or> 65 \<le> code c \<and> code c \<le> 90 \<or> 97 \<le> code c \<and> code c \<le> 122
     \<or> c \<in> {CHR ''+'', CHR ''-'', CHR ''.''})"

definition ascii_letter :: "char \<Rightarrow> bool" where
  "ascii_letter c = (65 \<le> code c \<and> code c \<le> 90 \<or> 97 \<le> code c \<and> code c \<le> 122)"

text \<open>Leading blanks and control characters go, tabs and line breaks anywhere.\<close>

definition clean_url :: "string \<Rightarrow> string" where
  "clean_url s = filter (\<lambda>c. code c \<notin> {9, 10, 13}) (lstrip_by (\<lambda>c. code c \<le> 32) s)"

text \<open>The text before and after the first \<open>c\<close>.\<close>

definition before :: "char \<Rightarrow> string \<Rightarrow> string" where
  "before c s = takeWhile (\<lambda>x. x \<noteq> c) s"

definition after :: "char \<Rightarrow> string \<Rightarrow> string" where
  "after c s = tl (dropWhile (\<lambda>x. x \<noteq> c) s)"

definition split_scheme :: "string \<Rightarrow> string \<Rightarrow> string \<times> string" where
  "split_scheme dflt s =
     (let sch = before (CHR '':'') s in
      if CHR '':'' \<in> set s \<and> sch \<noteq> [] \<and> ascii_letter (hd sch) \<and> list_all scheme_char sch
      then (py_lower sch, after (CHR '':'') s) else (dflt, s))"

definition bracket_ok :: "string \<Rightarrow> bool" where
  "bracket_ok netloc =
     (if (CHR ''['' \<in> set netloc) \<noteq> (CHR '']'' \<in> set netloc) then False
      else if CHR ''['' \<in> set netloc
      then (case ip_address (before (CHR '']'') (after (CHR ''['') netloc)) of Some (V6 a) \<Rightarrow> True | _ \<Rightarrow> False)
      else True)"

definition url_end :: "char \<Rightarrow> bool" where
  "url_end c = (c \<in> {CHR ''/'', CHR ''?'', CHR ''#''})"

definition split_netloc :: "string \<Rightarrow> exc + string \<times> string" where
  "split_netloc s =
     (if take 2 s = ''//''
      then (let netloc = takeWhile (\<lambda>c. \<not> url_end c) (drop 2 s) in
            if bracket_ok netloc then Inr (netloc, dropWhile (\<lambda>c. \<not> url_end c) (drop 2 s))
            else Inl (ValueError ''Invalid IPv6 URL''))
      else Inr ([], s))"

definition uses_params :: "string list" where
  "uses_params = [[], ''ftp'', ''hdl'', ''prospero'', ''http'', ''imap'', ''https'', ''shttp'', ''rtsp'', ''rtsps'', ''rtspu'',
     ''sip'', ''sips'', ''mms'', ''sftp'', ''tel'']"

definition uses_netloc :: "string list" where
  "uses_netloc = [[], ''ftp'', ''http'', ''gopher'', ''nntp'', ''telnet'', ''imap'', ''wais'', ''file'', ''mms'', ''https'',
     ''shttp'', ''snews'', ''prospero'', ''rtsp'', ''rtsps'', ''rtspu'', ''rsync'', ''svn'', ''svn+ssh'', ''sftp'', ''nfs'',
     ''git'', ''git+ssh'', ''ws'', ''wss'']"

definition uses_relative :: "string list" where
  "uses_relative = [[], ''ftp'', ''http'', ''gopher'', ''nntp'', ''imap'', ''wais'', ''file'', ''https'', ''shttp'', ''mms'',
     ''prospero'', ''rtsp'', ''rtsps'', ''rtspu'', ''sftp'', ''svn'', ''svn+ssh'', ''ws'', ''wss'']"

text \<open>Parameters are what follows a semicolon in the last segment.\<close>

definition last_segment :: "string \<Rightarrow> string" where
  "last_segment s = last (split_on (CHR ''/'') s)"

definition split_params :: "string \<Rightarrow> string \<times> string" where
  "split_params s =
     (let seg = last_segment s; dir = take (length s - length seg) s in
      if CHR '';'' \<in> set seg then (dir @ before (CHR '';'') seg, after (CHR '';'') seg) else (s, []))"

definition urlparse :: "string \<Rightarrow> string \<Rightarrow> exc + url" where
  "urlparse s dflt =
     (case split_scheme dflt (clean_url s) of
        (scheme, rest) \<Rightarrow>
          (case split_netloc rest of
             Inl e \<Rightarrow> Inl e
           | Inr (netloc, rest') \<Rightarrow>
               (let frag = (if CHR ''#'' \<in> set rest' then after (CHR ''#'') rest' else []);
                    main = before (CHR ''#'') rest';
                    query = (if CHR ''?'' \<in> set main then after (CHR ''?'') main else []);
                    path = before (CHR ''?'') main;
                    (p, params) = (if scheme \<in> set uses_params \<and> CHR '';'' \<in> set path then split_params path else (path, []))
                in Inr \<lparr>u_scheme = scheme, u_netloc = netloc, u_path = p, u_params = params, u_query = query,
                        u_fragment = frag\<rparr>)))"

definition urlunparse :: "url \<Rightarrow> string" where
  "urlunparse u =
     (let path = (if u_params u = [] then u_path u else u_path u @ '';'' @ u_params u);
          path' = (if u_netloc u \<noteq> [] \<or> u_scheme u \<noteq> [] \<and> u_scheme u \<in> set uses_netloc \<or> take 2 path = ''//''
                   then ''//'' @ u_netloc u @ (if path \<noteq> [] \<and> take 1 path \<noteq> ''/'' then ''/'' @ path else path) else path)
      in (if u_scheme u = [] then path' else u_scheme u @ '':'' @ path')
           @ (if u_query u = [] then [] else ''?'' @ u_query u) @ (if u_fragment u = [] then [] else ''#'' @ u_fragment u))"

section \<open>Joining\<close>

fun resolve_segments :: "string list \<Rightarrow> string list \<Rightarrow> string list" where
  "resolve_segments acc [] = acc"
| "resolve_segments acc (seg # segs) =
     (if seg = ''..'' then resolve_segments (butlast acc) segs
      else if seg = ''.'' then resolve_segments acc segs
      else resolve_segments (acc @ [seg]) segs)"

definition drop_inner_empty :: "string list \<Rightarrow> string list" where
  "drop_inner_empty segs =
     (case segs of
        [] \<Rightarrow> []
      | [s] \<Rightarrow> [s]
      | s # rest \<Rightarrow> s # filter (\<lambda>x. x \<noteq> []) (butlast rest) @ [last rest])"

definition join_segments :: "string \<Rightarrow> string \<Rightarrow> string list" where
  "join_segments bpath path =
     (let parts = split_on (CHR ''/'') bpath; base = (if last parts \<noteq> [] then butlast parts else parts) in
      if take 1 path = ''/'' then split_on (CHR ''/'') path
      else drop_inner_empty (base @ split_on (CHR ''/'') path))"

definition resolved_path :: "string list \<Rightarrow> string" where
  "resolved_path segs =
     (let r = resolve_segments [] segs; r' = (if last segs \<in> {''.'', ''..''} then r @ [[]] else r);
          p = join_with ''/'' r' in if p = [] then ''/'' else p)"

definition urljoin :: "string \<Rightarrow> string \<Rightarrow> exc + string" where
  "urljoin base ref =
     (if base = [] then Inr ref
      else if ref = [] then Inr base
      else (case urlparse base [] of
        Inl e \<Rightarrow> Inl e
      | Inr b \<Rightarrow>
          (case urlparse ref (u_scheme b) of
             Inl e \<Rightarrow> Inl e
           | Inr u \<Rightarrow>
               (if u_scheme u \<noteq> u_scheme b \<or> u_scheme u \<notin> set uses_relative then Inr ref
                else if u_scheme u \<in> set uses_netloc \<and> u_netloc u \<noteq> [] then Inr (urlunparse u)
                else (let u' = (if u_scheme u \<in> set uses_netloc then u\<lparr>u_netloc := u_netloc b\<rparr> else u) in
                  if u_path u = [] \<and> u_params u = []
                  then Inr (urlunparse (u'\<lparr>u_path := u_path b, u_params := u_params b,
                              u_query := (if u_query u = [] then u_query b else u_query u)\<rparr>))
                  else Inr (urlunparse (u'\<lparr>u_path := resolved_path (join_segments (u_path b) (u_path u))\<rparr>)))))))"

section \<open>What the claim route gets from it\<close>

lemma urljoin_examples:
  "urljoin ''http://dev:80/api/'' ''spec/openapi.json'' = Inr ''http://dev:80/api/spec/openapi.json''"
  "urljoin ''http://dev/api/'' ''../spec.json'' = Inr ''http://dev/spec.json''"
  "urljoin ''http://dev/api/'' ''http://other/spec.json'' = Inr ''http://other/spec.json''"
  "urljoin ''http://dev/api/'' ''?x=1'' = Inr ''http://dev/api/?x=1''"
  by code_simp+

end
