(* ===== verification/Routes.thy ===== *)
theory Routes
  imports Auth Url
begin

text \<open>
  What the route modules share: the request body, the JSON accesses of Python, an upstream
  answer passed through (\<open>_passthrough\<close>) and recorded (\<open>_audited\<close>), and the calls to the catalog
  with its failure as a named 503.
\<close>

section \<open>Bodies and JSON accesses\<close>

definition request_json :: "http_request \<Rightarrow> (world, json) act" where
  "request_json q = (case q_body q of None \<Rightarrow> throw (ValueError ''request body is not JSON'') | Some v \<Rightarrow> ret v)"

definition optional_body :: "http_request \<Rightarrow> json" where
  "optional_body q = (case q_body q of None \<Rightarrow> JNull | Some v \<Rightarrow> v)"

text \<open>\<open>v[k]\<close> and \<open>v.get(k)\<close> where \<open>v\<close> should be an object.\<close>

definition jindex :: "json \<Rightarrow> string \<Rightarrow> exc + json" where
  "jindex v k =
     (case v of
        JObj d \<Rightarrow> (case map_of d k of None \<Rightarrow> Inl (KeyError k) | Some x \<Rightarrow> Inr x)
      | _ \<Rightarrow> Inl (PyError ''not an object''))"

definition jget :: "json \<Rightarrow> string \<Rightarrow> exc + json" where
  "jget v k = (case v of JObj d \<Rightarrow> Inr (dict_get d k) | _ \<Rightarrow> Inl (PyError ''no attribute get''))"

text \<open>Iterating over a value.\<close>

definition jiter :: "json \<Rightarrow> exc + json list" where
  "jiter v = (if iterable v then Inr (json_items v) else Inl (PyError ''not iterable''))"

fun map_result :: "('a \<Rightarrow> exc + 'b) \<Rightarrow> 'a list \<Rightarrow> exc + 'b list" where
  "map_result f [] = Inr []"
| "map_result f (x # xs) = bind_result (f x) (\<lambda>y. bind_result (map_result f xs) (\<lambda>ys. Inr (y # ys)))"

definition body_object :: "response \<Rightarrow> (world, json) act" where
  "body_object resp =
     (case response_json resp of None \<Rightarrow> throw (ValueError ''response is not JSON'') | Some v \<Rightarrow> ret v)"

section \<open>Answers\<close>

definition passthrough :: "response \<Rightarrow> reply" where
  "passthrough resp =
     Json_Status (r_status resp)
       (case response_json resp of Some v \<Rightarrow> v | None \<Rightarrow> JObj [(''detail'', JStr (r_text resp))])"

definition audited :: "env \<Rightarrow> http_request \<Rightarrow> response \<Rightarrow> string \<Rightarrow> string option \<Rightarrow> (world, reply) act" where
  "audited E q resp action target =
     andthen (record_request E q action (outcome_for (r_status resp)) target [(''status'', JInt (r_status resp))]) (\<lambda>_.
       ret (passthrough resp))"

text \<open>\<open>resp.json().get("detail", resp.text)\<close>, and the text when there is no JSON.\<close>

definition upstream_detail :: "response \<Rightarrow> exc + json" where
  "upstream_detail resp =
     (case response_json resp of
        None \<Rightarrow> Inr (JStr (r_text resp))
      | Some (JObj d) \<Rightarrow> Inr (dict_get_or d ''detail'' (JStr (r_text resp)))
      | Some _ \<Rightarrow> Inl (PyError ''no attribute get''))"

text \<open>A catalog call whose unavailability becomes the given exception.\<close>

definition catalog_or :: "env \<Rightarrow> string \<Rightarrow> string \<Rightarrow> json option \<Rightarrow> (string \<Rightarrow> exc) \<Rightarrow> (world, response) act" where
  "catalog_or E meth path body on_down =
     catch (catalog_request E meth path body)
       (\<lambda>e. case e of
          CatalogUnavailable why \<Rightarrow> throw (on_down why)
        | CatalogMisconfigured why \<Rightarrow> throw (on_down why)
        | _ \<Rightarrow> throw e)"

definition service_unavailable :: "string \<Rightarrow> exc" where
  "service_unavailable why = HTTPException 503 (JStr why) []"

section \<open>Guards\<close>

text \<open>
  The dependencies of a route, in the order its decorator lists them: \<open>require_role\<close>,
  \<open>deny_password_session\<close>, \<open>require_provider_scope\<close>.
\<close>

datatype guard =
    Role "string list"
  | No_Break_Glass
  | Provider_Scope "string list"

definition any_session :: guard where
  "any_session = Role []"

definition admin_session :: guard where
  "admin_session = Role [''admin'']"

fun check_guard :: "env \<Rightarrow> guard \<Rightarrow> (world, unit) act" where
  "check_guard E (Role allowed) = andthen (require_role E allowed) (\<lambda>_. ret ())"
| "check_guard E No_Break_Glass = deny_password_session E"
| "check_guard E (Provider_Scope required) = andthen (require_provider_scope E required) (\<lambda>_. ret ())"

fun depends :: "env \<Rightarrow> guard list \<Rightarrow> (world, reply) act \<Rightarrow> (world, reply) act" where
  "depends E [] m = m"
| "depends E (g # gs) m = andthen (check_guard E g) (\<lambda>_. depends E gs m)"

text \<open>What a guard says of a session: the exception it raises, if any.\<close>

fun verdict :: "dict option \<Rightarrow> guard \<Rightarrow> exc option" where
  "verdict sess (Role allowed) =
     (case sess of
        None \<Rightarrow> Some not_authenticated
      | Some d \<Rightarrow>
          (if session_plane sess = plane_provider then
             (if support_grant_credential sess = None
              then Some (forbidden no_grant_detail) else None)
           else if dict_get d ''kind'' = JStr ''oidc'' then None
           else if allowed \<noteq> [] \<and> dict_get d ''role'' \<notin> set (map JStr allowed) then Some (forbidden ''Forbidden'')
           else None))"
| "verdict sess No_Break_Glass =
     (if get_or sess ''kind'' = JStr ''password''
      then Some (forbidden break_glass_detail) else None)"
| "verdict sess (Provider_Scope required) =
     (case sess of
        None \<Rightarrow> Some not_authenticated
      | Some d \<Rightarrow>
          (if session_plane sess \<noteq> plane_provider then Some (forbidden ''Not a provider-plane session'')
           else if required \<noteq> [] \<and>
               \<not> list_ex (\<lambda>r. JStr r \<in> set (json_items (dict_get d ''provider_scopes''))) required
             then Some (forbidden ''Forbidden'')
           else None))"

fun refusal :: "dict option \<Rightarrow> guard list \<Rightarrow> exc option" where
  "refusal sess [] = None"
| "refusal sess (g # gs) = (case verdict sess g of Some e \<Rightarrow> Some e | None \<Rightarrow> refusal sess gs)"

text \<open>The state once the session has been looked up.\<close>

definition loaded :: "env \<Rightarrow> world \<Rightarrow> world" where
  "loaded E s = snd (current_session E s)"

lemma current_session_loaded: "current_session E s = (Inr (known_session E s), loaded E s)"
  using current_session_run [of E s] by (metis loaded_def snd_conv)

lemma loaded_loaded: "current_session E (loaded E s) = (Inr (known_session E s), loaded E s)"
  using current_session_run [of E s] by (metis loaded_def snd_conv)

lemma known_session_loaded [simp]: "known_session E (loaded E s) = known_session E s"
  by (simp add: known_session_def [of E "loaded E s"] loaded_loaded)

lemma loaded_idem [simp]: "loaded E (loaded E s) = loaded E s"
  by (simp add: loaded_def [of E "loaded E s"] loaded_loaded)

lemma loaded_fields:
  "trace (loaded E s) = trace s" "cookie (loaded E s) = cookie s" "rid (loaded E s) = rid s"
  "audit (loaded E s) = audit s" "sink (loaded E s) = sink s" "throttle_state (loaded E s) = throttle_state s"
  "draws (loaded E s) = draws s" "catalog (loaded E s) = catalog s" "pool (loaded E s) = pool s"
  "directory (loaded E s) = directory s"
proof -
  obtain d tk st where "load E s = (Inr d, s\<lparr>ticks := tk, store := st, cached := Some d\<rparr>)"
    using load_run by blast
  then have "loaded E s = s\<lparr>ticks := tk, store := st, cached := Some d\<rparr>"
    by (simp add: loaded_def current_session_def act_simps)
  then show "trace (loaded E s) = trace s" "cookie (loaded E s) = cookie s" "rid (loaded E s) = rid s"
    "audit (loaded E s) = audit s" "sink (loaded E s) = sink s" "throttle_state (loaded E s) = throttle_state s"
    "draws (loaded E s) = draws s" "catalog (loaded E s) = catalog s" "pool (loaded E s) = pool s"
    "directory (loaded E s) = directory s" by simp_all
qed

lemma check_guard_run:
  "check_guard E g s =
     ((case verdict (known_session E s) g of None \<Rightarrow> Inr () | Some e \<Rightarrow> Inl e), loaded E s)"
  by (cases g; cases "known_session E s")
    (simp_all add: require_role_def require_provider_scope_def deny_password_session_def act_simps
      current_session_loaded list_ex_iff)

lemma depends_run:
  "depends E gs m s =
     (case refusal (known_session E s) gs of
        Some e \<Rightarrow> (Inl e, loaded E s)
      | None \<Rightarrow> m (if gs = [] then s else loaded E s))"
proof (induction gs arbitrary: s)
  case (Cons g gs)
  show ?case
    using Cons [of "loaded E s"] by (simp add: act_simps check_guard_run split: option.split)
qed simp

declare depends.simps [simp del]

lemma depends_admits:
  "refusal (known_session E s) gs = None \<Longrightarrow> gs \<noteq> [] \<Longrightarrow> depends E gs m s = m (loaded E s)"
  by (simp add: depends_run)

text \<open>
  A tenant session without a refresh token: its relayed call is one request to the own gateway,
  with its access token or, for a password session, the deployment's credential.
\<close>

definition own_bearer :: "dict \<Rightarrow> json" where
  "own_bearer d = (if dict_get d ''kind'' = JStr ''oidc'' then dict_get d ''access_token'' else JNull)"

definition relays_own :: "env \<Rightarrow> dict \<Rightarrow> world \<Rightarrow> bool" where
  "relays_own E d s \<longleftrightarrow> cached s = Some (Some d) \<and> dict_get d ''kind'' \<in> set known_kinds
     \<and> session_plane (Some d) = plane_tenant \<and> \<not> truthy (dict_get d ''refresh_token'')"

lemma relays_own_session: "relays_own E d s \<Longrightarrow> current_session E s = (Inr (Some d), s)"
  using current_session_cached by (simp add: relays_own_def session_of_def)

lemma relays_own_loaded:
  assumes "known_session E s = Some d" and "session_plane (Some d) = plane_tenant" and "\<not> truthy (dict_get d ''refresh_token'')"
  shows "relays_own E d (loaded E s)"
proof -
  obtain x s1 where "current_session E s = (Inr (known_session E s), s1)" "cached s1 = Some x" "session_of x = known_session E s"
    by (rule current_session_caches)
  then have "cached (loaded E s) = Some (Some d)"
    using assms(1) by (auto simp: loaded_def session_of_def split: option.splits if_splits)
  then show ?thesis using assms known_session_kind [OF assms(1)] by (simp add: relays_own_def)
qed

lemma own_relay_request:
  assumes "relays_own E d s"
  shows "relay_request E meth path body hs s = gateway_request E (own_gateway E) meth path body (own_bearer d) hs s"
proof -
  have plane: "session_plane (Some d) \<noteq> plane_provider"
    using assms by (simp add: relays_own_def plane_tenant_def plane_provider_def)
  note cs = relays_own_session [OF assms]
  have bearer: "upstream_bearer E s = (Inr (own_bearer d), s)"
    using plane by (simp add: upstream_bearer_def act_simps cs own_bearer_def get_or_def)
  obtain r s1 where q: "gateway_request E (own_gateway E) meth path body (own_bearer d) hs s = (r, s1)"
    by (cases "gateway_request E (own_gateway E) meth path body (own_bearer d) hs s")
  have keep: "cached s1 = Some (Some d)" using gateway_request_keeps [OF q] assms by (simp add: relays_own_def)
  have "refresh_oidc_access_token E s1 = (Inr JNull, s1)"
    using refresh_not_applicable [OF keep] assms by (simp add: relays_own_def)
  moreover have "drop_dead_support_grant E s1 = (Inr (), s1)"
    using plane by (simp add: drop_dead_support_grant_def act_simps load_cached [OF keep])
  moreover have "gateway_for E s = (Inr (own_gateway E), s)" using plane by (simp add: gateway_for_def act_simps cs)
  ultimately show ?thesis by (simp add: relay_request_def act_simps q bearer split: sum.split)
qed

text \<open>The request it sends, and what the network makes of it.\<close>

definition own_wire :: "env \<Rightarrow> dict \<Rightarrow> string \<Rightarrow> string \<Rightarrow> string \<Rightarrow> json option \<Rightarrow> headers \<Rightarrow> wire" where
  "own_wire E d ctx meth path body hs =
     stamp_correlation ctx (gateway_wire (own_gateway E) meth path body (merged_headers hs (own_bearer d)))"

lemma own_relay_run:
  assumes "relays_own E d s"
  shows "relay_request E meth path body hs s =
    ((case network E (trace s) (own_wire E d (rid s) meth path body hs) of Inl e \<Rightarrow> Inl (HTTPError e) | Inr r \<Rightarrow> Inr r),
     s\<lparr>trace := trace s @ [own_wire E d (rid s) meth path body hs]\<rparr>)"
  unfolding own_relay_request [OF assms] gateway_request_def send_hooked_stamp
  by (simp add: send_def own_wire_def split: sum.split)

lemma relays_own_sent: "relays_own E d s \<Longrightarrow> relays_own E d (s\<lparr>trace := t\<rparr>)"
  by (simp add: relays_own_def)

lemma own_wire_fields:
  "w_method (own_wire E d ctx meth path body hs) = meth" "w_json (own_wire E d ctx meth path body hs) = body"
  "w_url (own_wire E d ctx meth path body hs) = join_url (gc_base_url (own_gateway E)) (with_prefix (own_gateway E) path)"
  by (simp_all add: own_wire_def gateway_wire_def stamp_correlation_def Let_def)

lemma audited_answer: "fst (audited E q resp a t s) = Inr (passthrough resp)"
  by (simp add: audited_def act_simps)

lemma audited_trace: "trace (snd (audited E q resp a t s)) = trace s"
  using silent_record_request by (simp add: audited_def act_simps stable_def silent_def)

definition read_route :: "env \<Rightarrow> string \<Rightarrow> (world, reply) act" where
  "read_route E path = andthen (relay_get E path) (\<lambda>resp. ret (passthrough resp))"

definition write_route ::
  "env \<Rightarrow> http_request \<Rightarrow> string \<Rightarrow> string \<Rightarrow> json option \<Rightarrow> string \<Rightarrow> string option \<Rightarrow> (world, reply) act" where
  "write_route E q meth path body action target =
     andthen (relay_request E meth path body []) (\<lambda>resp. audited E q resp action target)"

text \<open>\<open>str(v or "-")\<close>, the target of a device record.\<close>

definition or_dash :: "json \<Rightarrow> string" where
  "or_dash v = py_str (py_or v (JStr ''-''))"

text \<open>A JSON body that is null is sent as none.\<close>

definition opt_json :: "json \<Rightarrow> json option" where
  "opt_json v = (if v = JNull then None else Some v)"

end
