(* ===== verification/Api.thy ===== *)
theory Api
  imports Routes
begin

text \<open>
  The browser's API on the tenant plane (\<open>app/routers/api.py\<close>): the routes relayed to the gateway,
  the claim of a catalog device type, the monitoring proxies, the tool call over an MCP
  session, and backup and restore.

  One definition per route, its decorator's dependencies first; \<open>api\<close> dispatches a call to its
  route. What the routes guarantee is in \<open>Api_Access\<close>.
\<close>

definition outcome_error :: string where
  "outcome_error = ''error''"

section \<open>Devices\<close>

definition overview :: "env \<Rightarrow> (world, reply) act" where
  "overview E = depends E [any_session] (read_route E ''/admin/overview'')"

definition list_devices :: "env \<Rightarrow> (world, reply) act" where
  "list_devices E = depends E [any_session] (read_route E ''/devices'')"

definition get_device :: "env \<Rightarrow> string \<Rightarrow> (world, reply) act" where
  "get_device E hostname = depends E [any_session] (read_route E (''/devices/'' @ hostname))"

definition device_diagnostics :: "env \<Rightarrow> string \<Rightarrow> (world, reply) act" where
  "device_diagnostics E hostname =
     depends E [any_session] (read_route E (''/devices/'' @ hostname @ ''/diagnostics''))"

definition device_tools :: "env \<Rightarrow> string \<Rightarrow> (world, reply) act" where
  "device_tools E hostname = depends E [any_session] (read_route E (''/devices/'' @ hostname @ ''/tools''))"

definition device_tools_diff :: "env \<Rightarrow> string \<Rightarrow> (world, reply) act" where
  "device_tools_diff E hostname =
     depends E [any_session] (read_route E (''/devices/'' @ hostname @ ''/tools/diff''))"

text \<open>The body is looked into only after the gateway has answered.\<close>

definition register_device :: "env \<Rightarrow> http_request \<Rightarrow> (world, reply) act" where
  "register_device E q =
     depends E [admin_session] (
       andthen (request_json q) (\<lambda>body.
       andthen (relay_request E ''POST'' ''/devices'' (opt_json body) []) (\<lambda>resp.
       andthen (lift_result (jget body ''hostname'')) (\<lambda>hostname.
         audited E q resp ''device.register'' (Some (or_dash hostname))))))"

definition update_device :: "env \<Rightarrow> http_request \<Rightarrow> string \<Rightarrow> (world, reply) act" where
  "update_device E q hostname =
     depends E [admin_session] (
       andthen (request_json q) (\<lambda>body.
         write_route E q ''PUT'' (''/devices/'' @ hostname) (opt_json body) ''device.update'' (Some hostname)))"

definition delete_device :: "env \<Rightarrow> http_request \<Rightarrow> string \<Rightarrow> (world, reply) act" where
  "delete_device E q hostname =
     depends E [admin_session] (
       write_route E q ''DELETE'' (''/devices/'' @ hostname) None ''device.delete'' (Some hostname))"

definition approve_fingerprint :: "env \<Rightarrow> http_request \<Rightarrow> string \<Rightarrow> (world, reply) act" where
  "approve_fingerprint E q hostname =
     depends E [admin_session] (
       write_route E q ''POST'' (''/devices/'' @ hostname @ ''/fingerprint/approve'') None
         ''device.fingerprint.approve'' (Some hostname))"

definition deadletter_list :: "env \<Rightarrow> string \<Rightarrow> (world, reply) act" where
  "deadletter_list E hostname =
     depends E [any_session] (read_route E (''/devices/'' @ hostname @ ''/deadletter''))"

definition deadletter_replay :: "env \<Rightarrow> http_request \<Rightarrow> string \<Rightarrow> (world, reply) act" where
  "deadletter_replay E q hostname =
     depends E [admin_session] (
       write_route E q ''POST'' (''/devices/'' @ hostname @ ''/deadletter/replay'') (opt_json (optional_body q))
         ''deadletter.replay'' (Some hostname))"

definition deadletter_drain :: "env \<Rightarrow> http_request \<Rightarrow> string \<Rightarrow> (world, reply) act" where
  "deadletter_drain E q hostname =
     depends E [admin_session] (
       write_route E q ''DELETE'' (''/devices/'' @ hostname @ ''/deadletter'') (opt_json (optional_body q))
         ''deadletter.drain'' (Some hostname))"

section \<open>The catalog of the tenant\<close>

definition tenant_id_of :: "env \<Rightarrow> (world, string) act" where
  "tenant_id_of E =
     (if tenant_id (cfg E) = [] then throw (service_unavailable ''TENANT_ID not configured on this BFF'')
      else ret (tenant_id (cfg E)))"

definition assigned_types :: "env \<Rightarrow> string \<Rightarrow> (world, json) act" where
  "assigned_types E tid =
     andthen (catalog_or E ''GET'' (''/tenants/'' @ tid @ ''/assignments'') None service_unavailable) (\<lambda>resp.
       if r_status resp \<noteq> 200
       then andthen (lift_result (upstream_detail resp)) (\<lambda>detail. throw (HTTPException (r_status resp) detail []))
       else andthen (body_object resp) (\<lambda>b. lift_result (jindex b ''device_types'')))"

text \<open>The set \<open>{t["id"] for t in ...}\<close>: its elements have to be hashable.\<close>

fun hashable :: "json \<Rightarrow> exc + json" where
  "hashable (JList xs) = Inl (PyError ''unhashable type'')"
| "hashable (JObj d) = Inl (PyError ''unhashable type'')"
| "hashable v = Inr v"

definition type_ids :: "json \<Rightarrow> exc + json list" where
  "type_ids types = bind_result (jiter types) (map_result (\<lambda>t. bind_result (jindex t ''id'') hashable))"

definition assigned_ids :: "env \<Rightarrow> string \<Rightarrow> (world, json list) act" where
  "assigned_ids E tid = andthen (assigned_types E tid) (\<lambda>types. lift_result (type_ids types))"

definition tenant_catalog :: "env \<Rightarrow> (world, reply) act" where
  "tenant_catalog E =
     depends E [any_session] (
       andthen (tenant_id_of E) (\<lambda>tid.
       andthen (assigned_types E tid) (\<lambda>types.
         ret (Json_Body (JObj [(''device_types'', types)])))))"

definition tenant_catalog_detail :: "env \<Rightarrow> string \<Rightarrow> (world, reply) act" where
  "tenant_catalog_detail E type_id =
     depends E [any_session] (
       andthen (tenant_id_of E) (\<lambda>tid.
       andthen (assigned_ids E tid) (\<lambda>ids.
         if JStr type_id \<notin> set ids then throw (HTTPException 404 (JStr ''not assigned to this tenant'') [])
         else andthen (catalog_or E ''GET'' (''/device-types/'' @ type_id) None service_unavailable) (\<lambda>resp.
                ret (passthrough resp)))))"

text \<open>
  \<open>max(versions, key=...)\<close> keeps the first of the largest. Numbers compare with numbers and text
  with text; a list as a version number is not modelled, it counts as incomparable.
\<close>

fun json_num :: "json \<Rightarrow> rat option" where
  "json_num (JInt i) = Some (of_int i)"
| "json_num (JFloat r) = Some r"
| "json_num (JBool b) = Some (if b then 1 else 0)"
| "json_num _ = None"

definition json_greater :: "json \<Rightarrow> json \<Rightarrow> exc + bool" where
  "json_greater a b =
     (case (json_num a, json_num b) of
        (Some x, Some y) \<Rightarrow> Inr (x > y)
      | _ \<Rightarrow> (case (as_str a, as_str b) of
                (Some x, Some y) \<Rightarrow> Inr (x > y)
              | _ \<Rightarrow> Inl (PyError ''not supported between instances'')))"

fun max_version :: "json \<times> json \<Rightarrow> (json \<times> json) list \<Rightarrow> exc + json" where
  "max_version best [] = Inr (snd best)"
| "max_version best (x # xs) =
     bind_result (json_greater (fst x) (fst best)) (\<lambda>gt. max_version (if gt then x else best) xs)"

definition current_version :: "json \<Rightarrow> exc + json" where
  "current_version versions =
     bind_result (jiter versions) (\<lambda>vs.
     bind_result (map_result (\<lambda>v. bind_result (jindex v ''version'') (\<lambda>n. Inr (n, v))) vs) (\<lambda>keyed.
       case keyed of [] \<Rightarrow> Inl (ValueError ''max() arg is an empty sequence'') | x # xs \<Rightarrow> max_version x xs))"

section \<open>Claiming a device type\<close>

text \<open>The dash of the message is a hyphen here, as characters are below 256.\<close>

definition own_address_refused :: exc where
  "own_address_refused = bad_request (''this device type supplies its own address (ADR-0020 '' @ [CHR 0xA7]
     @ ''4c) - remove base_url rather than have it silently ignored'')"

definition no_curated_address :: exc where
  "no_curated_address = HTTPException 502 (JStr ''the catalog declares this type host-fixed but curated no address'') []"

text \<open>Whose address the device gets.\<close>

definition claim_address :: "dict \<Rightarrow> json \<Rightarrow> exc + json" where
  "claim_address current base_url =
     (if dict_get current ''host_source'' = JStr ''provider_fixed''
      then (if truthy base_url then Inl own_address_refused
            else if \<not> truthy (dict_get current ''fixed_base_url'') then Inl no_curated_address
            else Inr (dict_get current ''fixed_base_url''))
      else Inr base_url)"

definition dict_at :: "dict \<Rightarrow> string \<Rightarrow> exc + json" where
  "dict_at d k = (case map_of d k of None \<Rightarrow> Inl (KeyError k) | Some v \<Rightarrow> Inr v)"

definition need_str :: "json \<Rightarrow> exc + string" where
  "need_str v = (case v of JStr t \<Rightarrow> Inr t | _ \<Rightarrow> Inl (PyError ''not a string''))"

text \<open>The specification's address, under the device's.\<close>

definition claim_spec_url :: "dict \<Rightarrow> json \<Rightarrow> dict \<Rightarrow> exc + dict" where
  "claim_spec_url current base_url merged =
     (if truthy base_url \<and> truthy (dict_get current ''spec_path'')
      then bind_result (need_str base_url) (\<lambda>base.
           bind_result (need_str (dict_get current ''spec_path'')) (\<lambda>path.
           bind_result (urljoin (if last base = CHR ''/'' then base else base @ ''/'')
               (lstrip_by (\<lambda>c. c = CHR ''/'') path)) (\<lambda>u.
             Inr (dict_set ''spec_url'' (JStr u) merged))))
      else Inr merged)"

text \<open>\<open>dict(v)\<close> of a mapping or of pairs; a pair whose key is not text counts as an error.\<close>

fun dict_of_items :: "json list \<Rightarrow> dict \<Rightarrow> exc + dict" where
  "dict_of_items [] d = Inr d"
| "dict_of_items (x # xs) d =
     (case json_items x of
        [JStr k, v] \<Rightarrow> dict_of_items xs (dict_set k v d)
      | _ \<Rightarrow> Inl (PyError ''cannot convert to a dict''))"

definition py_dict :: "json \<Rightarrow> exc + dict" where
  "py_dict v = (case v of JObj d \<Rightarrow> Inr d | _ \<Rightarrow> bind_result (jiter v) (\<lambda>xs. dict_of_items xs []))"

definition set_if_curated :: "dict \<Rightarrow> string \<Rightarrow> string \<Rightarrow> dict \<Rightarrow> dict" where
  "set_if_curated current field k d =
     (if truthy (dict_get current field) then dict_set k (dict_get current field) d else d)"

definition curated_auth :: "dict \<Rightarrow> json \<Rightarrow> dict \<Rightarrow> dict" where
  "curated_auth current kind auth =
     (if kind = JStr ''api_key''
      then set_if_curated current ''api_key_name'' ''name'' (set_if_curated current ''api_key_location'' ''location'' auth)
      else auth)"

definition claim_auth :: "dict \<Rightarrow> json \<Rightarrow> dict \<Rightarrow> dict \<Rightarrow> exc + dict" where
  "claim_auth current kind body merged =
     (if kind \<noteq> JStr ''none''
      then bind_result (py_dict (py_or (dict_get body ''auth'') (JObj []))) (\<lambda>auth.
             Inr (dict_set ''auth'' (JObj (curated_auth current kind auth)) merged))
      else Inr merged)"

definition claim_rate :: "dict \<Rightarrow> dict \<Rightarrow> dict \<Rightarrow> dict" where
  "claim_rate current body merged =
     (if dict_get body ''rate_limit_rps'' \<noteq> JNull
      then dict_set ''rate_limit_rps'' (dict_get body ''rate_limit_rps'') merged
      else if dict_get current ''recommended_rate_limit_rps'' \<noteq> JNull
      then dict_set ''rate_limit_rps'' (dict_get current ''recommended_rate_limit_rps'') merged
      else merged)"

definition claim_tls :: "dict \<Rightarrow> dict \<Rightarrow> dict" where
  "claim_tls body merged =
     (if truthy (dict_get body ''expected_tls_spki_sha256'')
      then dict_set ''expected_tls_spki_sha256'' (dict_get body ''expected_tls_spki_sha256'') merged else merged)"

definition claim_transport :: "dict \<Rightarrow> json \<Rightarrow> dict \<Rightarrow> exc + dict" where
  "claim_transport current kind merged =
     (if kind = JStr ''mcp''
      then bind_result (dict_at current ''upstream_transport'') (\<lambda>t. Inr (dict_set ''upstream_transport'' t merged))
      else Inr merged)"

text \<open>The registration: the curated version merged with what the tenant sent.\<close>

definition claim_body :: "dict \<Rightarrow> dict \<Rightarrow> exc + dict" where
  "claim_body current body =
     bind_result (claim_address current (dict_get body ''base_url'')) (\<lambda>base_url.
     bind_result (dict_at current ''transport'') (\<lambda>transport.
     bind_result (dict_at current ''upstream_kind'') (\<lambda>kind.
     bind_result (dict_at current ''auth_kind'') (\<lambda>auth_kind.
     bind_result (claim_transport current kind
        [(''hostname'', dict_get body ''hostname''), (''base_url'', base_url), (''transport'', transport),
         (''upstream_kind'', kind), (''auth_type'', auth_kind)]) (\<lambda>m1.
     bind_result (claim_spec_url current base_url m1) (\<lambda>m2.
     bind_result (claim_auth current auth_kind body m2) (\<lambda>m3.
       Inr (claim_tls body (claim_rate current body
              (set_if_curated current ''fingerprint_policy'' ''fingerprint_policy'' m3))))))))))"

definition claim_pin :: "env \<Rightarrow> http_request \<Rightarrow> string \<Rightarrow> string \<Rightarrow> json \<Rightarrow> json \<Rightarrow> (world, unit) act" where
  "claim_pin E q type_id tid hostname version =
     catch (andthen (catalog_request E ''POST'' (''/device-types/'' @ type_id @ ''/claims'')
              (Some (JObj [(''tenant_id'', JStr tid), (''hostname'', hostname), (''version'', version)]))) (\<lambda>_. ret ()))
       (\<lambda>e. case e of
          CatalogUnavailable why \<Rightarrow> record_request E q ''device.claim.pin_unrecorded'' outcome_error (Some (or_dash hostname))
            [(''reason'', JStr why)]
        | CatalogMisconfigured why \<Rightarrow> record_request E q ''device.claim.pin_unrecorded'' outcome_error (Some (or_dash hostname))
            [(''reason'', JStr why)]
        | _ \<Rightarrow> throw e)"

definition claim_with :: "env \<Rightarrow> http_request \<Rightarrow> string \<Rightarrow> string \<Rightarrow> dict \<Rightarrow> dict \<Rightarrow> (world, reply) act" where
  "claim_with E q type_id tid current body =
     andthen (lift_result (claim_body current body)) (\<lambda>merged.
     andthen (relay_request E ''POST'' ''/devices'' (Some (JObj merged)) []) (\<lambda>resp.
     andthen (audited E q resp ''device.claim'' (Some (or_dash (dict_get body ''hostname'')))) (\<lambda>answered.
     andthen (if 200 \<le> r_status resp \<and> r_status resp < 300
              then claim_pin E q type_id tid (dict_get body ''hostname'') (dict_get current ''version'') else ret ()) (\<lambda>_.
       ret answered))))"

definition as_object :: "json \<Rightarrow> exc + dict" where
  "as_object v = (case v of JObj d \<Rightarrow> Inr d | _ \<Rightarrow> Inl (PyError ''no attribute get''))"

definition claim_device_type :: "env \<Rightarrow> http_request \<Rightarrow> string \<Rightarrow> (world, reply) act" where
  "claim_device_type E q type_id =
     depends E [admin_session] (
       andthen (tenant_id_of E) (\<lambda>tid.
       andthen (assigned_ids E tid) (\<lambda>ids.
         if JStr type_id \<notin> set ids then throw (forbidden ''this device type is not assigned to your tenant'')
         else andthen (catalog_or E ''GET'' (''/device-types/'' @ type_id) None service_unavailable) (\<lambda>resp.
           if r_status resp \<noteq> 200 then ret (passthrough resp)
           else andthen (body_object resp) (\<lambda>b.
             andthen (lift_result (bind_result (jindex b ''versions'') current_version)) (\<lambda>current.
             andthen (request_json q) (\<lambda>v.
             andthen (lift_result (as_object v)) (\<lambda>body.
             andthen (lift_result (as_object current)) (\<lambda>cur.
               claim_with E q type_id tid cur body)))))))))"

section \<open>Upgrades\<close>

definition upgrade_offers :: "env \<Rightarrow> (world, reply) act" where
  "upgrade_offers E =
     depends E [any_session] (
       andthen (tenant_id_of E) (\<lambda>tid.
       andthen (catalog_or E ''GET'' (''/tenants/'' @ tid @ ''/upgrades'') None service_unavailable) (\<lambda>resp.
         ret (passthrough resp))))"

definition accept_upgrade :: "env \<Rightarrow> http_request \<Rightarrow> string \<Rightarrow> (world, reply) act" where
  "accept_upgrade E q hostname =
     depends E [admin_session] (
       andthen (tenant_id_of E) (\<lambda>tid.
       andthen (request_json q) (\<lambda>v.
       andthen (lift_result (as_object v)) (\<lambda>body.
         if \<not> truthy (dict_get body ''device_type_id'') \<or> \<not> truthy (dict_get body ''version'')
         then throw (bad_request (quoted ''device_type_id'' @ '' and '' @ quoted ''version'' @ '' are required''))
         else andthen (catalog_or E ''POST'' (''/device-types/'' @ py_str (dict_get body ''device_type_id'') @ ''/claims'')
                 (Some (JObj [(''tenant_id'', JStr tid), (''hostname'', JStr hostname), (''version'', dict_get body ''version'')]))
                 service_unavailable) (\<lambda>resp.
                audited E q resp ''device.claim.upgrade_accepted'' (Some hostname))))))"

section \<open>Monitoring\<close>

definition monitoring_meta :: "env \<Rightarrow> (world, reply) act" where
  "monitoring_meta E =
     depends E [any_session] (ret (Json_Body (JObj
       [(''prometheus_enabled'', JBool (prometheus_url (cfg E) \<noteq> [])),
        (''loki_enabled'', JBool (loki_url (cfg E) \<noteq> [])),
        (''grafana_url'', if grafana_url (cfg E) = [] then JNull else JStr (grafana_url (cfg E)))])))"

definition metrics_summary :: "env \<Rightarrow> (world, reply) act" where
  "metrics_summary E = depends E [any_session] (read_route E ''/metrics/summary'')"

text \<open>A query of a client of its own: no credential and no hook.\<close>

definition monitoring_get :: "env \<Rightarrow> string \<Rightarrow> string \<Rightarrow> (string \<times> string) list \<Rightarrow> (world, reply) act" where
  "monitoring_get E base path params =
     andthen (send E \<lparr>w_method = ''GET'', w_url = join_url base path, w_headers = [], w_json = None, w_form = params,
                w_basic = None\<rparr>) (\<lambda>resp. ret (passthrough resp))"

definition not_configured :: "string \<Rightarrow> reply" where
  "not_configured why = Json_Status 501 (JObj [(''detail'', JStr why)])"

definition prometheus_query :: "env \<Rightarrow> string \<Rightarrow> (world, reply) act" where
  "prometheus_query E query =
     depends E [any_session] (
       if prometheus_url (cfg E) = [] then ret (not_configured ''PROMETHEUS_URL not configured'')
       else monitoring_get E (prometheus_url (cfg E)) ''/api/v1/query'' [(''query'', query)])"

definition max_log_limit :: int where
  "max_log_limit = 1000"

definition log_params :: "string \<Rightarrow> int \<Rightarrow> int \<Rightarrow> time \<Rightarrow> (string \<times> string) list" where
  "log_params query limit minutes now =
     (let end_ns = \<lfloor>now * 1000000000\<rfloor>; start_ns = end_ns - minutes * 60 * 1000000000;
          capped = max 1 (min limit max_log_limit)
      in [(''query'', query), (''limit'', show_int capped), (''start'', show_int start_ns), (''end'', show_int end_ns),
          (''direction'', ''backward'')])"

text \<open>The dash of the message is a hyphen here.\<close>

definition logs :: "env \<Rightarrow> string \<Rightarrow> int \<Rightarrow> int \<Rightarrow> (world, reply) act" where
  "logs E query limit minutes =
     depends E [any_session] (
       if loki_url (cfg E) = [] then ret (not_configured ''LOKI_URL not configured - use your central logging'')
       else andthen (tick (wall_clock E)) (\<lambda>now.
              monitoring_get E (loki_url (cfg E)) ''/loki/api/v1/query_range'' (log_params query limit minutes now)))"

section \<open>Calling a tool\<close>

definition mcp_accept :: string where
  "mcp_accept = ''application/json, text/event-stream''"

definition mcp_session_header :: string where
  "mcp_session_header = ''Mcp-Session-Id''"

definition mcp_protocol_version :: string where
  "mcp_protocol_version = ''2025-06-18''"

definition mcp_path :: "string \<Rightarrow> string" where
  "mcp_path hostname = ''/devices/'' @ hostname @ ''/mcp''"

definition mcp :: "env \<Rightarrow> string \<Rightarrow> json \<Rightarrow> string \<Rightarrow> (world, response) act" where
  "mcp E hostname payload session_id =
     relay_request E ''POST'' (mcp_path hostname) (Some payload)
       ((''Accept'', mcp_accept) #
        (if session_id = [] then []
         else [(mcp_session_header, session_id), (''MCP-Protocol-Version'', mcp_protocol_version)]))"

definition initialize_payload :: json where
  "initialize_payload = JObj [(''jsonrpc'', JStr ''2.0''), (''id'', JInt 1), (''method'', JStr ''initialize''),
     (''params'', JObj [(''protocolVersion'', JStr mcp_protocol_version), (''capabilities'', JObj []),
        (''clientInfo'', JObj [(''name'', JStr ''mcp-gateway-console''), (''version'', JStr ''1'')])])]"

definition call_payload :: "string \<Rightarrow> json \<Rightarrow> json" where
  "call_payload tool arguments = JObj [(''jsonrpc'', JStr ''2.0''), (''id'', JInt 2), (''method'', JStr ''tools/call''),
     (''params'', JObj [(''name'', JStr tool), (''arguments'', py_or arguments (JObj []))])]"

definition invoke_arguments :: "http_request \<Rightarrow> json" where
  "invoke_arguments q = (case optional_body q of JObj d \<Rightarrow> dict_get d ''arguments'' | _ \<Rightarrow> JNull)"

definition mcp_close :: "env \<Rightarrow> string \<Rightarrow> string \<Rightarrow> (world, unit) act" where
  "mcp_close E hostname session_id =
     catch (andthen (relay_request E ''DELETE'' (mcp_path hostname) None
              [(''Accept'', mcp_accept), (mcp_session_header, session_id)]) (\<lambda>_. ret ()))
       (\<lambda>e. ret ())"

definition invoke_in_session ::
  "env \<Rightarrow> http_request \<Rightarrow> string \<Rightarrow> string \<Rightarrow> json \<Rightarrow> string \<Rightarrow> (world, reply) act" where
  "invoke_in_session E q hostname tool arguments session_id =
     andthen (finally_do (mcp E hostname (call_payload tool arguments) session_id) (mcp_close E hostname session_id)) (\<lambda>called.
       audited E q called ''tool.invoke'' (Some (hostname @ ''/'' @ tool)))"

definition invoke_opened :: "env \<Rightarrow> http_request \<Rightarrow> string \<Rightarrow> string \<Rightarrow> response \<Rightarrow> (world, reply) act" where
  "invoke_opened E q hostname tool opened =
     (if 400 \<le> r_status opened then audited E q opened ''tool.invoke'' (Some (hostname @ ''/'' @ tool))
      else (case header_get (r_headers opened) mcp_session_header of
              Some (c # cs) \<Rightarrow> invoke_in_session E q hostname tool (invoke_arguments q) (c # cs)
            | _ \<Rightarrow> ret (Json_Status 502 (JObj [(''detail'',
                      JStr ''the gateway accepted the MCP handshake without returning a session id'')]))))"

definition invoke_tool :: "env \<Rightarrow> http_request \<Rightarrow> string \<Rightarrow> string \<Rightarrow> (world, reply) act" where
  "invoke_tool E q hostname tool =
     depends E [admin_session] (
       if invoke_arguments q \<noteq> JNull \<and> \<not> is_dict (invoke_arguments q)
       then ret (Json_Status 400 (JObj [(''detail'', JStr (quoted ''arguments'' @ '' must be an object''))]))
       else andthen (mcp E hostname initialize_payload []) (invoke_opened E q hostname tool))"

section \<open>Backup and restore\<close>

definition backup_guards :: "guard list" where
  "backup_guards = [any_session, No_Break_Glass, admin_session]"

definition export_backup :: "env \<Rightarrow> http_request \<Rightarrow> bool \<Rightarrow> (world, reply) act" where
  "export_backup E q include_deadletters =
     depends E backup_guards (
       andthen (relay_get E (''/admin/backup?include_deadletters='' @ (if include_deadletters then ''true'' else ''false''))) (\<lambda>resp.
         audited E q resp ''backup.export'' (Some ''registry'')))"

definition pending_backup :: string where
  "pending_backup = ''pending_backup''"

definition pending_backup_ttl :: time where
  "pending_backup_ttl = 120"

text \<open>The session object is updated in place and then written to the store.\<close>

definition save_session :: "env \<Rightarrow> dict \<Rightarrow> (world, unit) act" where
  "save_session E d = andthen (cache_session (Some d)) (\<lambda>_. persist_session E d)"

definition body_or_empty :: "http_request \<Rightarrow> dict" where
  "body_or_empty q = (case optional_body q of JObj d \<Rightarrow> d | _ \<Rightarrow> [])"

definition export_action :: "json \<Rightarrow> string" where
  "export_action kind = (if kind = JStr ''portable'' then ''backup.export_portable'' else ''backup.export'')"

definition pending_record :: "json \<Rightarrow> string \<Rightarrow> string \<Rightarrow> string \<Rightarrow> time \<Rightarrow> dict" where
  "pending_record kind token stamp content now =
     (let k = py_or kind (JStr ''ciphertext'') in
      [(''token'', JStr token), (''kind'', k), (''filename'', JStr (''syncgate-backup-'' @ py_str k @ ''-'' @ stamp @ ''.json'')),
       (''body'', JStr content), (''expires_at'', JFloat (now + pending_backup_ttl))])"

definition stage_backup :: "env \<Rightarrow> http_request \<Rightarrow> json \<Rightarrow> response \<Rightarrow> (world, reply) act" where
  "stage_backup E q kind resp =
     andthen (current_session E) (\<lambda>sess.
     andthen (draw E) (\<lambda>token.
     andthen (tick (file_stamp E)) (\<lambda>stamp.
     andthen (tick (wall_clock E)) (\<lambda>now.
       case sess of
         None \<Rightarrow> throw (PyError ''item assignment'')
       | Some d \<Rightarrow>
           (let pending = pending_record kind token stamp (r_text resp) now in
            andthen (save_session E (dict_set pending_backup (JObj pending) d)) (\<lambda>_.
            andthen (record_request E q (export_action kind) (outcome_for (r_status resp)) (Some ''registry'')
                       [(''staged'', JBool True)]) (\<lambda>_.
              ret (Json_Body (JObj
                [(''download_token'', JStr token), (''filename'', dict_get pending ''filename''),
                 (''expires_at'', dict_get pending ''expires_at''),
                 (''passphrase'', jopt (header_get (r_headers resp) ''X-Backup-Passphrase''))])))))))))"

definition export_backup_with_body :: "env \<Rightarrow> http_request \<Rightarrow> (world, reply) act" where
  "export_backup_with_body E q =
     depends E backup_guards (
       andthen (relay_request E ''POST'' ''/admin/backup'' (Some (JObj (body_or_empty q))) []) (\<lambda>resp.
         let kind = dict_get (body_or_empty q) ''kind'' in
         if r_status resp \<noteq> 200 then audited E q resp (export_action kind) (Some ''registry'')
         else stage_backup E q kind resp))"

text \<open>\<open>float(v)\<close>; the field is a number in every record this module writes.\<close>

definition py_float :: "json \<Rightarrow> exc + rat" where
  "py_float v = (case json_num v of Some r \<Rightarrow> Inr r | None \<Rightarrow> Inl (PyError ''float() argument''))"

definition refuse_download :: "env \<Rightarrow> http_request \<Rightarrow> string \<Rightarrow> exc \<Rightarrow> (world, reply) act" where
  "refuse_download E q reason e =
     andthen (record_request E q ''backup.download'' outcome_denied None [(''reason'', JStr reason)]) (\<lambda>_. throw e)"

definition no_such_download :: exc where
  "no_such_download = HTTPException 404 (JStr ''No prepared archive for this session, or it has been claimed'') []"

definition download_expired :: exc where
  "download_expired = HTTPException 410 (JStr ''The prepared archive expired; export again'') []"

definition attachment :: "json \<Rightarrow> headers" where
  "attachment filename = [(''Content-Disposition'', ''attachment; filename='' @ [CHR 0x22] @ py_str filename @ [CHR 0x22])]"

definition serve_download :: "env \<Rightarrow> http_request \<Rightarrow> dict \<Rightarrow> dict \<Rightarrow> (world, reply) act" where
  "serve_download E q d pending =
     andthen (save_session E (dict_pop pending_backup d)) (\<lambda>_.
     andthen (record_request E q ''backup.download'' outcome_success (Some ''registry'') [(''kind'', dict_get pending ''kind'')]) (\<lambda>_.
     andthen (require_key pending ''body'') (\<lambda>content.
     andthen (require_key pending ''filename'') (\<lambda>filename.
       ret (Download (attachment filename) (py_str content))))))"

definition claim_download :: "env \<Rightarrow> http_request \<Rightarrow> string \<Rightarrow> time \<Rightarrow> dict \<Rightarrow> dict \<Rightarrow> (world, reply) act" where
  "claim_download E q token now d pending =
     andthen (if token = [] then ret False
              else lift_result (compare_json token (dict_get_or pending ''token'' (JStr '''')))) (\<lambda>same.
       if \<not> same then refuse_download E q ''no_such_download'' no_such_download
       else andthen (lift_result (py_float (dict_get_or pending ''expires_at'' (JInt 0)))) (\<lambda>expires.
         if expires \<le> now
         then andthen (save_session E (dict_pop pending_backup d)) (\<lambda>_. refuse_download E q ''expired'' download_expired)
         else serve_download E q d pending))"

definition download_backup :: "env \<Rightarrow> http_request \<Rightarrow> string \<Rightarrow> (world, reply) act" where
  "download_backup E q token =
     depends E [any_session, No_Break_Glass] (
       andthen (current_session E) (\<lambda>sess.
       andthen (tick (wall_clock E)) (\<lambda>now.
         case sess of
           None \<Rightarrow> refuse_download E q ''no_such_download'' no_such_download
         | Some d \<Rightarrow>
             (case dict_get d pending_backup of
                JObj pending \<Rightarrow> claim_download E q token now d pending
              | _ \<Rightarrow> refuse_download E q ''no_such_download'' no_such_download))))"

text \<open>Only an object that says \<open>dry_run\<close> is false, or a falsy value, applies a restore.\<close>

definition restore_dry_run :: "http_request \<Rightarrow> bool" where
  "restore_dry_run q = truthy (dict_get_or (body_or_empty q) ''dry_run'' (JBool True))"

definition restore_backup :: "env \<Rightarrow> http_request \<Rightarrow> (world, reply) act" where
  "restore_backup E q =
     depends E backup_guards (
       andthen (relay_request E ''POST'' (if restore_dry_run q then ''/admin/restore/preview'' else ''/admin/restore/apply'')
                  (Some (JObj (dict_pop ''dry_run'' (body_or_empty q)))) []) (\<lambda>resp.
         audited E q resp (if restore_dry_run q then ''backup.restore_preview'' else ''backup.restore'') (Some ''registry'')))"

section \<open>Dispatch\<close>

datatype api_call =
    Overview
  | List_Devices
  | Get_Device string
  | Device_Diagnostics string
  | Device_Tools string
  | Device_Tools_Diff string
  | Register_Device
  | Update_Device string
  | Delete_Device string
  | Tenant_Catalog
  | Tenant_Catalog_Detail string
  | Claim_Device_Type string
  | Upgrade_Offers
  | Accept_Upgrade string
  | Approve_Fingerprint string
  | Deadletter_List string
  | Deadletter_Replay string
  | Deadletter_Drain string
  | Monitoring_Meta
  | Metrics_Summary
  | Prometheus_Query string
  | Logs string int int
  | Invoke_Tool string string
  | Export_Backup bool
  | Export_Backup_With_Body
  | Download_Backup string
  | Restore_Backup

fun api :: "env \<Rightarrow> http_request \<Rightarrow> api_call \<Rightarrow> (world, reply) act" where
  "api E q Overview = overview E"
| "api E q List_Devices = list_devices E"
| "api E q (Get_Device h) = get_device E h"
| "api E q (Device_Diagnostics h) = device_diagnostics E h"
| "api E q (Device_Tools h) = device_tools E h"
| "api E q (Device_Tools_Diff h) = device_tools_diff E h"
| "api E q Register_Device = register_device E q"
| "api E q (Update_Device h) = update_device E q h"
| "api E q (Delete_Device h) = delete_device E q h"
| "api E q Tenant_Catalog = tenant_catalog E"
| "api E q (Tenant_Catalog_Detail t) = tenant_catalog_detail E t"
| "api E q (Claim_Device_Type t) = claim_device_type E q t"
| "api E q Upgrade_Offers = upgrade_offers E"
| "api E q (Accept_Upgrade h) = accept_upgrade E q h"
| "api E q (Approve_Fingerprint h) = approve_fingerprint E q h"
| "api E q (Deadletter_List h) = deadletter_list E h"
| "api E q (Deadletter_Replay h) = deadletter_replay E q h"
| "api E q (Deadletter_Drain h) = deadletter_drain E q h"
| "api E q Monitoring_Meta = monitoring_meta E"
| "api E q Metrics_Summary = metrics_summary E"
| "api E q (Prometheus_Query query) = prometheus_query E query"
| "api E q (Logs query limit minutes) = logs E query limit minutes"
| "api E q (Invoke_Tool h t) = invoke_tool E q h t"
| "api E q (Export_Backup dl) = export_backup E q dl"
| "api E q Export_Backup_With_Body = export_backup_with_body E q"
| "api E q (Download_Backup token) = download_backup E q token"
| "api E q Restore_Backup = restore_backup E q"

end
