(* ===== verification/Provider.thy ===== *)
theory Provider
  imports Api
begin

text \<open>
  The provider console's routes: the tenant directory and the support-request loop
  (\<open>app/routers/provider.py\<close>), and the curation and assignment of device types
  (\<open>app/routers/catalog.py\<close>).

  The parsed body of a raise is an argument (the framework validates it before the handler
  runs). What the routes guarantee is in \<open>Provider_Access\<close>.
\<close>

section \<open>Guards\<close>

definition provider_read :: guard where
  "provider_read = Provider_Scope [scope_provider_monitor, scope_provider_admin]"

definition provider_admin :: guard where
  "provider_admin = Provider_Scope [scope_provider_admin]"

text \<open>A route that takes the session its dependency returns.\<close>

definition with_session :: "env \<Rightarrow> guard \<Rightarrow> (dict \<Rightarrow> (world, reply) act) \<Rightarrow> (world, reply) act" where
  "with_session E g m =
     depends E [g] (andthen (current_session E) (\<lambda>sess. case sess of None \<Rightarrow> throw not_authenticated | Some d \<Rightarrow> m d))"

section \<open>The directory\<close>

definition tenant_row :: "tenant_entry \<Rightarrow> json" where
  "tenant_row e = JObj [(''tenant_id'', JStr (te_tenant_id e)), (''display_name'', JStr (te_display_name e))]"

definition sorted_tenants :: "tenant_directory \<Rightarrow> tenant_entry list" where
  "sorted_tenants td = sort_key te_display_name (map snd (directory_entries td))"

definition list_tenants :: "env \<Rightarrow> (world, reply) act" where
  "list_tenants E =
     with_session E provider_read (\<lambda>_.
       andthen (directory_refresh E) (\<lambda>_.
       andthen (reading directory) (\<lambda>td.
         ret (Json_Body (JObj
           [(''tenants'', JList (map tenant_row (sorted_tenants td))), (''stale'', JBool (td_failed td))])))))"

section \<open>Reaching a tenant\<close>

record support_body =
  sb_tenant_id :: string
  sb_requested_scopes :: "string list"
  sb_justification :: string
  sb_public_key :: "string option"

definition provider_subject :: "dict \<Rightarrow> string" where
  "provider_subject session = py_str (py_or (dict_get session ''sub'') (JStr ''unknown''))"

definition unknown_tenant :: "json \<Rightarrow> exc" where
  "unknown_tenant tid = HTTPException 404 (JStr (''Unknown tenant: '' @ py_repr tid)) []"

definition tenant_gateway :: "env \<Rightarrow> json \<Rightarrow> (world, gateway_client) act" where
  "tenant_gateway E tid =
     (case tid of
        JStr t \<Rightarrow>
          catch (pool_get E t) (\<lambda>e. case e of
              KeyError k \<Rightarrow> throw (unknown_tenant tid)
            | TenantUnreachable why \<Rightarrow> throw (service_unavailable why)
            | _ \<Rightarrow> throw e)
      | JList xs \<Rightarrow> throw (PyError ''unhashable type'')
      | JObj d \<Rightarrow> throw (PyError ''unhashable type'')
      | _ \<Rightarrow> throw (unknown_tenant tid))"

definition unreachable_gateway :: "json \<Rightarrow> string \<Rightarrow> exc" where
  "unreachable_gateway tid why =
     service_unavailable (''Could not reach tenant '' @ py_repr tid @ [CHR 0x27] @ ''s gateway: '' @ why)"

definition call_tenant :: "env \<Rightarrow> gateway_client \<Rightarrow> string \<Rightarrow> string \<Rightarrow> json \<Rightarrow> json option \<Rightarrow> (world, response) act" where
  "call_tenant E gw meth path tid body =
     catch (gateway_request E gw meth path body JNull [])
       (\<lambda>e. case e of HTTPError why \<Rightarrow> throw (unreachable_gateway tid why) | _ \<Rightarrow> throw e)"

definition error_detail :: "response \<Rightarrow> json" where
  "error_detail resp =
     (case response_json resp of
        Some (JObj d) \<Rightarrow> dict_get_or d ''detail'' (JStr (r_text resp))
      | _ \<Rightarrow> JStr (r_text resp))"

text \<open>The routes are declared to return an object; any other JSON is an error of the server.\<close>

definition object_reply :: "json \<Rightarrow> (world, reply) act" where
  "object_reply v = (if is_dict v then ret (Json_Body v) else throw (PyError ''response is not an object''))"

section \<open>Raising a request\<close>

definition raise_action :: string where
  "raise_action = ''provider.support_request.raise''"

text \<open>\<open>sorted(set(requested) - allowed)\<close>.\<close>

definition scopes_above :: "string list \<Rightarrow> string list \<Rightarrow> string list" where
  "scopes_above requested allowed = sort (remdups (filter (\<lambda>x. x \<notin> set allowed) requested))"

definition scopes_refused :: "string list \<Rightarrow> string list \<Rightarrow> exc" where
  "scopes_refused allowed refused =
     forbidden (''This provider role may only request: '' @ join_with '', '' (sort allowed) @ ''. Refused: '' @ join_with '', '' refused)"

definition jlist :: "string list \<Rightarrow> json" where
  "jlist xs = JList (map JStr xs)"

definition support_payload :: "string \<Rightarrow> support_body \<Rightarrow> dict" where
  "support_payload subject b =
     [(''provider_subject'', JStr subject), (''requested_scopes'', jlist (sb_requested_scopes b)),
      (''justification'', JStr (sb_justification b))]
     @ (case sb_public_key b of Some (c # cs) \<Rightarrow> [(''public_key'', JStr (c # cs))] | _ \<Rightarrow> [])"

definition check_requested :: "env \<Rightarrow> http_request \<Rightarrow> dict \<Rightarrow> support_body \<Rightarrow> (world, unit) act" where
  "check_requested E q session b =
     (case requestable_scopes_for (dict_get session ''provider_scopes'') of
        None \<Rightarrow> ret ()
      | Some allowed \<Rightarrow>
          (if scopes_above (sb_requested_scopes b) allowed = [] then ret ()
           else andthen (record_request E q raise_action outcome_denied (Some (provider_subject session))
                  [(''tenant_id'', JStr (sb_tenant_id b)), (''reason'', JStr ''scope_above_role''),
                   (''requested_scopes'', jlist (sort (sb_requested_scopes b)))]) (\<lambda>_.
                  throw (scopes_refused allowed (scopes_above (sb_requested_scopes b) allowed)))))"

definition send_raise :: "env \<Rightarrow> http_request \<Rightarrow> string \<Rightarrow> support_body \<Rightarrow> gateway_client \<Rightarrow> (world, response) act" where
  "send_raise E q subject b gw =
     catch (call_tenant E gw ''POST'' ''/support-requests'' (JStr (sb_tenant_id b)) (Some (JObj (support_payload subject b))))
       (\<lambda>e. case e of
          HTTPException st d hs \<Rightarrow>
            andthen (record_request E q raise_action outcome_denied (Some subject)
               [(''tenant_id'', JStr (sb_tenant_id b)), (''reason'', JStr ''tenant_unreachable''),
                (''requested_scopes'', jlist (sort (sb_requested_scopes b))), (''status'', JInt st)]) (\<lambda>_. throw e)
        | _ \<Rightarrow> throw e)"

definition raise_support_request :: "env \<Rightarrow> http_request \<Rightarrow> support_body \<Rightarrow> (world, reply) act" where
  "raise_support_request E q b =
     with_session E provider_read (\<lambda>session.
       andthen (check_requested E q session b) (\<lambda>_.
       andthen (tenant_gateway E (JStr (sb_tenant_id b))) (\<lambda>gw.
       andthen (send_raise E q (provider_subject session) b gw) (\<lambda>resp.
       andthen (record_request E q raise_action (outcome_for (r_status resp)) (Some (provider_subject session))
          [(''tenant_id'', JStr (sb_tenant_id b)), (''status'', JInt (r_status resp))]) (\<lambda>_.
         if 400 \<le> r_status resp then throw (HTTPException (r_status resp) (error_detail resp) [])
         else andthen (body_object resp) object_reply)))))"

section \<open>Polling, holding and releasing\<close>

definition poll_path :: "string \<Rightarrow> string \<Rightarrow> string" where
  "poll_path request_id subject = ''/support-requests/'' @ request_id @ ''?provider_subject='' @ quote_all subject"

definition delivered_grant :: "string \<Rightarrow> dict \<Rightarrow> json" where
  "delivered_grant tid b =
     JObj [(''tenant_id'', JStr tid), (''grant_id'', dict_get b ''grant_id''), (''credential'', dict_get b ''credential'')]"

definition keep_grant :: "env \<Rightarrow> string \<Rightarrow> dict \<Rightarrow> (world, unit) act" where
  "keep_grant E tid b =
     (if dict_get b ''status'' = JStr ''approved'' \<and> truthy (dict_get b ''credential'')
      then andthen (current_session E) (\<lambda>sess.
             case sess of
               None \<Rightarrow> ret ()
             | Some d \<Rightarrow> save_session E (dict_set ''support_grant'' (delivered_grant tid b) d))
      else ret ())"

definition poll_support_request :: "env \<Rightarrow> string \<Rightarrow> string \<Rightarrow> (world, reply) act" where
  "poll_support_request E request_id tid =
     with_session E provider_read (\<lambda>session.
       andthen (tenant_gateway E (JStr tid)) (\<lambda>gw.
       andthen (call_tenant E gw ''GET'' (poll_path request_id (provider_subject session)) (JStr tid) None) (\<lambda>resp.
         if 400 \<le> r_status resp then throw (HTTPException (r_status resp) (error_detail resp) [])
         else andthen (body_object resp) (\<lambda>v.
              andthen (lift_result (as_object v)) (\<lambda>b.
              andthen (keep_grant E tid b) (\<lambda>_. ret (Json_Body v)))))))"

definition current_support_grant :: "env \<Rightarrow> (world, reply) act" where
  "current_support_grant E =
     with_session E provider_read (\<lambda>session.
       case dict_get session ''support_grant'' of
         JObj g \<Rightarrow>
           (if \<not> truthy (dict_get g ''credential'') then ret (Json_Body (JObj [(''held'', JBool False)]))
            else ret (Json_Body (JObj [(''held'', JBool True), (''grant_id'', dict_get g ''grant_id''),
                                        (''tenant_id'', dict_get g ''tenant_id'')])))
       | _ \<Rightarrow> ret (Json_Body (JObj [(''held'', JBool False)])))"

definition grant_field :: "dict \<Rightarrow> string \<Rightarrow> json" where
  "grant_field session k = (case dict_get session ''support_grant'' of JObj g \<Rightarrow> dict_get g k | _ \<Rightarrow> JNull)"

text \<open>The tenant's answer to the revocation is not looked at.\<close>

definition revoke_grant :: "env \<Rightarrow> json \<Rightarrow> json \<Rightarrow> (world, json) act" where
  "revoke_grant E grant_id tid =
     (if truthy grant_id \<and> truthy tid
      then andthen (tenant_gateway E tid) (\<lambda>gw.
           andthen (call_tenant E gw ''DELETE'' (''/support-grants/'' @ py_str grant_id) tid None) (\<lambda>_. ret grant_id))
      else ret JNull)"

definition forget_grant :: "env \<Rightarrow> (world, unit) act" where
  "forget_grant E =
     andthen (current_session E) (\<lambda>sess.
       case sess of
         None \<Rightarrow> ret ()
       | Some d \<Rightarrow>
           (if dict_get d ''support_grant'' \<noteq> JNull then save_session E (dict_pop ''support_grant'' d)
            else cache_session (Some (dict_pop ''support_grant'' d))))"

definition release_support_grant :: "env \<Rightarrow> http_request \<Rightarrow> (world, reply) act" where
  "release_support_grant E q =
     with_session E provider_read (\<lambda>session.
       andthen (revoke_grant E (grant_field session ''grant_id'') (grant_field session ''tenant_id'')) (\<lambda>released.
       andthen (forget_grant E) (\<lambda>_.
       andthen (record_request E q ''provider.support_grant.release''
                  (if truthy released then outcome_success else outcome_denied) (Some (provider_subject session))
                  [(''grant_id'', grant_field session ''grant_id'')]) (\<lambda>_.
         ret (Json_Body (JObj [(''released'', released)]))))))"

section \<open>Curation and assignment\<close>

definition catalog_relay :: "env \<Rightarrow> string \<Rightarrow> string \<Rightarrow> json option \<Rightarrow> (world, response) act" where
  "catalog_relay E meth path body =
     catalog_or E meth path body (\<lambda>why. service_unavailable (''catalog service unavailable: '' @ why))"

definition relay_audited :: "env \<Rightarrow> http_request \<Rightarrow> string \<Rightarrow> string \<Rightarrow> string \<Rightarrow> json option \<Rightarrow> (world, reply) act" where
  "relay_audited E q meth path action body =
     andthen (catalog_relay E meth path body) (\<lambda>resp. audited E q resp action (Some path))"

definition create_device_type :: "env \<Rightarrow> http_request \<Rightarrow> (world, reply) act" where
  "create_device_type E q =
     with_session E provider_admin (\<lambda>_.
       andthen (request_json q) (\<lambda>body.
         relay_audited E q ''POST'' ''/device-types'' ''provider.catalog.device_type.create'' (opt_json body)))"

definition add_device_type_version :: "env \<Rightarrow> http_request \<Rightarrow> string \<Rightarrow> (world, reply) act" where
  "add_device_type_version E q type_id =
     with_session E provider_admin (\<lambda>_.
       andthen (request_json q) (\<lambda>body.
         relay_audited E q ''POST'' (''/device-types/'' @ type_id @ ''/versions'')
           ''provider.catalog.device_type.add_version'' (opt_json body)))"

definition list_device_types :: "env \<Rightarrow> (world, reply) act" where
  "list_device_types E =
     with_session E provider_admin (\<lambda>_.
       andthen (catalog_relay E ''GET'' ''/device-types'' None) (\<lambda>resp. ret (passthrough resp)))"

definition get_device_type :: "env \<Rightarrow> string \<Rightarrow> (world, reply) act" where
  "get_device_type E type_id =
     with_session E provider_admin (\<lambda>_.
       andthen (catalog_relay E ''GET'' (''/device-types/'' @ type_id) None) (\<lambda>resp. ret (passthrough resp)))"

text \<open>Who assigned is the session's subject, whatever the body says.\<close>

definition assign_device_type :: "env \<Rightarrow> http_request \<Rightarrow> string \<Rightarrow> (world, reply) act" where
  "assign_device_type E q type_id =
     with_session E provider_admin (\<lambda>session.
       andthen (request_json q) (\<lambda>v.
       andthen (lift_result (jget v ''tenant_id'')) (\<lambda>tid.
         if \<not> truthy tid then throw (bad_request (quoted ''tenant_id'' @ '' is required''))
         else relay_audited E q ''POST'' (''/device-types/'' @ type_id @ ''/assign'') ''provider.catalog.assign''
                (Some (JObj [(''tenant_id'', tid), (''assigned_by'', JStr (provider_subject session))])))))"

definition revoke_assignment :: "env \<Rightarrow> http_request \<Rightarrow> string \<Rightarrow> string \<Rightarrow> (world, reply) act" where
  "revoke_assignment E q type_id tid =
     with_session E provider_admin (\<lambda>_.
       andthen (catalog_relay E ''DELETE'' (''/device-types/'' @ type_id @ ''/assign/'' @ tid) None) (\<lambda>resp.
       andthen (record_request E q ''provider.catalog.revoke'' (outcome_for (r_status resp))
                  (Some (type_id @ '':'' @ tid)) [(''status'', JInt (r_status resp))]) (\<lambda>_.
         ret (if r_status resp = 204 then Json_Status 204 JNull else passthrough resp))))"

definition tenant_assignments :: "env \<Rightarrow> string \<Rightarrow> (world, reply) act" where
  "tenant_assignments E tid =
     with_session E provider_admin (\<lambda>_.
       andthen (catalog_relay E ''GET'' (''/tenants/'' @ tid @ ''/assignments'') None) (\<lambda>resp. ret (passthrough resp)))"

section \<open>Dispatch\<close>

datatype provider_call =
    List_Tenants
  | Raise_Support_Request support_body
  | Poll_Support_Request string string
  | Current_Support_Grant
  | Release_Support_Grant
  | Create_Device_Type
  | Add_Device_Type_Version string
  | List_Device_Types
  | Get_Device_Type string
  | Assign_Device_Type string
  | Revoke_Assignment string string
  | Tenant_Assignments string

fun provider :: "env \<Rightarrow> http_request \<Rightarrow> provider_call \<Rightarrow> (world, reply) act" where
  "provider E q List_Tenants = list_tenants E"
| "provider E q (Raise_Support_Request b) = raise_support_request E q b"
| "provider E q (Poll_Support_Request i t) = poll_support_request E i t"
| "provider E q Current_Support_Grant = current_support_grant E"
| "provider E q Release_Support_Grant = release_support_grant E q"
| "provider E q Create_Device_Type = create_device_type E q"
| "provider E q (Add_Device_Type_Version i) = add_device_type_version E q i"
| "provider E q List_Device_Types = list_device_types E"
| "provider E q (Get_Device_Type i) = get_device_type E i"
| "provider E q (Assign_Device_Type i) = assign_device_type E q i"
| "provider E q (Revoke_Assignment i t) = revoke_assignment E q i t"
| "provider E q (Tenant_Assignments t) = tenant_assignments E t"

end
