(* ===== verification/Api_Access.thy ===== *)
theory Api_Access
  imports Api
begin

text \<open>
  What the browser's API guarantees, over every call of \<open>api\<close>.
\<close>

section \<open>Who may call what\<close>

fun mutates :: "api_call \<Rightarrow> bool" where
  "mutates Register_Device = True"
| "mutates (Update_Device h) = True"
| "mutates (Delete_Device h) = True"
| "mutates (Claim_Device_Type t) = True"
| "mutates (Accept_Upgrade h) = True"
| "mutates (Approve_Fingerprint h) = True"
| "mutates (Deadletter_Replay h) = True"
| "mutates (Deadletter_Drain h) = True"
| "mutates (Invoke_Tool h t) = True"
| "mutates Export_Backup_With_Body = True"
| "mutates Restore_Backup = True"
| "mutates _ = False"

fun backup_call :: "api_call \<Rightarrow> bool" where
  "backup_call (Export_Backup dl) = True"
| "backup_call Export_Backup_With_Body = True"
| "backup_call (Download_Backup token) = True"
| "backup_call Restore_Backup = True"
| "backup_call _ = False"

text \<open>A session that came from a local password.\<close>

definition password_role :: "dict option \<Rightarrow> json option" where
  "password_role sess =
     (if get_or sess ''kind'' = JStr ''password'' \<and> session_plane sess = plane_tenant
      then Some (get_or sess ''role'') else None)"

definition refused_locally :: "env \<Rightarrow> world \<Rightarrow> (exc + reply) \<times> world \<Rightarrow> bool" where
  "refused_locally E s run \<longleftrightarrow>
     (\<exists>st why. fst run = Inl (HTTPException st why []) \<and> st \<in> {401, 403}) \<and> snd run = loaded E s"

lemma depends_refused:
  assumes "refusal (known_session E s) gs = Some e" and "\<exists>st why. e = HTTPException st why [] \<and> st \<in> {401, 403}"
  shows "refused_locally E s (depends E gs m s)"
  using assms by (auto simp: refused_locally_def depends_run)

lemmas guard_defs = any_session_def admin_session_def backup_guards_def not_authenticated_def forbidden_def

lemma refuses_strangers:
  "known_session E s = None \<Longrightarrow> gs \<in> {[any_session], [admin_session], [any_session, No_Break_Glass], backup_guards} \<Longrightarrow>
     refused_locally E s (depends E gs m s)"
  by (rule depends_refused [where e = not_authenticated]) (auto simp: guard_defs)

lemma refuses_viewers:
  assumes "password_role (known_session E s) = Some r" and "r \<noteq> JStr ''admin''" and "gs \<in> {[admin_session], backup_guards}"
  shows "refused_locally E s (depends E gs m s)"
proof -
  obtain d where d: "known_session E s = Some d" "dict_get d ''kind'' = JStr ''password''" "dict_get d ''role'' = r"
    "session_plane (Some d) = plane_tenant"
    using assms(1) by (cases "known_session E s") (auto simp: password_role_def get_or_def split: if_splits)
  then show ?thesis using assms(2,3)
    by (intro depends_refused [where e = "if gs = [admin_session] then forbidden ''Forbidden''
        else forbidden break_glass_detail"])
      (auto simp: guard_defs get_or_def plane_tenant_def plane_provider_def)
qed

lemma refuses_break_glass:
  assumes "password_role (known_session E s) = Some r" and "gs \<in> {[any_session, No_Break_Glass], backup_guards}"
  shows "refused_locally E s (depends E gs m s)"
proof -
  obtain d where d: "known_session E s = Some d" "dict_get d ''kind'' = JStr ''password''"
    "session_plane (Some d) = plane_tenant"
    using assms(1) by (cases "known_session E s") (auto simp: password_role_def get_or_def split: if_splits)
  then show ?thesis using assms(2)
    by (intro depends_refused [where e = "forbidden break_glass_detail"])
      (auto simp: guard_defs get_or_def plane_tenant_def plane_provider_def)
qed

lemmas route_defs =
  overview_def list_devices_def get_device_def device_diagnostics_def device_tools_def device_tools_diff_def
  register_device_def update_device_def delete_device_def tenant_catalog_def tenant_catalog_detail_def
  claim_device_type_def upgrade_offers_def accept_upgrade_def approve_fingerprint_def deadletter_list_def
  deadletter_replay_def deadletter_drain_def monitoring_meta_def metrics_summary_def prometheus_query_def logs_def
  invoke_tool_def export_backup_def export_backup_with_body_def download_backup_def restore_backup_def

text \<open>Every route is one of these.\<close>

lemma api_guarded:
  obtains m where "api E q c =
    depends E (if backup_call c then (case c of Download_Backup t \<Rightarrow> [any_session, No_Break_Glass] | _ \<Rightarrow> backup_guards)
               else if mutates c then [admin_session] else [any_session]) m"
  by (cases c; simp only: api.simps route_defs backup_call.simps mutates.simps if_True if_False api_call.case)

text \<open>C7. No route of the API does anything for a caller it does not admit: without a session
  every route answers 401, a password session that is not the admin's gets 403 from every route
  that changes something, and no password session at all exports, downloads or restores a
  backup. A refused call sends nothing, records nothing and only looks the session up.\<close>

theorem api_refuses:
  assumes "known_session E s = None
    \<or> (\<exists>r. password_role (known_session E s) = Some r \<and> (r \<noteq> JStr ''admin'' \<and> mutates c \<or> backup_call c))"
  shows "refused_locally E s (api E q c s) \<and> trace (snd (api E q c s)) = trace s
    \<and> audit (snd (api E q c s)) = audit s \<and> sink (snd (api E q c s)) = sink s"
proof -
  let ?gs = "if backup_call c then (case c of Download_Backup t \<Rightarrow> [any_session, No_Break_Glass] | _ \<Rightarrow> backup_guards)
               else if mutates c then [admin_session] else [any_session]"
  obtain m where m: "api E q c = depends E ?gs m" by (rule api_guarded)
  have gs: "?gs \<in> {[any_session], [admin_session], [any_session, No_Break_Glass], backup_guards}"
    by (cases c) auto
  have "refused_locally E s (depends E ?gs m s)"
  proof (cases "known_session E s")
    case None
    then show ?thesis using gs by (rule refuses_strangers)
  next
    case (Some d)
    then obtain r where r: "password_role (known_session E s) = Some r"
      "r \<noteq> JStr ''admin'' \<and> mutates c \<or> backup_call c" using assms by auto
    show ?thesis
    proof (cases "backup_call c")
      case True
      then have "?gs \<in> {[any_session, No_Break_Glass], backup_guards}" by (cases c) auto
      then show ?thesis using r(1) by (rule refuses_break_glass [rotated])
    next
      case False
      then have "?gs \<in> {[admin_session], backup_guards}" using r(2) by simp
      then show ?thesis using r False by (intro refuses_viewers) auto
    qed
  qed
  then show ?thesis unfolding m by (simp add: refused_locally_def loaded_fields)
qed

section \<open>Claims\<close>

lemma claim_transport_ok:
  "claim_transport current kind m = Inr m' \<Longrightarrow>
     m' = (if kind = JStr ''mcp'' then dict_set ''upstream_transport'' (dict_get current ''upstream_transport'') m else m)"
  by (auto simp: claim_transport_def bind_result_Inr dict_at_def dict_get_def split: if_splits option.splits)

lemma claim_spec_url_ok:
  "claim_spec_url current base m = Inr m' \<Longrightarrow> m' = m \<or> (\<exists>u. m' = dict_set ''spec_url'' (JStr u) m)"
  by (auto simp: claim_spec_url_def bind_result_Inr split: if_splits)

lemma claim_auth_ok:
  "claim_auth current kind body m = Inr m' \<Longrightarrow>
     (if kind = JStr ''none'' then m' = m else \<exists>auth. m' = dict_set ''auth'' (JObj (curated_auth current kind auth)) m)"
  by (auto simp: claim_auth_def bind_result_Inr split: if_splits)

lemma claim_address_ok:
  "claim_address current sent = Inr u \<Longrightarrow>
     (if dict_get current ''host_source'' = JStr ''provider_fixed''
      then \<not> truthy sent \<and> truthy u \<and> u = dict_get current ''fixed_base_url'' else u = sent)"
  by (auto simp: claim_address_def split: if_splits)

lemma curated_auth_fields:
  "kind = JStr ''api_key'' \<Longrightarrow>
     (truthy (dict_get current ''api_key_location'') \<longrightarrow>
        dict_get (curated_auth current kind auth) ''location'' = dict_get current ''api_key_location'')
     \<and> (truthy (dict_get current ''api_key_name'') \<longrightarrow>
        dict_get (curated_auth current kind auth) ''name'' = dict_get current ''api_key_name'')"
  by (simp add: curated_auth_def set_if_curated_def dict_simps)

text \<open>What a successful merge consists of.\<close>

lemma claim_body_steps:
  assumes "claim_body current body = Inr m"
  obtains u m1 m2 m3 where "claim_address current (dict_get body ''base_url'') = Inr u"
    and "claim_transport current (dict_get current ''upstream_kind'')
       [(''hostname'', dict_get body ''hostname''), (''base_url'', u), (''transport'', dict_get current ''transport''),
         (''upstream_kind'', dict_get current ''upstream_kind''), (''auth_type'', dict_get current ''auth_kind'')] = Inr m1"
    and "claim_spec_url current u m1 = Inr m2" and "claim_auth current (dict_get current ''auth_kind'') body m2 = Inr m3"
    and "m = claim_tls body (claim_rate current body (set_if_curated current ''fingerprint_policy'' ''fingerprint_policy'' m3))"
proof -
  have at: "dict_at d k = Inr x \<Longrightarrow> x = dict_get d k" for d k x
    by (auto simp: dict_at_def dict_get_def split: option.splits)
  show ?thesis
    using assms that by (auto simp: claim_body_def bind_result_Inr dest!: at)
qed

definition claim_keys :: "string list" where
  "claim_keys = [''hostname'', ''base_url'', ''transport'', ''upstream_kind'', ''auth_type'', ''upstream_transport'',
     ''spec_url'', ''auth'', ''fingerprint_policy'', ''rate_limit_rps'', ''expected_tls_spki_sha256'']"

lemma set_if_curated_get:
  "dict_get (set_if_curated c f k d) x = (if x = k \<and> truthy (dict_get c f) then dict_get c f else dict_get d x)"
  by (simp add: set_if_curated_def dict_simps)

lemma set_if_curated_has: "dict_has (set_if_curated c f k d) x \<longleftrightarrow> x = k \<and> truthy (dict_get c f) \<or> dict_has d x"
  by (auto simp: set_if_curated_def dict_simps)

lemma claim_tail_get:
  "dict_get (claim_tls body (claim_rate current body (set_if_curated current f ''fingerprint_policy'' d))) x =
     (if x = ''expected_tls_spki_sha256'' \<and> truthy (dict_get body x) then dict_get body x
      else if x = ''rate_limit_rps'' \<and> dict_get body x \<noteq> JNull then dict_get body x
      else if x = ''rate_limit_rps'' \<and> dict_get current ''recommended_rate_limit_rps'' \<noteq> JNull
        then dict_get current ''recommended_rate_limit_rps''
      else if x = ''fingerprint_policy'' \<and> truthy (dict_get current f) then dict_get current f
      else dict_get d x)"
  by (auto simp: claim_tls_def claim_rate_def set_if_curated_get dict_simps)

lemma claim_tail_has:
  "dict_has (claim_tls body (claim_rate current body (set_if_curated current f ''fingerprint_policy'' d))) x \<Longrightarrow>
     x \<in> {''expected_tls_spki_sha256'', ''rate_limit_rps'', ''fingerprint_policy''} \<or> dict_has d x"
  by (auto simp: claim_tls_def claim_rate_def set_if_curated_has dict_simps split: if_splits)

text \<open>The fields of the merge, and the keys it can have.\<close>

definition claim_base :: "dict \<Rightarrow> dict \<Rightarrow> json \<Rightarrow> dict" where
  "claim_base current body u =
     [(''hostname'', dict_get body ''hostname''), (''base_url'', u), (''transport'', dict_get current ''transport''),
      (''upstream_kind'', dict_get current ''upstream_kind''), (''auth_type'', dict_get current ''auth_kind'')]"

lemma claim_base_has:
  "dict_has (claim_base current body u) k \<longleftrightarrow> k \<in> {''hostname'', ''base_url'', ''transport'', ''upstream_kind'', ''auth_type''}"
  by (auto simp: claim_base_def dict_has_def)

lemma claim_body_fields:
  assumes "claim_body current body = Inr m"
  obtains u where "claim_address current (dict_get body ''base_url'') = Inr u"
    and "\<And>k. k \<in> {''base_url'', ''hostname'', ''transport'', ''upstream_kind'', ''auth_type''} \<Longrightarrow>
           dict_get m k = dict_get (claim_base current body u) k"
    and "\<And>k. dict_has m k \<Longrightarrow> k \<in> {''expected_tls_spki_sha256'', ''rate_limit_rps'', ''fingerprint_policy'', ''spec_url''}
           \<or> k = ''auth'' \<and> dict_get current ''auth_kind'' \<noteq> JStr ''none''
           \<or> k = ''upstream_transport'' \<and> dict_get current ''upstream_kind'' = JStr ''mcp''
           \<or> dict_has (claim_base current body u) k"
    and "dict_get current ''auth_kind'' \<noteq> JStr ''none'' \<Longrightarrow>
           \<exists>a. dict_get m ''auth'' = JObj (curated_auth current (dict_get current ''auth_kind'') a)"
proof -
  obtain u m1 m2 m3 where s: "claim_address current (dict_get body ''base_url'') = Inr u"
    "claim_transport current (dict_get current ''upstream_kind'') (claim_base current body u) = Inr m1"
    "claim_spec_url current u m1 = Inr m2" "claim_auth current (dict_get current ''auth_kind'') body m2 = Inr m3"
    and m: "m = claim_tls body (claim_rate current body (set_if_curated current ''fingerprint_policy'' ''fingerprint_policy'' m3))"
    using assms unfolding claim_base_def by (rule claim_body_steps)
  note m1 = claim_transport_ok [OF s(2)]
  have 1: "k \<noteq> ''upstream_transport'' \<Longrightarrow> dict_get m1 k = dict_get (claim_base current body u) k"
    "dict_has m1 k \<longleftrightarrow> k = ''upstream_transport'' \<and> dict_get current ''upstream_kind'' = JStr ''mcp''
       \<or> dict_has (claim_base current body u) k" for k
    using m1 by (simp_all add: dict_simps)
  have 2: "k \<noteq> ''spec_url'' \<Longrightarrow> dict_get m2 k = dict_get m1 k" "dict_has m2 k \<Longrightarrow> k = ''spec_url'' \<or> dict_has m1 k" for k
    using claim_spec_url_ok [OF s(3)] by (auto simp: dict_simps)
  have 3: "k \<noteq> ''auth'' \<Longrightarrow> dict_get m3 k = dict_get m2 k"
    "dict_has m3 k \<Longrightarrow> k = ''auth'' \<and> dict_get current ''auth_kind'' \<noteq> JStr ''none'' \<or> dict_has m2 k" for k
    using claim_auth_ok [OF s(4)] by (auto simp: dict_simps split: if_splits)
  show ?thesis
  proof (rule that [OF s(1)])
    show "dict_get m k = dict_get (claim_base current body u) k"
      if "k \<in> {''base_url'', ''hostname'', ''transport'', ''upstream_kind'', ''auth_type''}" for k
    proof -
      have "k \<notin> {''expected_tls_spki_sha256'', ''rate_limit_rps'', ''fingerprint_policy'', ''spec_url'', ''auth'', ''upstream_transport''}"
        using that by auto
      then show ?thesis unfolding m claim_tail_get by (simp add: 1(1) 2(1) 3(1))
    qed
    show "k \<in> {''expected_tls_spki_sha256'', ''rate_limit_rps'', ''fingerprint_policy'', ''spec_url''}
        \<or> k = ''auth'' \<and> dict_get current ''auth_kind'' \<noteq> JStr ''none''
        \<or> k = ''upstream_transport'' \<and> dict_get current ''upstream_kind'' = JStr ''mcp''
        \<or> dict_has (claim_base current body u) k" if "dict_has m k" for k
    proof -
      have "dict_has m3 k \<Longrightarrow> k \<in> {''spec_url''} \<or> k = ''auth'' \<and> dict_get current ''auth_kind'' \<noteq> JStr ''none'' \<or> dict_has m1 k"
        using 2(2) [of k] 3(2) [of k] by auto
      then have 4: "dict_has m3 k \<Longrightarrow> k \<in> {''spec_url''} \<or> k = ''auth'' \<and> dict_get current ''auth_kind'' \<noteq> JStr ''none''
          \<or> k = ''upstream_transport'' \<and> dict_get current ''upstream_kind'' = JStr ''mcp'' \<or> dict_has (claim_base current body u) k"
        using 1(2) [of k] by argo
      from claim_tail_has [OF that [unfolded m]] show ?thesis
      proof
        assume "dict_has m3 k" then show ?thesis using 4 by simp
      qed auto
    qed
    show "\<exists>a. dict_get m ''auth'' = JObj (curated_auth current (dict_get current ''auth_kind'') a)"
      if "dict_get current ''auth_kind'' \<noteq> JStr ''none''"
      using claim_auth_ok [OF s(4)] that unfolding m claim_tail_get by (auto simp: dict_simps)
  qed
qed

text \<open>C33. What a claim registers: the address is the type's own where the curator fixed it (and then
  the tenant sent none), the transport, kind and kind of credential are always the curated
  ones, a curated position of an API key overrides the tenant's, an OpenAPI device carries no
  upstream transport and a device without credential no auth, and no other field of the tenant's body
  reaches the gateway.\<close>

theorem claim_curated:
  assumes "claim_body current body = Inr m"
  shows "dict_get m ''base_url'' = (if dict_get current ''host_source'' = JStr ''provider_fixed''
           then dict_get current ''fixed_base_url'' else dict_get body ''base_url'')
    \<and> (dict_get current ''host_source'' = JStr ''provider_fixed'' \<longrightarrow> \<not> truthy (dict_get body ''base_url''))
    \<and> dict_get m ''hostname'' = dict_get body ''hostname''
    \<and> dict_get m ''transport'' = dict_get current ''transport''
    \<and> dict_get m ''upstream_kind'' = dict_get current ''upstream_kind''
    \<and> dict_get m ''auth_type'' = dict_get current ''auth_kind''
    \<and> (dict_get current ''upstream_kind'' \<noteq> JStr ''mcp'' \<longrightarrow> \<not> dict_has m ''upstream_transport'')
    \<and> (dict_get current ''auth_kind'' = JStr ''none'' \<longrightarrow> \<not> dict_has m ''auth'')
    \<and> (dict_get current ''auth_kind'' = JStr ''api_key'' \<longrightarrow> (\<exists>a. dict_get m ''auth'' = JObj a
         \<and> (truthy (dict_get current ''api_key_location'') \<longrightarrow> dict_get a ''location'' = dict_get current ''api_key_location'')
         \<and> (truthy (dict_get current ''api_key_name'') \<longrightarrow> dict_get a ''name'' = dict_get current ''api_key_name'')))
    \<and> (\<forall>k. dict_has m k \<longrightarrow> k \<in> set claim_keys)"
proof -
  obtain u where u: "claim_address current (dict_get body ''base_url'') = Inr u"
    and get: "\<And>k. k \<in> {''base_url'', ''hostname'', ''transport'', ''upstream_kind'', ''auth_type''} \<Longrightarrow>
           dict_get m k = dict_get (claim_base current body u) k"
    and has: "\<And>k. dict_has m k \<Longrightarrow> k \<in> {''expected_tls_spki_sha256'', ''rate_limit_rps'', ''fingerprint_policy'', ''spec_url''}
           \<or> k = ''auth'' \<and> dict_get current ''auth_kind'' \<noteq> JStr ''none''
           \<or> k = ''upstream_transport'' \<and> dict_get current ''upstream_kind'' = JStr ''mcp''
           \<or> dict_has (claim_base current body u) k"
    and auth: "dict_get current ''auth_kind'' \<noteq> JStr ''none'' \<Longrightarrow>
           \<exists>a. dict_get m ''auth'' = JObj (curated_auth current (dict_get current ''auth_kind'') a)"
    by (rule claim_body_fields [OF assms]) (assumption | rule that)+
  have fields: "dict_get m ''base_url'' = u" "dict_get m ''hostname'' = dict_get body ''hostname''"
    "dict_get m ''transport'' = dict_get current ''transport''"
    "dict_get m ''upstream_kind'' = dict_get current ''upstream_kind''"
    "dict_get m ''auth_type'' = dict_get current ''auth_kind''"
    by (simp_all add: get claim_base_def)
  have keys: "dict_has m k \<Longrightarrow> k \<in> set claim_keys" for k
    using has [of k] claim_base_has [of current body u k] by (auto simp: claim_keys_def)
  have no: "dict_get current ''upstream_kind'' \<noteq> JStr ''mcp'' \<Longrightarrow> \<not> dict_has m ''upstream_transport''"
    "dict_get current ''auth_kind'' = JStr ''none'' \<Longrightarrow> \<not> dict_has m ''auth''"
    using has [of "''upstream_transport''"] has [of "''auth''"] by (auto simp: claim_base_has)
  have key: "\<exists>a. dict_get m ''auth'' = JObj a
         \<and> (truthy (dict_get current ''api_key_location'') \<longrightarrow> dict_get a ''location'' = dict_get current ''api_key_location'')
         \<and> (truthy (dict_get current ''api_key_name'') \<longrightarrow> dict_get a ''name'' = dict_get current ''api_key_name'')"
    if "dict_get current ''auth_kind'' = JStr ''api_key''"
    using auth curated_auth_fields [OF that] that by fastforce
  show ?thesis
    using claim_address_ok [OF u] fields keys no key by (intro conjI impI allI) (simp_all split: if_splits)
qed

definition demo_version :: dict where
  "demo_version = [(''version'', JInt 2), (''transport'', JStr ''http''), (''upstream_kind'', JStr ''openapi''),
     (''auth_kind'', JStr ''api_key''), (''upstream_transport'', JStr ''http''), (''spec_path'', JStr ''/spec.json''),
     (''api_key_location'', JStr ''header''), (''api_key_name'', JStr ''X-API-Key''), (''host_source'', JStr ''provider_fixed''),
     (''fixed_base_url'', JStr ''http://dev'')]"

definition demo_claim :: dict where
  "demo_claim = [(''hostname'', JStr ''dev1''), (''auth'', JObj [(''name'', JStr ''Authorization''), (''value'', JStr ''k'')]),
     (''transport'', JStr ''stdio'')]"

lemma demo_claim_body:
  "claim_body demo_version demo_claim = Inr
     [(''hostname'', JStr ''dev1''), (''base_url'', JStr ''http://dev''), (''transport'', JStr ''http''),
      (''upstream_kind'', JStr ''openapi''), (''auth_type'', JStr ''api_key''), (''spec_url'', JStr ''http://dev/spec.json''),
      (''auth'', JObj [(''name'', JStr ''X-API-Key''), (''value'', JStr ''k''), (''location'', JStr ''header'')])]"
  by code_simp

theorem claim_curated_witness:
  "\<exists>m a. claim_body demo_version demo_claim = Inr m \<and> dict_get m ''base_url'' = JStr ''http://dev''
     \<and> dict_get m ''transport'' = JStr ''http'' \<and> \<not> dict_has m ''upstream_transport''
     \<and> dict_get m ''auth'' = JObj a \<and> dict_get a ''name'' = JStr ''X-API-Key''"
proof -
  have v: "dict_get demo_version ''host_source'' = JStr ''provider_fixed''"
    "dict_get demo_version ''fixed_base_url'' = JStr ''http://dev''" "dict_get demo_version ''transport'' = JStr ''http''"
    "dict_get demo_version ''upstream_kind'' \<noteq> JStr ''mcp''" "dict_get demo_version ''auth_kind'' = JStr ''api_key''"
    "dict_get demo_version ''api_key_name'' = JStr ''X-API-Key''"
    by (simp_all add: demo_version_def)
  obtain m where m: "claim_body demo_version demo_claim = Inr m" using demo_claim_body by blast
  have loc: "truthy (dict_get demo_version ''api_key_name'')" by (simp add: v(6))
  show ?thesis using claim_curated [OF m] m v loc by auto
qed

text \<open>The version that is claimed is a largest one.\<close>

lemma max_version_max:
  "max_version (JInt n, v) (map (\<lambda>(k, x). (JInt k, x)) xs) = Inr w \<Longrightarrow>
     \<exists>k. (k, w) \<in> set ((n, v) # xs) \<and> (\<forall>(j, x) \<in> set ((n, v) # xs). j \<le> k)"
proof (induction xs arbitrary: n v)
  case (Cons y ys)
  obtain k x where y: "y = (k, x)" by (cases y)
  let ?b = "if n < k then (k, x) else (n, v)"
  have "max_version (JInt (fst ?b), snd ?b) (map (\<lambda>(k, x). (JInt k, x)) ys) = Inr w"
    using Cons.prems y by (auto simp: json_greater_def bind_result_def split: if_splits)
  from Cons.IH [OF this] obtain m where m: "(m, w) \<in> set ((fst ?b, snd ?b) # ys)"
    "\<forall>(j, x) \<in> set ((fst ?b, snd ?b) # ys). j \<le> m" by blast
  then have "(m, w) \<in> set ((n, v) # y # ys)" using y by (auto split: if_splits)
  moreover have "\<forall>(j, x) \<in> set ((n, v) # y # ys). j \<le> m" using m(2) y by (auto split: if_splits)
  ultimately show ?case by blast
qed (simp add: json_greater_def)

section \<open>Monitoring\<close>

lemma any_session_admits: "refusal sess [any_session] = None \<Longrightarrow> sess \<noteq> None"
  by (auto simp: any_session_def split: option.splits)

text \<open>The log panel never asks the log store for more than a page: a call sends at most one
  request, only for a session, to the configured store and without any credential, and asks for between
  1 and 1000 entries, the number the caller gave when it is in that range.\<close>

theorem logs_bounded:
  assumes "logs E query limit minutes s = (r, s')" and "trace s' \<noteq> trace s"
  shows "\<exists>w n. trace s' = trace s @ [w] \<and> known_session E s \<noteq> None
    \<and> w_url w = join_url (loki_url (cfg E)) ''/loki/api/v1/query_range'' \<and> w_headers w = [] \<and> w_basic w = None
    \<and> map_of (w_form w) ''limit'' = Some (show_int n) \<and> 1 \<le> n \<and> n \<le> 1000 \<and> (1 \<le> limit \<and> limit \<le> 1000 \<longrightarrow> n = limit)"
proof -
  let ?now = "wall_clock E (ticks (loaded E s))"
  let ?w = "\<lparr>w_method = ''GET'', w_url = join_url (loki_url (cfg E)) ''/loki/api/v1/query_range'', w_headers = [],
     w_json = None, w_form = log_params query limit minutes ?now, w_basic = None\<rparr>"
  have adm: "refusal (known_session E s) [any_session] = None"
    using assms by (auto simp: logs_def depends_run loaded_fields split: option.splits)
  have "trace s' = trace s @ [?w]"
    using assms by (auto simp: logs_def depends_admits [OF adm] act_simps tick_def monitoring_get_def send_def loaded_fields
        split: if_splits sum.splits)
  moreover have "map_of (w_form ?w) ''limit'' = Some (show_int (max 1 (min limit max_log_limit)))"
    by (simp add: log_params_def Let_def)
  ultimately show ?thesis using any_session_admits [OF adm]
    by (intro exI [of _ ?w] exI [of _ "max 1 (min limit max_log_limit)"]) (simp add: max_log_limit_def)
qed

definition demo_oidc_session :: dict where
  "demo_oidc_session = [(''kind'', JStr ''oidc''), (''plane'', JStr ''tenant''), (''access_token'', JStr ''at'')]"

definition demo_oidc_world :: world where
  "demo_oidc_world = (demo_world [(''sid'', JStr ''s1'')] [])\<lparr>cached := Some (Some demo_oidc_session)\<rparr>"

definition demo_monitored :: env where
  "demo_monitored = (demo_env (answer 200 ''{}''))\<lparr>cfg := demo_settings\<lparr>loki_url := ''http://loki''\<rparr>\<rparr>"

theorem logs_bounded_witness:
  "length (trace (snd (logs demo_monitored ''q'' 5000 60 demo_oidc_world))) = 1"
proof -
  let ?r = "logs demo_monitored ''q'' 5000 60 demo_oidc_world"
  have "?r = (fst ?r, snd ?r)" by simp
  moreover have "trace (snd ?r) \<noteq> trace demo_oidc_world"
  proof -
    have k: "known_session demo_monitored demo_oidc_world = Some demo_oidc_session"
      by (subst known_session_cached [of _ "Some demo_oidc_session"])
        (simp_all add: demo_oidc_world_def session_of_def demo_oidc_session_def known_kinds_def)
    have adm: "refusal (known_session demo_monitored demo_oidc_world) [any_session] = None"
      by (simp add: k any_session_def demo_oidc_session_def session_plane_def get_or_def plane_provider_def plane_tenant_def)
    have "network demo_monitored = answer 200 ''{}''" "loki_url (cfg demo_monitored) \<noteq> []"
      by (simp_all add: demo_monitored_def demo_env_def)
    then show ?thesis
      by (simp add: logs_def depends_admits [OF adm] act_simps tick_def monitoring_get_def send_def loaded_fields answer_def)
  qed
  ultimately obtain w where "trace (snd ?r) = trace demo_oidc_world @ [w]" using logs_bounded by blast
  then show ?thesis by (simp add: demo_oidc_world_def demo_world_def)
qed

section \<open>Calling a tool\<close>

lemma mcp_run:
  assumes "relays_own E d s"
  shows "mcp E h payload sid s =
    ((case network E (trace s) (own_wire E d (rid s) ''POST'' (mcp_path h) (Some payload)
         ((''Accept'', mcp_accept) # (if sid = [] then []
            else [(mcp_session_header, sid), (''MCP-Protocol-Version'', mcp_protocol_version)]))) of
       Inl e \<Rightarrow> Inl (HTTPError e) | Inr r \<Rightarrow> Inr r),
     s\<lparr>trace := trace s @ [own_wire E d (rid s) ''POST'' (mcp_path h) (Some payload)
         ((''Accept'', mcp_accept) # (if sid = [] then []
            else [(mcp_session_header, sid), (''MCP-Protocol-Version'', mcp_protocol_version)]))]\<rparr>)"
  unfolding mcp_def by (rule own_relay_run [OF assms])

lemma mcp_close_run:
  assumes "relays_own E d s"
  shows "mcp_close E h sid s = (Inr (), s\<lparr>trace := trace s @
     [own_wire E d (rid s) ''DELETE'' (mcp_path h) None [(''Accept'', mcp_accept), (mcp_session_header, sid)]]\<rparr>)"
  by (simp add: mcp_close_def act_simps own_relay_run [OF assms] split: sum.split)

lemma closing_header:
  "header_values (w_headers (own_wire E d ctx ''DELETE'' (mcp_path h) None
      [(''Accept'', mcp_accept), (mcp_session_header, sid)])) mcp_session_header = [sid]"
proof -
  have apart: "\<not> same_header correlation_header mcp_session_header" "\<not> same_header ''Authorization'' mcp_session_header"
    "\<not> same_header ''Accept'' mcp_session_header" "same_header mcp_session_header mcp_session_header"
    "py_lower ''Accept'' \<noteq> ''authorization''" "py_lower mcp_session_header \<noteq> ''authorization''"
    by code_simp+
  then have "header_values (merged_headers [(''Accept'', mcp_accept), (mcp_session_header, sid)] b) mcp_session_header = [sid]" for b
    by (simp add: merged_headers_def auth_header_def)
  then show ?thesis by (simp add: own_wire_def gateway_wire_def stamp_values header_values_update apart)
qed

lemma invoke_in_session_trace:
  assumes "relays_own E d s"
  shows "\<exists>call. w_method call = ''POST'' \<and> w_json call = Some (call_payload tool args)
    \<and> trace (snd (invoke_in_session E q h tool args (c # cs) s)) = trace s @ [call,
        own_wire E d (rid s) ''DELETE'' (mcp_path h) None [(''Accept'', mcp_accept), (mcp_session_header, c # cs)]]"
proof -
  let ?call = "own_wire E d (rid s) ''POST'' (mcp_path h) (Some (call_payload tool args))
         [(''Accept'', mcp_accept), (mcp_session_header, c # cs), (''MCP-Protocol-Version'', mcp_protocol_version)]"
  have "relays_own E d (s\<lparr>trace := trace s @ [?call]\<rparr>)" by (rule relays_own_sent [OF assms])
  note close = mcp_close_run [OF this]
  show ?thesis
    by (intro exI [of _ ?call])
      (auto simp: invoke_in_session_def act_simps finally_do_def mcp_run [OF assms] close audited_trace own_wire_fields
        split: sum.split)
qed

text \<open>What follows an answered handshake.\<close>

lemma invoke_opened_trace:
  assumes own: "relays_own E d s"
  shows "if r_status r < 400 \<and> opt_text (header_get (r_headers r) mcp_session_header) '''' \<noteq> []
    then \<exists>call closing. trace (snd (invoke_opened E q h tool r s)) = trace s @ [call, closing]
       \<and> w_json call = Some (call_payload tool (invoke_arguments q))
       \<and> w_method closing = ''DELETE''
       \<and> w_url closing = join_url (gc_base_url (own_gateway E)) (with_prefix (own_gateway E) (mcp_path h))
       \<and> header_values (w_headers closing) mcp_session_header = [the (header_get (r_headers r) mcp_session_header)]
    else trace (snd (invoke_opened E q h tool r s)) = trace s"
proof (cases "400 \<le> r_status r \<or> opt_text (header_get (r_headers r) mcp_session_header) '''' = []")
  case True
  then show ?thesis
    by (auto simp: invoke_opened_def audited_trace act_simps opt_text_def split: option.split list.split)
next
  case False
  then obtain c cs where sid: "header_get (r_headers r) mcp_session_header = Some (c # cs)"
    by (auto simp: opt_text_def neq_Nil_conv split: option.splits list.splits)
  then have "invoke_opened E q h tool r s = invoke_in_session E q h tool (invoke_arguments q) (c # cs) s"
    using False by (simp add: invoke_opened_def)
  then show ?thesis
    using False sid invoke_in_session_trace [OF own, of tool "invoke_arguments q" q h c cs] closing_header
    by (auto simp: own_wire_fields)
qed


definition mcp_answers :: "wire list \<Rightarrow> wire \<Rightarrow> string + response" where
  "mcp_answers tr w = Inr \<lparr>r_status = 200, r_headers = [(''mcp-session-id'', ''sess'')], r_text = ''{}''\<rparr>"

lemma demo_oidc_known: "known_session E demo_oidc_world = Some demo_oidc_session"
  by (subst known_session_cached [of _ "Some demo_oidc_session"])
    (simp_all add: demo_oidc_world_def session_of_def demo_oidc_session_def known_kinds_def)

lemma demo_oidc_plane: "session_plane (Some demo_oidc_session) = plane_tenant"
  by (simp add: demo_oidc_session_def session_plane_def get_or_def plane_provider_def plane_tenant_def)

lemma demo_oidc_admitted:
  "refusal (known_session E demo_oidc_world) [admin_session] = None" "refusal (known_session E demo_oidc_world) backup_guards = None"
  by (simp_all add: demo_oidc_known demo_oidc_plane guard_defs plane_provider_def plane_tenant_def)
    (simp_all add: demo_oidc_session_def get_or_def)

definition demo_call :: http_request where
  "demo_call = \<lparr>q_client = Some ''10.0.0.1'', q_headers = [], q_body = None\<rparr>"


section \<open>Backup and restore\<close>

lemma save_session_run:
  "\<exists>s'. save_session E d s = (Inr (), s') \<and> cached s' = Some (Some d) \<and> cookie s' = cookie s \<and> trace s' = trace s
     \<and> draws s' = draws s"
proof -
  obtain r s' where r: "persist_session E d (s\<lparr>cached := Some (Some d)\<rparr>) = (r, s')"
    by (cases "persist_session E d (s\<lparr>cached := Some (Some d)\<rparr>)")
  then have "r = Inr () \<and> cached s' = Some (Some d) \<and> cookie s' = cookie s \<and> trace s' = trace s \<and> draws s' = draws s"
    by (auto simp: persist_session_def act_simps with_lock_def store_set_def tick_def cache_session_def
        split: option.splits prod.splits)
  then show ?thesis using r by (simp add: save_session_def act_simps cache_session_def)
qed

lemma record_request_known:
  assumes "cached s = Some (Some d)" and "dict_get d ''kind'' \<in> set known_kinds"
  shows "known_session E (snd (record_request E q a out t det s)) = Some d"
  using record_request_cached [OF assms(1)] known_session_cached assms(2) by (simp add: session_of_def)

lemma serve_download_run:
  assumes "serve_download E q d pending s = (Inr r, s')" and "dict_get d ''kind'' \<in> set known_kinds"
  shows "r = Download (attachment (dict_get pending ''filename'')) (py_str (dict_get pending ''body''))
    \<and> known_session E s' = Some (dict_pop pending_backup d)"
proof -
  obtain s1 where s1: "save_session E (dict_pop pending_backup d) s = (Inr (), s1)"
    "cached s1 = Some (Some (dict_pop pending_backup d))"
    using save_session_run by blast
  have kind: "dict_get (dict_pop pending_backup d) ''kind'' \<in> set known_kinds"
    using assms(2) by (simp add: dict_simps pending_backup_def)
  show ?thesis
    using assms(1) record_request_known [OF s1(2) kind]
    by (auto simp: serve_download_def act_simps s1(1) require_key_def dict_get_def split: option.splits)
qed

lemma nothing_pending:
  assumes "known_session E s = Some d" and "\<not> is_dict (dict_get d pending_backup)"
    and "refusal (known_session E s) [any_session, No_Break_Glass] = None"
  shows "fst (download_backup E q token s) = Inl no_such_download"
  using assms(2)
  by (auto simp: download_backup_def depends_admits [OF assms(3)] act_simps loaded_loaded assms(1) tick_def refuse_download_def
      split: json.split)

lemma popped_refusal:
  "refusal (Some (dict_pop pending_backup d)) [any_session, No_Break_Glass] = refusal (Some d) [any_session, No_Break_Glass]"
  by (simp add: any_session_def session_plane_def support_grant_credential_def get_or_def dict_simps pending_backup_def)

lemma staged_refusal:
  "refusal (Some (dict_set pending_backup v d)) [any_session, No_Break_Glass] = refusal (Some d) [any_session, No_Break_Glass]"
  by (simp add: any_session_def session_plane_def support_grant_credential_def get_or_def dict_simps pending_backup_def)



text \<open>The export's first leg.\<close>

lemma stage_backup_run:
  assumes "known_session E s = Some d"
  shows "\<exists>s' stamp now. stage_backup E q kind resp s =
      (let pending = pending_record kind (random_token E (draws s)) stamp (r_text resp) now in
       (Inr (Json_Body (JObj
          [(''download_token'', JStr (random_token E (draws s))), (''filename'', dict_get pending ''filename''),
           (''expires_at'', dict_get pending ''expires_at''),
           (''passphrase'', jopt (header_get (r_headers resp) ''X-Backup-Passphrase''))])), s'))
    \<and> cached s' = Some (Some (dict_set pending_backup (JObj (pending_record kind (random_token E (draws s)) stamp (r_text resp) now)) d))
    \<and> trace s' = trace s \<and> (\<exists>i. now = wall_clock E i)"
proof -
  let ?l = "loaded E s"
  let ?s1 = "?l\<lparr>draws := Suc (draws ?l), ticks := Suc (Suc (ticks ?l))\<rparr>"
  define pending where "pending = pending_record kind (random_token E (draws s)) (file_stamp E (ticks ?l)) (r_text resp)
     (wall_clock E (Suc (ticks ?l)))"
  obtain s2 where s2: "save_session E (dict_set pending_backup (JObj pending) d) ?s1 = (Inr (), s2)"
    "cached s2 = Some (Some (dict_set pending_backup (JObj pending) d))" "trace s2 = trace ?s1"
    using save_session_run by blast
  let ?rec = "record_request E q (export_action kind) (outcome_for (r_status resp)) (Some ''registry'') [(''staged'', JBool True)]"
  have "stage_backup E q kind resp s = (Inr (Json_Body (JObj
          [(''download_token'', JStr (random_token E (draws s))), (''filename'', dict_get pending ''filename''),
           (''expires_at'', dict_get pending ''expires_at''),
           (''passphrase'', jopt (header_get (r_headers resp) ''X-Backup-Passphrase''))])), snd (?rec s2))"
    using s2(1) by (simp add: stage_backup_def act_simps current_session_loaded assms draw_def tick_def loaded_fields Let_def pending_def)
  moreover have "trace (snd (?rec s2)) = trace s"
    using silent_record_request s2(3) by (simp add: stable_def silent_def loaded_fields)
  ultimately show ?thesis using record_request_cached [OF s2(2)]
    by (intro exI [of _ "snd (?rec s2)"] exI [of _ "file_stamp E (ticks ?l)"] exI [of _ "wall_clock E (Suc (ticks ?l))"])
      (auto simp: Let_def pending_def)
qed

lemma pending_record_fields:
  "dict_get (pending_record kind token stamp content now) ''token'' = JStr token"
  "dict_get (pending_record kind token stamp content now) ''body'' = JStr content"
  "dict_get (pending_record kind token stamp content now) ''expires_at'' = JFloat (now + pending_backup_ttl)"
  "dict_has (pending_record kind token stamp content now) k \<longleftrightarrow> k \<in> {''token'', ''kind'', ''filename'', ''body'', ''expires_at''}"
  by (auto simp: pending_record_def Let_def dict_has_def)

lemma dict_get_or_has: "dict_has d k \<Longrightarrow> dict_get_or d k v = dict_get d k"
  by (auto simp: dict_has_def dict_get_or_def dict_get_def)

lemma require_key_has: "dict_has d k \<Longrightarrow> require_key d k s = (Inr (dict_get d k), s)"
  by (auto simp: require_key_def dict_has_def dict_get_def act_simps)

lemma serve_download_returns:
  assumes "dict_has pending ''body''" and "dict_has pending ''filename''"
  shows "fst (serve_download E q d pending s) =
    Inr (Download (attachment (dict_get pending ''filename'')) (py_str (dict_get pending ''body'')))"
proof -
  obtain s1 where "save_session E (dict_pop pending_backup d) s = (Inr (), s1)" using save_session_run by blast
  then show ?thesis by (simp add: serve_download_def act_simps require_key_has assms)
qed

definition archive_ready :: "dict \<Rightarrow> string \<Rightarrow> time \<Rightarrow> bool" where
  "archive_ready pending token now \<longleftrightarrow> token \<noteq> [] \<and> is_ascii token \<and> dict_get pending ''token'' = JStr token
     \<and> dict_has pending ''body'' \<and> dict_has pending ''filename''
     \<and> (case dict_get pending ''expires_at'' of JFloat x \<Rightarrow> now < x | _ \<Rightarrow> False)"

lemma download_serves:
  assumes k: "known_session E s = Some d" and adm: "refusal (Some d) [any_session, No_Break_Glass] = None"
    and p: "dict_get d pending_backup = JObj pending" and ready: "archive_ready pending token (wall_clock E (ticks (loaded E s)))"
  shows "fst (download_backup E q token s) =
    Inr (Download (attachment (dict_get pending ''filename'')) (py_str (dict_get pending ''body'')))"
proof -
  let ?s1 = "(loaded E s)\<lparr>ticks := Suc (ticks (loaded E s))\<rparr>"
  obtain x where x: "dict_get pending ''expires_at'' = JFloat x" "wall_clock E (ticks (loaded E s)) < x"
    using ready by (auto simp: archive_ready_def split: json.splits)
  have has: "dict_has pending ''token''" "dict_has pending ''expires_at''"
    using ready x(1) by (auto simp: archive_ready_def dict_has_def dict_get_def split: option.splits)
  have adm': "refusal (known_session E s) [any_session, No_Break_Glass] = None" using adm k by simp
  have "download_backup E q token s = claim_download E q token (wall_clock E (ticks (loaded E s))) d pending ?s1"
    by (simp add: download_backup_def depends_admits [OF adm'] act_simps loaded_loaded k tick_def p)
  also have "\<dots> = serve_download E q d pending ?s1"
    using ready x by (simp add: claim_download_def act_simps lift_result_def dict_get_or_has has archive_ready_def
        compare_json_def compare_digest_def py_float_def)
  finally show ?thesis using serve_download_returns ready by (simp add: archive_ready_def)
qed


definition demo_pending :: dict where
  "demo_pending = [(''token'', JStr ''dl''), (''kind'', JStr ''portable''), (''filename'', JStr ''b.json''),
     (''body'', JStr ''sealed''), (''expires_at'', JFloat 120)]"

definition demo_staged_session :: dict where
  "demo_staged_session = dict_set pending_backup (JObj demo_pending) demo_oidc_session"

definition demo_staged_world :: world where
  "demo_staged_world = demo_oidc_world\<lparr>cached := Some (Some demo_staged_session)\<rparr>"

lemma demo_oidc_passes: "refusal (Some demo_oidc_session) [any_session, No_Break_Glass] = None"
  by (simp add: demo_oidc_plane any_session_def plane_provider_def plane_tenant_def)
    (simp add: demo_oidc_session_def get_or_def)

lemma demo_staged_known:
  "known_session E demo_staged_world = Some demo_staged_session" "loaded E demo_staged_world = demo_staged_world"
proof -
  have "cached demo_staged_world = Some (Some demo_staged_session)" by (simp add: demo_staged_world_def)
  from current_session_cached [OF this, of E]
  have "current_session E demo_staged_world = (Inr (Some demo_staged_session), demo_staged_world)"
    by (simp add: session_of_def demo_staged_session_def dict_simps pending_backup_def)
      (simp add: demo_oidc_session_def known_kinds_def)
  then show "known_session E demo_staged_world = Some demo_staged_session" "loaded E demo_staged_world = demo_staged_world"
    by (simp_all add: known_session_def loaded_def)
qed


definition demo_still_env :: env where
  "demo_still_env = (demo_env (answer 200 ''{}''))\<lparr>wall_clock := \<lambda>n. 0\<rparr>"





theorem api_refuses_witness:
  "let viewer = (demo_world [] [])\<lparr>cached := Some (Some [(''kind'', JStr ''password''), (''role'', JStr ''viewer'')])\<rparr>
   in refused_locally (demo_env (answer 200 ''{}'')) viewer (api (demo_env (answer 200 ''{}'')) demo_call Restore_Backup viewer)"
proof -
  let ?E = "demo_env (answer 200 ''{}'')"
  let ?s = "(demo_world [] [])\<lparr>cached := Some (Some [(''kind'', JStr ''password''), (''role'', JStr ''viewer'')])\<rparr>"
  have "known_session ?E ?s = Some [(''kind'', JStr ''password''), (''role'', JStr ''viewer'')]"
    by (subst known_session_cached [of _ "Some [(''kind'', JStr ''password''), (''role'', JStr ''viewer'')]"])
      (simp_all add: session_of_def known_kinds_def)
  then have "password_role (known_session ?E ?s) = Some (JStr ''viewer'')"
    by (simp add: password_role_def get_or_def session_plane_def plane_provider_def plane_tenant_def)
  then have "known_session ?E ?s = None \<or> (\<exists>r. password_role (known_session ?E ?s) = Some r
      \<and> (r \<noteq> JStr ''admin'' \<and> mutates Restore_Backup \<or> backup_call Restore_Backup))" by simp
  from api_refuses [OF this, of demo_call] show ?thesis by (simp add: Let_def)
qed

end
