(* ===== verification/Provider_Access.thy ===== *)
theory Provider_Access
  imports Provider Api_Access
begin

text \<open>
  What the provider routes guarantee, over every call of \<open>provider\<close>.
\<close>

section \<open>Who may call what\<close>

fun curates :: "provider_call \<Rightarrow> bool" where
  "curates List_Tenants = False"
| "curates (Raise_Support_Request b) = False"
| "curates (Poll_Support_Request i t) = False"
| "curates Current_Support_Grant = False"
| "curates Release_Support_Grant = False"
| "curates _ = True"

definition holds_scope :: "dict \<Rightarrow> string \<Rightarrow> bool" where
  "holds_scope d sc \<longleftrightarrow> JStr sc \<in> set (json_items (dict_get d ''provider_scopes''))"

lemmas provider_defs =
  list_tenants_def raise_support_request_def poll_support_request_def current_support_grant_def
  release_support_grant_def create_device_type_def add_device_type_version_def list_device_types_def
  get_device_type_def assign_device_type_def revoke_assignment_def tenant_assignments_def

lemma provider_guarded:
  obtains m where "provider E q c = depends E [if curates c then provider_admin else provider_read] m"
  by (cases c; simp only: provider.simps provider_defs with_session_def curates.simps if_True if_False)

text \<open>C8. No tenant session reaches the provider's routes: without a session they answer 401, a session
  of the tenant plane gets 403 whatever it holds, and so does a provider session without one of
  the two provider scopes, or without the admin scope where the catalog is curated. A refused call sends
  nothing and records nothing.\<close>

theorem provider_refuses:
  assumes "case known_session E s of
      None \<Rightarrow> True
    | Some d \<Rightarrow> dict_get d ''plane'' \<noteq> JStr plane_provider \<or> \<not> holds_scope d scope_provider_admin
        \<and> (curates c \<or> \<not> holds_scope d scope_provider_monitor)"
  shows "refused_locally E s (provider E q c s) \<and> trace (snd (provider E q c s)) = trace s
    \<and> audit (snd (provider E q c s)) = audit s \<and> sink (snd (provider E q c s)) = sink s"
proof -
  let ?g = "if curates c then provider_admin else provider_read"
  obtain m where m: "provider E q c = depends E [?g] m" by (rule provider_guarded)
  have "\<exists>e st why. refusal (known_session E s) [?g] = Some e \<and> e = HTTPException st why [] \<and> st \<in> {401, 403}"
    using assms
    by (cases "known_session E s")
      (auto simp: provider_admin_def provider_read_def holds_scope_def session_plane_def get_or_def plane_provider_def
        plane_tenant_def not_authenticated_def forbidden_def)
  then have "refused_locally E s (depends E [?g] m s)" using depends_refused by blast
  then show ?thesis unfolding m by (simp add: refused_locally_def loaded_fields)
qed

lemma with_session_run:
  assumes "known_session E s = Some d" and "refusal (Some d) [g] = None"
  shows "with_session E g m s = m d (loaded E s)"
proof -
  have "refusal (known_session E s) [g] = None" using assms by simp
  then show ?thesis by (simp add: with_session_def depends_admits act_simps loaded_loaded assms(1))
qed

section \<open>What a monitor may ask for\<close>

text \<open>C38. A monitor may only ask for reading scopes: a raise of a provider session without the admin
  scope that names any other scope is refused with 403 before the tenant is even looked up, and
  nothing leaves the console.\<close>

theorem monitor_raise_confined:
  assumes k: "known_session E s = Some d" and adm: "refusal (Some d) [provider_read] = None"
    and "\<not> holds_scope d scope_provider_admin" and "\<not> set (sb_requested_scopes b) \<subseteq> {''devices:read'', ''metrics:read''}"
  shows "\<exists>why s'. raise_support_request E q b s = (Inl (HTTPException 403 why []), s') \<and> trace s' = trace s
    \<and> directory s' = directory s \<and> pool s' = pool s"
proof -
  have "requestable_scopes_for (dict_get d ''provider_scopes'') = Some monitor_requestable_scopes"
    using assms(3) by (simp add: requestable_scopes_for_def holds_scope_def)
  moreover have "scopes_above (sb_requested_scopes b) monitor_requestable_scopes \<noteq> []"
  proof -
    obtain x where "x \<in> set (sb_requested_scopes b)" "x \<notin> {''devices:read'', ''metrics:read''}" using assms(4) by blast
    then have "x \<in> set (scopes_above (sb_requested_scopes b) monitor_requestable_scopes)"
      by (simp add: scopes_above_def monitor_requestable_scopes_def)
    then show ?thesis by force
  qed
  moreover have "directory (snd (record_request E q a out t det s1)) = directory s1 \<and> pool (snd (record_request E q a out t det s1)) = pool s1" for a out t det s1
    by (simp add: record_request_def act_simps current_session_loaded tick_def draw_def Let_def loaded_fields split: prod.split)
  moreover have "trace (snd (record_request E q a out t det s1)) = trace s1" for a out t det s1
    using silent_record_request by (simp add: stable_def silent_def)
  ultimately show ?thesis
    by (simp add: raise_support_request_def with_session_run [OF k adm] check_requested_def act_simps scopes_refused_def
        forbidden_def loaded_fields)
qed

section \<open>The support loop\<close>

text \<open>A tenant whose gateway client is in the pool.\<close>

definition pooled :: "world \<Rightarrow> string \<Rightarrow> gateway_client \<Rightarrow> bool" where
  "pooled s t gc \<longleftrightarrow> map_of (gp_clients (pool s)) t = Some gc \<and> (\<exists>e. directory_get (directory s) t = Inr e)"

lemma tenant_gateway_pooled: "pooled s t gc \<Longrightarrow> tenant_gateway E (JStr t) s = (Inr gc, s)"
  using pool_get_cached by (auto simp: pooled_def tenant_gateway_def act_simps)

lemma pooled_loaded: "pooled (loaded E s) t gc = pooled s t gc"
  by (simp add: pooled_def loaded_fields)

definition tenant_wire :: "gateway_client \<Rightarrow> string \<Rightarrow> string \<Rightarrow> string \<Rightarrow> json option \<Rightarrow> wire" where
  "tenant_wire gc ctx meth path body = stamp_correlation ctx (gateway_wire gc meth path body (merged_headers [] JNull))"

lemma tenant_wire_fields:
  "w_method (tenant_wire gc ctx meth path body) = meth" "w_json (tenant_wire gc ctx meth path body) = body"
  "w_url (tenant_wire gc ctx meth path body) = join_url (gc_base_url gc) (with_prefix gc path)"
  by (simp_all add: tenant_wire_def gateway_wire_def)

lemma call_tenant_run:
  "call_tenant E gc meth path tid body s =
     ((case network E (trace s) (tenant_wire gc (rid s) meth path body) of
         Inl why \<Rightarrow> Inl (unreachable_gateway tid why) | Inr r \<Rightarrow> Inr r),
      s\<lparr>trace := trace s @ [tenant_wire gc (rid s) meth path body]\<rparr>)"
  by (simp add: call_tenant_def gateway_request_def act_simps send_hooked_stamp send_def tenant_wire_def split: sum.split)

lemma loaded_cached:
  assumes "known_session E s = Some d"
  shows "cached (loaded E s) = Some (Some d)"
proof -
  obtain x s1 where "current_session E s = (Inr (known_session E s), s1)" "cached s1 = Some x" "session_of x = known_session E s"
    by (rule current_session_caches)
  then show ?thesis using assms by (auto simp: loaded_def session_of_def split: option.splits if_splits)
qed

lemma cached_known:
  "cached s = Some (Some d) \<Longrightarrow> dict_get d ''kind'' \<in> set known_kinds \<Longrightarrow>
     known_session E s = Some d \<and> current_session E s = (Inr (Some d), s)"
  using current_session_cached known_session_cached by (simp add: session_of_def)

lemma save_grant_known:
  assumes "dict_get d ''kind'' \<in> set known_kinds" and "k \<noteq> ''kind''"
  shows "\<exists>s'. save_session E (dict_set k v d) s = (Inr (), s') \<and> trace s' = trace s
      \<and> known_session E s' = Some (dict_set k v d) \<and> cached s' = Some (Some (dict_set k v d))"
    and "\<exists>s'. save_session E (dict_pop k d) s = (Inr (), s') \<and> trace s' = trace s
      \<and> known_session E s' = Some (dict_pop k d) \<and> cached s' = Some (Some (dict_pop k d))"
  using save_session_run [of E "dict_set k v d" s] save_session_run [of E "dict_pop k d" s] cached_known assms
  by (fastforce simp: dict_simps)+

text \<open>What a poll that returns has done.\<close>

lemma poll_outcome:
  assumes k: "known_session E s = Some d" and adm: "refusal (Some d) [provider_read] = None"
    and reach: "pooled s t gc" and run: "poll_support_request E i t s = (Inr r, s')"
  obtains resp b where "network E (trace s) (tenant_wire gc (rid s) ''GET'' (poll_path i (provider_subject d)) None) = Inr resp"
    and "r_status resp < 400" and "response_json resp = Some (JObj b)" and "r = Json_Body (JObj b)"
    and "trace s' = trace s @ [tenant_wire gc (rid s) ''GET'' (poll_path i (provider_subject d)) None]"
    and "known_session E s' = Some (if dict_get b ''status'' = JStr ''approved'' \<and> truthy (dict_get b ''credential'')
        then dict_set ''support_grant'' (delivered_grant t b) d else d)"
proof -
  let ?l = "loaded E s"
  let ?w = "tenant_wire gc (rid ?l) ''GET'' (poll_path i (provider_subject d)) None"
  let ?s1 = "?l\<lparr>trace := trace ?l @ [?w]\<rparr>"
  have kind: "dict_get d ''kind'' \<in> set known_kinds" by (rule known_session_kind [OF k])
  have reach': "pooled ?l t gc" using reach by (simp add: pooled_loaded)
  have c1: "cached ?s1 = Some (Some d)" using loaded_cached [OF k] by simp
  have go: "poll_support_request E i t s =
      andthen (call_tenant E gc ''GET'' (poll_path i (provider_subject d)) (JStr t) None) (\<lambda>resp.
         if 400 \<le> r_status resp then throw (HTTPException (r_status resp) (error_detail resp) [])
         else andthen (body_object resp) (\<lambda>v.
              andthen (lift_result (as_object v)) (\<lambda>b.
              andthen (keep_grant E t b) (\<lambda>_. ret (Json_Body v))))) ?l"
    by (simp add: poll_support_request_def with_session_run [OF k adm] run_andthen [of "tenant_gateway E (JStr t)"]
        tenant_gateway_pooled [OF reach'])
  obtain resp b where net: "network E (trace ?l) ?w = Inr resp" and st: "r_status resp < 400"
    and b: "response_json resp = Some (JObj b)" and kg: "andthen (keep_grant E t b) (\<lambda>_. ret (Json_Body (JObj b))) ?s1 = (Inr r, s')"
    using run by (auto simp: go run_andthen call_tenant_run body_object_def lift_result_def as_object_def run_ret run_throw
        split: sum.splits if_splits option.splits json.splits prod.splits)
  have "r = Json_Body (JObj b) \<and> trace s' = trace ?s1 \<and> known_session E s' =
      Some (if dict_get b ''status'' = JStr ''approved'' \<and> truthy (dict_get b ''credential'')
        then dict_set ''support_grant'' (delivered_grant t b) d else d)"
    using kg save_grant_known(1) [OF kind, of "''support_grant''" E "delivered_grant t b" ?s1] cached_known [OF c1 kind]
    by (auto simp: keep_grant_def act_simps split: if_splits)
  then show ?thesis using net st b by (intro that [of resp b]) (simp_all add: loaded_fields)
qed

text \<open>A poll asks the named tenant's gateway once, as the operator of the session; an answer that
  approves the request and carries a credential puts exactly that grant, for that tenant, on the
  session, and no other answer changes the session.\<close>

theorem poll_delivers:
  assumes k: "known_session E s = Some d" and adm: "refusal (Some d) [provider_read] = None"
    and reach: "pooled s t gc" and run: "poll_support_request E i t s = (Inr r, s')"
  shows "\<exists>w resp b. trace s' = trace s @ [w] \<and> network E (trace s) w = Inr resp \<and> r_status resp < 400
    \<and> w_url w = join_url (gc_base_url gc) (with_prefix gc (poll_path i (provider_subject d)))
    \<and> response_json resp = Some (JObj b) \<and> r = Json_Body (JObj b)
    \<and> known_session E s' = Some (if dict_get b ''status'' = JStr ''approved'' \<and> truthy (dict_get b ''credential'')
        then dict_set ''support_grant'' (delivered_grant t b) d else d)"
proof -
  let ?w = "tenant_wire gc (rid s) ''GET'' (poll_path i (provider_subject d)) None"
  obtain resp b where "network E (trace s) ?w = Inr resp" "r_status resp < 400" "response_json resp = Some (JObj b)"
    "r = Json_Body (JObj b)" "trace s' = trace s @ [?w]"
    "known_session E s' = Some (if dict_get b ''status'' = JStr ''approved'' \<and> truthy (dict_get b ''credential'')
        then dict_set ''support_grant'' (delivered_grant t b) d else d)"
    by (rule poll_outcome [OF assms])
  then show ?thesis by (intro exI [of _ ?w] exI [of _ resp] exI [of _ b]) (simp add: tenant_wire_fields)
qed

lemma poll_sends:
  assumes k: "known_session E s = Some d" and adm: "refusal (Some d) [provider_read] = None" and reach: "pooled s t gc"
  shows "trace (snd (poll_support_request E i t s)) =
    trace s @ [tenant_wire gc (rid s) ''GET'' (poll_path i (provider_subject d)) None]"
proof -
  have reach': "pooled (loaded E s) t gc" using reach by (simp add: pooled_loaded)
  have "stable silent (keep_grant E t b)" for b
  proof -
    have "stable silent (save_session E x)" for x
      unfolding save_session_def by (intro silent.stable_combinators stable_intros)
    then show ?thesis unfolding keep_grant_def
      by (auto intro!: silent.stable_combinators stable_intros split: option.split)
  qed
  then have quiet: "stable silent (if 400 \<le> r_status resp then throw (HTTPException (r_status resp) (error_detail resp) [])
         else andthen (body_object resp) (\<lambda>v.
              andthen (lift_result (as_object v)) (\<lambda>b.
              andthen (keep_grant E t b) (\<lambda>_. ret (Json_Body v)))))" for resp
    by (auto intro!: silent.stable_combinators simp: body_object_def lift_result_def split: option.split sum.split)
  show ?thesis
    using quiet
    by (simp add: poll_support_request_def with_session_run [OF k adm] run_andthen [of "tenant_gateway E (JStr t)"]
        tenant_gateway_pooled [OF reach'] run_andthen [of "call_tenant E gc m p x y" for m p x y] call_tenant_run stable_def silent_def loaded_fields
        split: sum.split)
qed

lemma lstrip_append: "x \<in> set a \<Longrightarrow> \<not> p x \<Longrightarrow> lstrip_by p (a @ b) = lstrip_by p a @ b"
  by (simp add: lstrip_by_def)

lemma join_url_extends:
  "CHR ''s'' \<in> set path \<Longrightarrow> join_url base (with_prefix gc (path @ extra)) = join_url base (with_prefix gc path) @ extra"
proof -
  assume s: "CHR ''s'' \<in> set path"
  have ne: "CHR ''s'' \<noteq> CHR ''/''" by simp
  have with_extra: "with_prefix gc (path @ extra) = with_prefix gc path @ extra"
    using lstrip_append [OF s, of "\<lambda>c. c = CHR ''/''"] by (simp add: with_prefix_def)
  have "CHR ''s'' \<in> set (lstrip_by (\<lambda>c. c = CHR ''/'') path)"
    using s by (induction path) (auto simp: lstrip_by_def)
  then have "CHR ''s'' \<in> set (with_prefix gc path)" by (simp add: with_prefix_def)
  from lstrip_append [OF this, of "\<lambda>c. c = CHR ''/''" extra]
  show ?thesis by (simp add: join_url_def with_extra)
qed

text \<open>Whose request is polled is up to the caller: a request id that carries a question mark, as a
  percent-encoded one does once the router has decoded it, reaches the wire unescaped, so the
  tenant's gateway is asked for the request of whichever operator the caller names there, and the
  session's own subject only follows as part of another parameter.\<close>

theorem poll_subject_injected:
  assumes "known_session E s = Some d" and "refusal (Some d) [provider_read] = None" and "pooled s t gc"
  shows "\<exists>w. trace (snd (poll_support_request E (i @ ''?provider_subject='' @ quote_all victim @ ''&x='') t s)) = trace s @ [w]
    \<and> w_url w = join_url (gc_base_url gc) (with_prefix gc (poll_path i victim))
        @ ''&x=?provider_subject='' @ quote_all (provider_subject d)"
proof -
  let ?tail = "''&x=?provider_subject='' @ quote_all (provider_subject d)"
  define j where "j = i @ ''?provider_subject='' @ quote_all victim @ ''&x=''"
  have path: "poll_path j (provider_subject d) = poll_path i victim @ ?tail" by (simp add: poll_path_def j_def)
  have "CHR ''s'' \<in> set (poll_path i victim)" by (simp add: poll_path_def)
  from join_url_extends [OF this, of "gc_base_url gc" gc ?tail] poll_sends [OF assms, of j]
  show ?thesis unfolding j_def [symmetric] path by (metis tenant_wire_fields(3))
qed

lemma revoke_grant_run:
  assumes "pooled s t gc" and "truthy gid" and "t \<noteq> []"
  shows "revoke_grant E gid (JStr t) s =
     ((case network E (trace s) (tenant_wire gc (rid s) ''DELETE'' (''/support-grants/'' @ py_str gid) None) of
         Inl why \<Rightarrow> Inl (unreachable_gateway (JStr t) why) | Inr r \<Rightarrow> Inr gid),
      s\<lparr>trace := trace s @ [tenant_wire gc (rid s) ''DELETE'' (''/support-grants/'' @ py_str gid) None]\<rparr>)"
  using assms by (simp add: revoke_grant_def run_andthen tenant_gateway_pooled call_tenant_run run_ret split: sum.split)

lemma forget_grant_run:
  assumes "cached s = Some (Some d)" and "dict_get d ''kind'' \<in> set known_kinds" and "dict_get d ''support_grant'' \<noteq> JNull"
  shows "\<exists>s'. forget_grant E s = (Inr (), s') \<and> trace s' = trace s \<and> cached s' = Some (Some (dict_pop ''support_grant'' d))"
  using save_grant_known(2) [OF assms(2), of "''support_grant''" E s] cached_known [OF assms(1,2), of E] assms(3)
  by (auto simp: forget_grant_def act_simps)

lemma release_run:
  assumes k: "known_session E s = Some d" and adm: "refusal (Some d) [provider_read] = None"
    and g: "dict_get d ''support_grant'' = JObj g" "dict_get g ''tenant_id'' = JStr t" "t \<noteq> []" "truthy (dict_get g ''grant_id'')"
    and reach: "pooled s t gc"
  shows "\<exists>r s'. release_support_grant E q s = (r, s')
    \<and> trace s' = trace s @ [tenant_wire gc (rid s) ''DELETE'' (''/support-grants/'' @ py_str (dict_get g ''grant_id'')) None]
    \<and> (case network E (trace s) (tenant_wire gc (rid s) ''DELETE'' (''/support-grants/'' @ py_str (dict_get g ''grant_id'')) None) of
         Inr resp \<Rightarrow> r = Inr (Json_Body (JObj [(''released'', dict_get g ''grant_id'')]))
           \<and> known_session E s' = Some (dict_pop ''support_grant'' d)
       | Inl why \<Rightarrow> r = Inl (unreachable_gateway (JStr t) why) \<and> known_session E s' = Some d)"
proof -
  let ?l = "loaded E s" and ?gid = "dict_get g ''grant_id''"
  let ?w = "tenant_wire gc (rid ?l) ''DELETE'' (''/support-grants/'' @ py_str ?gid) None"
  let ?s1 = "?l\<lparr>trace := trace ?l @ [?w]\<rparr>"
  have kind: "dict_get d ''kind'' \<in> set known_kinds" by (rule known_session_kind [OF k])
  have c1: "cached ?s1 = Some (Some d)" using loaded_cached [OF k] by simp
  have rev: "revoke_grant E ?gid (JStr t) ?l =
      ((case network E (trace s) ?w of Inl why \<Rightarrow> Inl (unreachable_gateway (JStr t) why) | Inr r \<Rightarrow> Inr ?gid), ?s1)"
    using revoke_grant_run [of ?l t gc ?gid E] reach g(3,4) by (simp add: pooled_loaded loaded_fields)
  obtain s2 where f: "forget_grant E ?s1 = (Inr (), s2)" "trace s2 = trace ?s1" "cached s2 = Some (Some (dict_pop ''support_grant'' d))"
    using forget_grant_run [OF c1 kind] g(1) by auto
  let ?rec = "record_request E q ''provider.support_grant.release'' outcome_success (Some (provider_subject d)) [(''grant_id'', ?gid)]"
  have "release_support_grant E q s =
      (case network E (trace s) ?w of
         Inl why \<Rightarrow> (Inl (unreachable_gateway (JStr t) why), ?s1)
       | Inr r \<Rightarrow> (Inr (Json_Body (JObj [(''released'', ?gid)])), snd (?rec s2)))"
    using f(1) g(4) by (simp add: release_support_grant_def with_session_run [OF k adm] grant_field_def g(1,2) act_simps rev split: sum.split)
  moreover have "trace (snd (?rec s2)) = trace s2" using silent_record_request by (simp add: stable_def silent_def)
  moreover have "known_session E (snd (?rec s2)) = Some (dict_pop ''support_grant'' d)"
    using f(3) kind by (intro record_request_known) (simp_all add: dict_simps)
  moreover have "known_session E ?s1 = Some d" using cached_known [OF c1 kind] by simp
  ultimately show ?thesis using f(2)
    by (cases "network E (trace s) ?w") (auto simp: loaded_fields)
qed

text \<open>A release drops the grant only when the tenant's gateway has answered, but whatever it
  answered: a refusal or an error status is reported to the operator as released like a success,
  and the session forgets the credential. When the gateway cannot be reached the release fails with
  503 and the session keeps its grant.\<close>

theorem release_ignores_refusal:
  assumes k: "known_session E s = Some d" and adm: "refusal (Some d) [provider_read] = None"
    and g: "dict_get d ''support_grant'' = JObj g" "dict_get g ''tenant_id'' = JStr t" "t \<noteq> []" "truthy (dict_get g ''grant_id'')"
    and reach: "pooled s t gc"
  shows "\<exists>w r s'. release_support_grant E q s = (r, s') \<and> trace s' = trace s @ [w] \<and> w_method w = ''DELETE''
    \<and> (case network E (trace s) w of
         Inr resp \<Rightarrow> r = Inr (Json_Body (JObj [(''released'', dict_get g ''grant_id'')]))
           \<and> known_session E s' = Some (dict_pop ''support_grant'' d)
       | Inl why \<Rightarrow> r = Inl (unreachable_gateway (JStr t) why) \<and> known_session E s' = Some d)"
  using release_run [OF assms, of q] by (metis (no_types, lifting) tenant_wire_fields(1))

lemma release_outcome:
  assumes "known_session E s = Some d" and "refusal (Some d) [provider_read] = None"
    and "dict_get d ''support_grant'' = JObj g" "dict_get g ''tenant_id'' = JStr t" "t \<noteq> []" "truthy (dict_get g ''grant_id'')"
    and "pooled s t gc" and "release_support_grant E q s = (Inr r, s')"
  obtains w where "trace s' = trace s @ [w]" and "w_method w = ''DELETE''"
    and "w_url w = join_url (gc_base_url gc) (with_prefix gc (''/support-grants/'' @ py_str (dict_get g ''grant_id'')))"
    and "known_session E s' = Some (dict_pop ''support_grant'' d)"
  using release_run [OF assms(1-7), of q] assms(8) by (auto simp: tenant_wire_fields split: sum.splits)

text \<open>What the browser is told of the grant does not depend on its credential: two sessions whose
  grants differ in nothing but the credential they hold get the same answer.\<close>

theorem grant_view_hides_credential:
  assumes "known_session E s = Some (dict_set ''support_grant'' (JObj (dict_set ''credential'' (JStr c) g)) d)"
    and "known_session E s' = Some (dict_set ''support_grant'' (JObj (dict_set ''credential'' (JStr c') g)) d)"
    and "c \<noteq> []" "c' \<noteq> []"
  shows "fst (current_support_grant E s) = fst (current_support_grant E s')"
proof -
  let ?d = "\<lambda>c. dict_set ''support_grant'' (JObj (dict_set ''credential'' (JStr c) g)) d"
  have view: "fst (current_support_grant E s) =
      (case refusal (Some (?d c)) [provider_read] of Some e \<Rightarrow> Inl e
       | None \<Rightarrow> Inr (Json_Body (JObj [(''held'', JBool True), (''grant_id'', dict_get g ''grant_id''), (''tenant_id'', dict_get g ''tenant_id'')])))"
    if "known_session E s = Some (?d c)" "c \<noteq> []" for c s
  proof (cases "refusal (Some (?d c)) [provider_read]")
    case None
    then show ?thesis using that(2) by (simp add: current_support_grant_def with_session_run [OF that(1) None] dict_simps act_simps)
  next
    case (Some e)
    then show ?thesis using that(1) by (simp add: current_support_grant_def with_session_def depends_run)
  qed
  have "refusal (Some (?d c)) [provider_read] = refusal (Some (?d c')) [provider_read]"
    by (simp add: provider_read_def session_plane_def get_or_def dict_simps)
  then show ?thesis using view [OF assms(1,3)] view [OF assms(2,4)] by simp
qed


section \<open>Concrete runs\<close>

definition demo_gateway :: gateway_client where
  "demo_gateway = new_gateway_client ''http://t1'' ''support-key'' ''/v1''"

definition demo_operator_world :: "dict \<Rightarrow> world" where
  "demo_operator_world d = demo_provider_world\<lparr>cached := Some (Some d),
     pool := \<lparr>gp_prefix = ''/v1'', gp_clients = [(''t1'', demo_gateway)]\<rparr>\<rparr>"

definition demo_monitor :: dict where
  "demo_monitor = [(''kind'', JStr ''oidc''), (''plane'', JStr ''provider''), (''sub'', JStr ''op''),
     (''provider_scopes'', JList [JStr ''provider:monitor''])]"

lemma demo_operator_known:
  "dict_get d ''kind'' = JStr ''oidc'' \<Longrightarrow> known_session E (demo_operator_world d) = Some d"
  by (rule conjunct1 [OF cached_known]) (simp_all add: demo_operator_world_def known_kinds_def)

lemma demo_operator_pooled: "pooled (demo_operator_world d) ''t1'' demo_gateway"
  by (simp add: pooled_def demo_operator_world_def demo_provider_world_def directory_get_def directory_entries_def)

lemma demo_operator_trace: "trace (demo_operator_world d) = []"
  by (simp add: demo_operator_world_def demo_provider_world_def demo_world_def)

lemma demo_monitor_admitted: "refusal (Some demo_monitor) [provider_read] = None"
  by (simp add: provider_read_def demo_monitor_def session_plane_def get_or_def plane_provider_def scope_provider_monitor_def)

lemma demo_grant_admitted: "refusal (Some demo_provider_session) [provider_read] = None"
  by (simp add: provider_read_def demo_provider_session_def session_plane_def get_or_def plane_provider_def scope_provider_admin_def)

theorem provider_refuses_witness:
  "trace (snd (provider (demo_env (answer 200 ''{}'')) demo_call Create_Device_Type (demo_operator_world demo_monitor))) = []"
proof -
  let ?E = "demo_env (answer 200 ''{}'')" and ?s = "demo_operator_world demo_monitor"
  have "known_session ?E ?s = Some demo_monitor" by (rule demo_operator_known) (simp add: demo_monitor_def)
  then have "case known_session ?E ?s of None \<Rightarrow> True
    | Some d \<Rightarrow> dict_get d ''plane'' \<noteq> JStr plane_provider \<or> \<not> holds_scope d scope_provider_admin
        \<and> (curates Create_Device_Type \<or> \<not> holds_scope d scope_provider_monitor)"
    by (simp add: holds_scope_def demo_monitor_def scope_provider_admin_def)
  from provider_refuses [OF this, of demo_call] show ?thesis by (simp add: demo_operator_trace)
qed

definition demo_raise :: support_body where
  "demo_raise = \<lparr>sb_tenant_id = ''t1'', sb_requested_scopes = [''devices:write''], sb_justification = ''why'', sb_public_key = None\<rparr>"

theorem monitor_raise_confined_witness:
  "\<exists>why s'. raise_support_request (demo_env (answer 200 ''{}'')) demo_call demo_raise (demo_operator_world demo_monitor)
     = (Inl (HTTPException 403 why []), s') \<and> trace s' = []"
proof -
  have k: "known_session (demo_env (answer 200 ''{}'')) (demo_operator_world demo_monitor) = Some demo_monitor"
    by (rule demo_operator_known) (simp add: demo_monitor_def)
  have "\<not> holds_scope demo_monitor scope_provider_admin"
    by (simp add: holds_scope_def demo_monitor_def scope_provider_admin_def)
  moreover have "\<not> set (sb_requested_scopes demo_raise) \<subseteq> {''devices:read'', ''metrics:read''}" by (simp add: demo_raise_def)
  ultimately show ?thesis
    using monitor_raise_confined [OF k demo_monitor_admitted, of demo_raise demo_call] by (fastforce simp: demo_operator_trace)
qed

definition demo_approval :: response where
  "demo_approval = \<lparr>r_status = 200, r_headers = [],
     r_text = json_dumps (JObj [(''status'', JStr ''approved''), (''grant_id'', JStr ''g1''), (''credential'', JStr ''c1'')])\<rparr>"

theorem poll_delivers_witness:
  "\<exists>r s'. poll_support_request (demo_env (\<lambda>tr w. Inr demo_approval)) ''req1'' ''t1'' (demo_operator_world demo_monitor) = (Inr r, s')
     \<and> support_grant_credential (known_session (demo_env (\<lambda>tr w. Inr demo_approval)) s') = Some ''c1''"
proof -
  let ?E = "demo_env (\<lambda>tr w. Inr demo_approval)" and ?s = "demo_operator_world demo_monitor"
  let ?run = "poll_support_request ?E ''req1'' ''t1'' ?s"
  have k: "known_session ?E ?s = Some demo_monitor" by (rule demo_operator_known) (simp add: demo_monitor_def)
  have "(case fst ?run of Inr r \<Rightarrow> True | Inl e \<Rightarrow> False)" by code_simp
  then obtain r where r: "?run = (Inr r, snd ?run)" by (cases ?run; cases "fst ?run") auto
  have body: "response_json demo_approval = Some (JObj [(''status'', JStr ''approved''), (''grant_id'', JStr ''g1''), (''credential'', JStr ''c1'')])"
    by code_simp
  have "network ?E tr w = Inr demo_approval" for tr w by (simp add: demo_env_def)
  then have "known_session ?E (snd ?run) = Some (dict_set ''support_grant''
      (delivered_grant ''t1'' [(''status'', JStr ''approved''), (''grant_id'', JStr ''g1''), (''credential'', JStr ''c1'')]) demo_monitor)"
    using poll_delivers [OF k demo_monitor_admitted demo_operator_pooled r] body by auto
  then have "support_grant_credential (known_session ?E (snd ?run)) = Some ''c1''"
    by (simp add: support_grant_credential_def get_or_def dict_simps delivered_grant_def)
  then show ?thesis using r by blast
qed

theorem poll_subject_injected_witness:
  "\<exists>w. trace (snd (poll_support_request (demo_env (answer 200 ''{}'')) ''r?provider_subject=eve&x='' ''t1'' (demo_operator_world demo_monitor))) = [w]
     \<and> w_url w = ''http://t1/v1/support-requests/r?provider_subject=eve&x=?provider_subject=op''"
proof -
  have k: "known_session (demo_env (answer 200 ''{}'')) (demo_operator_world demo_monitor) = Some demo_monitor"
    by (rule demo_operator_known) (simp add: demo_monitor_def)
  have q: "quote_all ''eve'' = ''eve''" "quote_all (provider_subject demo_monitor) = ''op''"
    "join_url (gc_base_url demo_gateway) (with_prefix demo_gateway (poll_path ''r'' ''eve''))
       = ''http://t1/v1/support-requests/r?provider_subject=eve''" by code_simp+
  show ?thesis
    using poll_subject_injected [OF k demo_monitor_admitted demo_operator_pooled, of "''r''" "''eve''"]
    by (simp add: q demo_operator_trace)
qed

theorem release_ignores_refusal_witness:
  "\<exists>s'. release_support_grant (demo_env (answer 403 ''{}'')) demo_call (demo_operator_world demo_provider_session)
      = (Inr (Json_Body (JObj [(''released'', JStr ''g'')])), s')
    \<and> support_grant_credential (known_session (demo_env (answer 403 ''{}'')) s') = None"
proof -
  let ?g = "[(''tenant_id'', JStr ''t1''), (''grant_id'', JStr ''g''), (''credential'', JStr ''cred'')]"
  have k: "known_session (demo_env (answer 403 ''{}'')) (demo_operator_world demo_provider_session) = Some demo_provider_session"
    by (rule demo_operator_known) (simp add: demo_provider_session_def)
  have g: "dict_get demo_provider_session ''support_grant'' = JObj ?g" "dict_get ?g ''tenant_id'' = JStr ''t1''" "''t1'' \<noteq> []"
    "truthy (dict_get ?g ''grant_id'')"
    by (simp_all add: demo_provider_session_def)
  have net: "network (demo_env (answer 403 ''{}'')) tr w = Inr \<lparr>r_status = 403, r_headers = [], r_text = ''{}''\<rparr>" for tr w
    by (simp add: demo_env_def answer_def)
  show ?thesis
    using release_ignores_refusal [OF k demo_grant_admitted g demo_operator_pooled, of demo_call]
    by (auto simp: net support_grant_credential_def get_or_def dict_simps)
qed

theorem grant_view_hides_credential_witness:
  "fst (current_support_grant (demo_env (answer 200 ''{}'')) (demo_operator_world (dict_set ''support_grant'' (JObj (dict_set ''credential'' (JStr ''a'') [])) demo_monitor)))
   = fst (current_support_grant (demo_env (answer 200 ''{}'')) (demo_operator_world (dict_set ''support_grant'' (JObj (dict_set ''credential'' (JStr ''b'') [])) demo_monitor)))"
  by (rule grant_view_hides_credential [where c = "''a''" and c' = "''b''" and g = "[]" and d = demo_monitor])
    (simp_all add: demo_operator_known dict_simps, simp_all add: demo_monitor_def demo_operator_known dict_simps)

end
