(* ===== verification/Request_Races.thy ===== *)
theory Request_Races
  imports Provider_Access
begin

text \<open>
  Two requests that overlap. A request works on the copy of the session it loaded when it began
  (\<open>load\<close> of \<open>app/sessions.py\<close>) and \<open>_persist_session\<close> of \<open>app/security.py\<close> writes that copy back; the
  lock it takes covers the write alone. \<open>resumed d s\<close> is a request that loaded \<open>d\<close> and goes on in a world \<open>s\<close>
  which others have changed since. With sessions in Redis every access to the store is such a
  point, a call of a gateway always is one.

  Results: whatever became of the session meanwhile, an export puts its own copy back; an archive is
  served to every download that loaded the session in time; and a client built from a credential
  that was fetched before a re-enrolment enters the pool after it and stays there.
\<close>

definition resumed :: "dict \<Rightarrow> world \<Rightarrow> world" where
  "resumed d s = s\<lparr>cached := Some (Some d)\<rparr>"

lemma resumed_known:
  assumes "dict_get d ''kind'' \<in> set known_kinds"
  shows "known_session E (resumed d s) = Some d" "loaded E (resumed d s) = resumed d s"
proof -
  have "cached (resumed d s) = Some (Some d)" by (simp add: resumed_def)
  from current_session_cached [OF this] have "current_session E (resumed d s) = (Inr (Some d), resumed d s)"
    using assms by (simp add: session_of_def)
  then show "known_session E (resumed d s) = Some d" "loaded E (resumed d s) = resumed d s"
    by (simp_all add: known_session_def loaded_def)
qed

section \<open>A session written back\<close>

text \<open>What the store holds for an id.\<close>

definition stored :: "world \<Rightarrow> string \<Rightarrow> dict option" where
  "stored s sid = map_option snd (map_of (mdata (store s)) sid)"

lemma save_session_stored:
  assumes "current_sid s = Some sid"
  shows "stored (snd (save_session E d s)) sid = Some d"
proof -
  have "current_sid (s\<lparr>cached := c\<rparr>) = Some sid" for c using assms by (simp add: current_sid_def)
  then show ?thesis
    by (simp add: save_session_def persist_session_def act_simps cache_session_def with_lock_def store_set_def tick_def
        stored_def mem_set_def mem_release_def Let_def update_conv split: prod.split)
qed

lemma record_request_stored:
  assumes "cached s = Some (Some d)"
  shows "stored (snd (record_request E q a out t det s)) = stored s"
  using record_request_cached [OF assms] by (simp add: stored_def fun_eq_iff)

text \<open>An export that is answered stores the session it began with and the archive. Whatever other requests
  did to the session while the gateway worked is undone: tokens they refreshed, with the old
  refresh token the identity provider no longer takes, a grant they received or gave up, the
  deletion by a logout.\<close>

theorem export_writes_back:
  assumes "dict_get d ''kind'' \<in> set known_kinds" and "current_sid s = Some sid"
  shows "\<exists>pending. stored (snd (stage_backup E q kind resp (resumed d s))) sid = Some (dict_set pending_backup pending d)"
proof -
  let ?s1 = "(resumed d s)\<lparr>draws := Suc (draws s), ticks := Suc (Suc (ticks s))\<rparr>"
  let ?p = "JObj (pending_record kind (random_token E (draws s)) (file_stamp E (ticks s)) (r_text resp) (wall_clock E (Suc (ticks s))))"
  let ?d = "dict_set pending_backup ?p d"
  obtain s2 where s2: "save_session E ?d ?s1 = (Inr (), s2)" "cached s2 = Some (Some ?d)"
    using save_session_run by blast
  have "current_sid ?s1 = Some sid" using assms(2) by (simp add: current_sid_def resumed_def)
  from save_session_stored [OF this, of E ?d] have st: "stored s2 sid = Some ?d" by (simp add: s2(1))
  have "current_session E (resumed d s) = (Inr (Some d), resumed d s)"
    using current_session_cached [of "resumed d s" "Some d" E] assms(1) by (simp add: resumed_def session_of_def)
  then have "snd (stage_backup E q kind resp (resumed d s)) =
      snd (record_request E q (export_action kind) (outcome_for (r_status resp)) (Some ''registry'') [(''staged'', JBool True)] s2)"
    using s2(1) by (simp add: stage_backup_def act_simps draw_def tick_def resumed_def Let_def split: prod.split sum.split)
  then show ?thesis using record_request_stored [OF s2(2)] st by auto
qed

corollary export_loses_refresh:
  assumes "dict_get d ''kind'' \<in> set known_kinds" and "current_sid s = Some sid"
    and "stored s sid = Some (store_tokens tokens d)"
  shows "\<exists>d'. stored (snd (stage_backup E q kind resp (resumed d s))) sid = Some d'
    \<and> dict_get d' ''access_token'' = dict_get d ''access_token'' \<and> dict_get d' ''refresh_token'' = dict_get d ''refresh_token''"
  using export_writes_back [OF assms(1,2), of E q kind resp] by (auto simp: dict_simps pending_backup_def)

section \<open>An archive served twice\<close>

text \<open>Two downloads that have both loaded the session before either claims the archive are both served.\<close>

theorem download_race:
  assumes kind: "dict_get d ''kind'' \<in> set known_kinds" and adm: "refusal (Some d) [any_session, No_Break_Glass] = None"
    and p: "dict_get d pending_backup = JObj pending"
    and first: "archive_ready pending token (wall_clock E (ticks s))"
    and s1: "s1 = snd (download_backup E q token (resumed d s))"
    and second: "archive_ready pending token (wall_clock E (ticks s1))"
  shows "fst (download_backup E q token (resumed d s)) = fst (download_backup E q' token (resumed d s1))
    \<and> fst (download_backup E q' token (resumed d s1)) =
        Inr (Download (attachment (dict_get pending ''filename'')) (py_str (dict_get pending ''body'')))"
proof -
  have "fst (download_backup E q token (resumed d s)) =
      Inr (Download (attachment (dict_get pending ''filename'')) (py_str (dict_get pending ''body'')))"
    if "archive_ready pending token (wall_clock E (ticks s))" for q s
  proof -
    have "ticks (loaded E (resumed d s)) = ticks s" by (subst resumed_known(2) [OF kind]) (simp add: resumed_def)
    then show ?thesis using that by (intro download_serves [OF resumed_known(1) [OF kind] adm p]) simp
  qed
  then show ?thesis using first second by simp
qed

section \<open>A client that comes late\<close>

text \<open>
  \<open>pool_get\<close> waits for the catalog's answer with no client in the pool. If a redemption drops the tenant's
  client in the meantime, the client built from the credential it replaced is added all the same, and
  every later contact gets it.
\<close>

theorem late_client_pinned:
  assumes "s1 = snd (pool_invalidate tid s)" and "s2 = snd (add_client tid old s1)"
    and "directory_get (directory s) tid = Inr e"
  shows "pool_get E tid s2 = (Inr old, s2)"
  using assms by (simp add: pool_invalidate_def add_client_def act_simps pool_get_def update_conv)

section \<open>At concrete inputs\<close>

theorem download_race_witness:
  "let E = demo_still_env; s = demo_staged_world; s1 = snd (download_backup E demo_call ''dl'' (resumed demo_staged_session s)) in
   fst (download_backup E demo_call ''dl'' (resumed demo_staged_session s1)) = Inr (Download (attachment (JStr ''b.json'')) ''sealed'')"
proof -
  have kind: "dict_get demo_staged_session ''kind'' \<in> set known_kinds"
    by (simp add: demo_staged_session_def dict_simps pending_backup_def) (simp add: demo_oidc_session_def known_kinds_def)
  have p: "dict_get demo_staged_session pending_backup = JObj demo_pending" by (simp add: demo_staged_session_def dict_simps)
  have adm: "refusal (Some demo_staged_session) [any_session, No_Break_Glass] = None"
    unfolding demo_staged_session_def staged_refusal by (rule demo_oidc_passes)
  have "archive_ready demo_pending ''dl'' (wall_clock demo_still_env n)" for n
    by (simp add: archive_ready_def demo_pending_def is_ascii_def dict_has_def demo_still_env_def)
  from download_race [OF kind adm p this refl this, where s = demo_staged_world and q = demo_call and q' = demo_call]
  show ?thesis by (simp add: Let_def demo_pending_def)
qed

theorem export_loses_refresh_witness:
  "let resp = \<lparr>r_status = 200, r_headers = [], r_text = ''sealed''\<rparr>; renewed = [(''access_token'', JStr ''new''), (''refresh_token'', JStr ''r2'')];
       s = snd (save_session demo_still_env (store_tokens renewed demo_oidc_session) demo_oidc_world) in
   \<exists>d'. stored (snd (stage_backup demo_still_env demo_call (JStr ''portable'') resp (resumed demo_oidc_session s))) ''s1'' = Some d'
     \<and> dict_get d' ''access_token'' = JStr ''at''"
proof -
  let ?renewed = "[(''access_token'', JStr ''new''), (''refresh_token'', JStr ''r2'')]"
  let ?s = "snd (save_session demo_still_env (store_tokens ?renewed demo_oidc_session) demo_oidc_world)"
  have sid: "current_sid demo_oidc_world = Some ''s1''"
    by (simp add: current_sid_def demo_oidc_world_def demo_world_def cookie_sid_key_def dict_get_def)
  obtain s' where s': "save_session demo_still_env (store_tokens ?renewed demo_oidc_session) demo_oidc_world = (Inr (), s')"
    "cookie s' = cookie demo_oidc_world"
    using save_session_run by blast
  have sid': "current_sid ?s = Some ''s1''" using sid s' by (simp add: current_sid_def)
  have kind: "dict_get demo_oidc_session ''kind'' \<in> set known_kinds" by (simp add: demo_oidc_session_def known_kinds_def)
  have "dict_get demo_oidc_session ''access_token'' = JStr ''at''" by (simp add: demo_oidc_session_def)
  then show ?thesis
    using export_loses_refresh [OF kind sid' save_session_stored [OF sid], of demo_still_env demo_call "JStr ''portable''"]
    by (auto simp: Let_def)
qed

end
