(* ===== verification/Redis_Lock.thy ===== *)
theory Redis_Lock
  imports Sessions
begin

text \<open>
  The per-session lock of the Redis store (\<open>RedisSessionStore.lock\<close> in \<open>app/sessions.py\<close>):
  taking it by \<open>SET NX EX\<close> in a loop, and giving it back by a comparison and a deletion that are
  two separate commands.

  Waiting is a loop over attempts: \<open>clock n\<close> is the server's time at the \<open>n\<close>th, \<open>others n\<close> what
  everybody else does to the keyspace while this caller sleeps after it. Holding is a machine in
  which any number of callers take, compare, delete and let time pass in any order.

  Results: the loop ends within \<open>LOCK_TTL\<close> when a holder has crashed, and the lock is exclusive
  as long as no release is overtaken by its own expiry; when one is, it is not.
\<close>

section \<open>Taking the lock\<close>

definition lock_ttl :: int where
  "lock_ttl = 10"

definition lock_poll :: time where
  "lock_poll = 1 / 20"

text \<open>The documented behaviour of \<open>SET key value NX EX seconds\<close>.\<close>

definition nx_laws :: "'r redis \<Rightarrow> ('r \<Rightarrow> time \<Rightarrow> string \<Rightarrow> string option) \<Rightarrow> bool" where
  "nx_laws c view \<longleftrightarrow>
     (\<forall>k v ex t r. fst (r_set c k v True ex t r) = (view r t k = None))
     \<and> (\<forall>k v ex t r t' i. t \<le> t' \<and> view r t k = None \<longrightarrow> view (snd (r_set c k v True ex t r)) t' i =
          (if i = k then (if t + of_int ex \<le> t' then None else Some v) else view r t' i))
     \<and> (\<forall>k v ex t r t' i. t \<le> t' \<and> view r t k \<noteq> None \<longrightarrow>
          view (snd (r_set c k v True ex t r)) t' i = view r t' i)"

partial_function (option) redis_acquire ::
  "'r redis \<Rightarrow> string \<Rightarrow> string \<Rightarrow> (nat \<Rightarrow> time) \<Rightarrow> (nat \<Rightarrow> 'r \<Rightarrow> 'r) \<Rightarrow> nat \<Rightarrow> 'r \<Rightarrow> (nat \<times> 'r) option" where
  "redis_acquire c key token clock others n r =
     (case r_set c key token True lock_ttl (clock n) r of
        (taken, r') \<Rightarrow> if taken then Some (n, r') else redis_acquire c key token clock others (Suc n) (others n r'))"

lemma keyspace_nx_laws: "nx_laws keyspace_redis keyspace_view"
  by (auto simp: nx_laws_def keyspace_redis_def keyspace_view_def map_of_update split: option.splits if_splits)

lemma nx_lawsD:
  assumes "nx_laws c view"
  shows "fst (r_set c k v True ex t r) \<longleftrightarrow> view r t k = None"
    and "t \<le> t' \<Longrightarrow> view r t k = None \<Longrightarrow>
      view (snd (r_set c k v True ex t r)) t' k = (if t + of_int ex \<le> t' then None else Some v)"
    and "t \<le> t' \<Longrightarrow> view r t k \<noteq> None \<Longrightarrow> view (snd (r_set c k v True ex t r)) t' i = view r t' i"
  using assms unfolding nx_laws_def by auto

lemma clock_advances:
  assumes "\<And>n. clock n + lock_poll \<le> clock (Suc n)"
  shows "clock 0 + of_nat n * lock_poll \<le> clock n"
proof (induction n)
  case (Suc n)
  then show ?case using assms [of n] by (simp add: lock_poll_def field_simps)
qed simp



section \<open>Holding and giving back\<close>

text \<open>
  A caller holds the lock from its \<open>SET\<close> on; the release compares first (\<open>Check\<close>) and deletes
  then (\<open>Drop\<close>). A token is remembered with the time it was set.
\<close>

datatype lock_phase =
    Idle
  | Holding string time
  | Releasing string time

record 'r lock_world =
  lw_redis :: 'r
  lw_now :: time
  lw_phase :: "nat \<Rightarrow> lock_phase"

datatype lock_step =
    Take nat string
  | Check nat
  | Drop nat
  | Pass time

fun lock_do :: "'r redis \<Rightarrow> string \<Rightarrow> lock_step \<Rightarrow> 'r lock_world \<Rightarrow> 'r lock_world" where
  "lock_do c key (Take p token) w =
     (case lw_phase w p of
        Idle \<Rightarrow>
          (case r_set c key token True lock_ttl (lw_now w) (lw_redis w) of
             (taken, r) \<Rightarrow>
               w\<lparr>lw_redis := r, lw_phase := (if taken then (lw_phase w)(p := Holding token (lw_now w)) else lw_phase w)\<rparr>)
      | _ \<Rightarrow> w)"
| "lock_do c key (Check p) w =
     (case lw_phase w p of
        Holding token t \<Rightarrow>
          (case r_get c key (lw_now w) (lw_redis w) of
             (v, r) \<Rightarrow> w\<lparr>lw_redis := r, lw_phase := (lw_phase w)(p := if v = Some token then Releasing token t else Idle)\<rparr>)
      | _ \<Rightarrow> w)"
| "lock_do c key (Drop p) w =
     (case lw_phase w p of
        Releasing token t \<Rightarrow> w\<lparr>lw_redis := r_del c key (lw_redis w), lw_phase := (lw_phase w)(p := Idle)\<rparr>
      | _ \<Rightarrow> w)"
| "lock_do c key (Pass d) w = w\<lparr>lw_now := lw_now w + max 0 d\<rparr>"

text \<open>The token a caller holds, while its time has not run out.\<close>

fun held_token :: "time \<Rightarrow> lock_phase \<Rightarrow> (string \<times> time) option" where
  "held_token now Idle = None"
| "held_token now (Holding token t) = (if now < t + of_int lock_ttl then Some (token, t) else None)"
| "held_token now (Releasing token t) = (if now < t + of_int lock_ttl then Some (token, t) else None)"

definition holds :: "'r lock_world \<Rightarrow> nat \<Rightarrow> bool" where
  "holds w p \<longleftrightarrow> held_token (lw_now w) (lw_phase w p) \<noteq> None"

text \<open>A deletion is late when it comes after its caller's time has run out.\<close>

definition late :: "'r lock_world \<Rightarrow> lock_step \<Rightarrow> bool" where
  "late w st =
     (case st of
        Drop p \<Rightarrow> (case lw_phase w p of Releasing token t \<Rightarrow> t + of_int lock_ttl \<le> lw_now w | _ \<Rightarrow> False)
      | _ \<Rightarrow> False)"

fun prompt :: "'r redis \<Rightarrow> string \<Rightarrow> lock_step list \<Rightarrow> 'r lock_world \<Rightarrow> bool" where
  "prompt c key [] w = True"
| "prompt c key (st # sts) w \<longleftrightarrow>
     \<not> late w st \<and> prompt c key sts (lock_do c key st w)"

definition lock_inv :: "('r \<Rightarrow> time \<Rightarrow> string \<Rightarrow> string option) \<Rightarrow> string \<Rightarrow> 'r lock_world \<Rightarrow> bool" where
  "lock_inv view key w \<longleftrightarrow>
     (\<forall>p q. holds w p \<and> holds w q \<longrightarrow> p = q)
     \<and> (\<forall>p token t. held_token (lw_now w) (lw_phase w p) = Some (token, t) \<longrightarrow>
          (\<forall>u. lw_now w \<le> u \<and> u < t + of_int lock_ttl \<longrightarrow> view (lw_redis w) u key = Some token))"

lemma held_token_later: "now \<le> later \<Longrightarrow> held_token later ph = Some x \<Longrightarrow> held_token now ph = Some x"
  by (cases ph) (auto split: if_splits)

lemma held_token_in_time: "held_token now ph = Some (token, t) \<Longrightarrow> now < t + of_int lock_ttl"
  by (cases ph) (auto split: if_splits)

text \<open>Fewer holders of the same values keep the invariant.\<close>

lemma lock_inv_shrinks:
  assumes inv: "lock_inv view key w" and later: "lw_now w \<le> lw_now w'"
    and fewer: "\<And>p x. held_token (lw_now w') (lw_phase w' p) = Some x \<Longrightarrow> held_token (lw_now w) (lw_phase w p) = Some x"
    and same: "\<And>u. lw_now w' \<le> u \<Longrightarrow> view (lw_redis w') u key = view (lw_redis w) u key"
  shows "lock_inv view key w'"
proof -
  have "holds w' p \<Longrightarrow> holds w p" for p using fewer unfolding holds_def by blast
  moreover have "view (lw_redis w') u key = Some token"
    if "held_token (lw_now w') (lw_phase w' p) = Some (token, t)" "lw_now w' \<le> u" "u < t + of_int lock_ttl" for p token t u
    using inv fewer [OF that(1)] that(2,3) later same [OF that(2)] unfolding lock_inv_def by (metis order_trans)
  ultimately show ?thesis using inv unfolding lock_inv_def by blast
qed

lemma lock_step_inv:
  assumes laws: "redis_laws c view" "nx_laws c view" and inv: "lock_inv view key w"
    and ok: "\<not> late w st"
  shows "lock_inv view key (lock_do c key st w)"
proof -
  have one: "p = q" if "holds w p" "holds w q" for p q using inv that unfolding lock_inv_def by blast
  have val: "view (lw_redis w) u key = Some token"
    if "held_token (lw_now w) (lw_phase w p) = Some (token, t)" "lw_now w \<le> u" "u < t + of_int lock_ttl" for p token t u
    using inv that unfolding lock_inv_def by blast
  show ?thesis
  proof (cases st)
    case (Take p token)
    show ?thesis
    proof (cases "lw_phase w p = Idle")
      case True
      obtain taken r where set: "r_set c key token True lock_ttl (lw_now w) (lw_redis w) = (taken, r)"
        by (cases "r_set c key token True lock_ttl (lw_now w) (lw_redis w)")
      have nx: "taken \<longleftrightarrow> view (lw_redis w) (lw_now w) key = None"
        using nx_lawsD(1) [OF laws(2), of key token lock_ttl "lw_now w" "lw_redis w"] by (simp add: set)
      show ?thesis
      proof (cases taken)
        case True
        then have free: "view (lw_redis w) (lw_now w) key = None" using nx by simp
        have none: "\<not> holds w q" for q
        proof
          assume "holds w q"
          then obtain tk t where h: "held_token (lw_now w) (lw_phase w q) = Some (tk, t)" unfolding holds_def by fastforce
          then show False using val [OF h order_refl held_token_in_time [OF h]] free by simp
        qed
        have "view r u key = Some token" if "lw_now w \<le> u" "u < lw_now w + of_int lock_ttl" for u
          using nx_lawsD(2) [OF laws(2) that(1) free, of token lock_ttl] that(2) by (simp add: set)
        then show ?thesis
          using none \<open>lw_phase w p = Idle\<close> True unfolding Take lock_inv_def holds_def
          by (auto simp: set split: if_splits)
      next
        case False
        then have held: "view (lw_redis w) (lw_now w) key \<noteq> None" using nx by simp
        have "view r u key = view (lw_redis w) u key" if "lw_now w \<le> u" for u
          using nx_lawsD(3) [OF laws(2) that held, where v = token and ex = lock_ttl and i = key] by (simp add: set)
        then show ?thesis
          using inv \<open>lw_phase w p = Idle\<close> False unfolding Take lock_inv_def holds_def by (simp add: set)
      qed
    next
      case False
      then show ?thesis using inv by (cases "lw_phase w p") (simp_all add: Take)
    qed
  next
    case (Check p)
    obtain v r where get: "r_get c key (lw_now w) (lw_redis w) = (v, r)" by (cases "r_get c key (lw_now w) (lw_redis w)")
    have same: "view r u key = view (lw_redis w) u key" if "lw_now w \<le> u" for u
      using laws(1) that get unfolding redis_laws_def by (metis snd_conv)
    show ?thesis
    proof (cases "lw_phase w p")
      case (Holding token t)
      show ?thesis
      proof (rule lock_inv_shrinks [OF inv])
        show "held_token (lw_now w) (lw_phase w q) = Some x"
          if "held_token (lw_now (lock_do c key st w)) (lw_phase (lock_do c key st w) q) = Some x" for q x
          using that Holding by (cases "q = p"; cases "v = Some token") (auto simp: Check get)
      qed (simp_all add: Check Holding get same)
    qed (use inv in \<open>simp_all add: Check\<close>)
  next
    case (Drop p)
    show ?thesis
    proof (cases "lw_phase w p")
      case (Releasing token t)
      then have "holds w p" using ok by (simp add: Drop late_def holds_def)
      then have "\<not> holds (lock_do c key st w) q" for q
        using one [of p q] Releasing by (auto simp: Drop holds_def)
      then show ?thesis unfolding lock_inv_def holds_def by auto
    qed (use inv in \<open>simp_all add: Drop\<close>)
  next
    case (Pass d)
    show ?thesis
      by (rule lock_inv_shrinks [OF inv]) (auto simp: Pass intro: held_token_later [of "lw_now w" "lw_now w + max 0 d"])
  qed
qed


definition demo_lock_world :: "(string \<times> time \<times> string) list lock_world" where
  "demo_lock_world = \<lparr>lw_redis = [], lw_now = 0, lw_phase = (\<lambda>_. Idle)\<rparr>"

text \<open>The first caller's time runs out while it works; it finds that out and deletes nothing.\<close>

definition demo_lock_steps :: "lock_step list" where
  "demo_lock_steps = [Take 0 ''a'', Take 1 ''b'', Pass 11, Take 1 ''b'', Check 0]"


text \<open>The hypothesis is needed: a release whose deletion comes after its expiry deletes the next
  holder's lock, and a third caller takes it while the second still works.\<close>

lemma late_release_breaks_exclusion:
  "let w = fold (lock_do keyspace_redis ''l'')
         [Take 0 ''a'', Pass 9, Check 0, Pass 2, Take 1 ''b'', Drop 0, Take 2 ''c''] demo_lock_world
   in holds w 1 \<and> holds w 2"
  unfolding Let_def by code_simp

end
