(* ===== verification/Support.thy ===== *)
theory Support
  imports Api_Access
begin

text \<open>
  The tenant's side of support access and enrolment (\<open>app/routers/support.py\<close>). Every route needs an
  admin session and relays one request to the own gateway; the reads are not recorded.
\<close>

definition list_support_requests :: "env \<Rightarrow> (world, reply) act" where
  "list_support_requests E = depends E [admin_session] (read_route E ''/support-requests'')"

definition approve_support_request :: "env \<Rightarrow> http_request \<Rightarrow> string \<Rightarrow> (world, reply) act" where
  "approve_support_request E q request_id =
     depends E [admin_session] (
       write_route E q ''POST'' (''/support-requests/'' @ request_id @ ''/approve'') (opt_json (optional_body q))
         ''tenant.support_request.approve'' (Some request_id))"

definition reject_support_request :: "env \<Rightarrow> http_request \<Rightarrow> string \<Rightarrow> (world, reply) act" where
  "reject_support_request E q request_id =
     depends E [admin_session] (
       write_route E q ''POST'' (''/support-requests/'' @ request_id @ ''/reject'') None
         ''tenant.support_request.reject'' (Some request_id))"

definition list_support_grants :: "env \<Rightarrow> (world, reply) act" where
  "list_support_grants E = depends E [admin_session] (read_route E ''/support-grants'')"

definition revoke_support_grant :: "env \<Rightarrow> http_request \<Rightarrow> string \<Rightarrow> (world, reply) act" where
  "revoke_support_grant E q grant_id =
     depends E [admin_session] (
       write_route E q ''DELETE'' (''/support-grants/'' @ grant_id) None ''tenant.support_grant.revoke'' (Some grant_id))"

definition get_standing_consent :: "env \<Rightarrow> (world, reply) act" where
  "get_standing_consent E = depends E [admin_session] (read_route E ''/support-requests/standing-consent'')"

definition enable_standing_consent :: "env \<Rightarrow> http_request \<Rightarrow> (world, reply) act" where
  "enable_standing_consent E q =
     depends E [admin_session] (
       andthen (request_json q) (\<lambda>body.
         write_route E q ''POST'' ''/support-requests/standing-consent'' (opt_json body)
           ''tenant.support_standing_consent.enable'' None))"

definition disable_standing_consent :: "env \<Rightarrow> http_request \<Rightarrow> (world, reply) act" where
  "disable_standing_consent E q =
     depends E [admin_session] (
       write_route E q ''DELETE'' ''/support-requests/standing-consent'' None
         ''tenant.support_standing_consent.disable'' None)"

definition list_notifications :: "env \<Rightarrow> (world, reply) act" where
  "list_notifications E = depends E [admin_session] (read_route E ''/notifications'')"

text \<open>An empty text as the target is none.\<close>

definition nonempty :: "string \<Rightarrow> string option" where
  "nonempty t = (if t = [] then None else Some t)"

text \<open>A body that is not an object fails only after the gateway has been asked.\<close>

definition create_enrolment_invitation :: "env \<Rightarrow> http_request \<Rightarrow> (world, reply) act" where
  "create_enrolment_invitation E q =
     depends E [admin_session] (
       let body = py_or (optional_body q) (JObj []) in
       andthen (relay_request E ''POST'' ''/enrolment-invitations'' (Some body) []) (\<lambda>resp.
       andthen (lift_result (as_object body)) (\<lambda>d.
         audited E q resp ''tenant.enrolment_invitation.create''
           (nonempty (py_str (dict_get_or d ''provider_label'' (JStr '''')))))))"

definition list_enrolment_invitations :: "env \<Rightarrow> (world, reply) act" where
  "list_enrolment_invitations E = depends E [admin_session] (read_route E ''/enrolment-invitations'')"

definition revoke_enrolment_invitation :: "env \<Rightarrow> http_request \<Rightarrow> string \<Rightarrow> (world, reply) act" where
  "revoke_enrolment_invitation E q code_hash =
     depends E [admin_session] (
       write_route E q ''DELETE'' (''/enrolment-invitations/'' @ code_hash) None
         ''tenant.enrolment_invitation.revoke'' (Some code_hash))"

definition list_enrolments :: "env \<Rightarrow> (world, reply) act" where
  "list_enrolments E = depends E [admin_session] (read_route E ''/enrolments'')"

definition revoke_enrolment :: "env \<Rightarrow> http_request \<Rightarrow> string \<Rightarrow> (world, reply) act" where
  "revoke_enrolment E q enrolment_id =
     depends E [admin_session] (
       write_route E q ''DELETE'' (''/enrolments/'' @ enrolment_id) None ''tenant.enrolment.revoke'' (Some enrolment_id))"

definition this_tenant :: "env \<Rightarrow> (world, reply) act" where
  "this_tenant E =
     depends E [admin_session] (ret (Json_Body (JObj
       [(''tenant_id'', JStr (tenant_id (cfg E))), (''public_gateway_url'', JStr (public_gateway_url (cfg E)))])))"

section \<open>Dispatch\<close>

datatype support_call =
    List_Support_Requests
  | Approve_Support_Request string
  | Reject_Support_Request string
  | List_Support_Grants
  | Revoke_Support_Grant string
  | Get_Standing_Consent
  | Enable_Standing_Consent
  | Disable_Standing_Consent
  | List_Notifications
  | Create_Enrolment_Invitation
  | List_Enrolment_Invitations
  | Revoke_Enrolment_Invitation string
  | List_Enrolments
  | Revoke_Enrolment string
  | This_Tenant

fun support :: "env \<Rightarrow> http_request \<Rightarrow> support_call \<Rightarrow> (world, reply) act" where
  "support E q List_Support_Requests = list_support_requests E"
| "support E q (Approve_Support_Request i) = approve_support_request E q i"
| "support E q (Reject_Support_Request i) = reject_support_request E q i"
| "support E q List_Support_Grants = list_support_grants E"
| "support E q (Revoke_Support_Grant i) = revoke_support_grant E q i"
| "support E q Get_Standing_Consent = get_standing_consent E"
| "support E q Enable_Standing_Consent = enable_standing_consent E q"
| "support E q Disable_Standing_Consent = disable_standing_consent E q"
| "support E q List_Notifications = list_notifications E"
| "support E q Create_Enrolment_Invitation = create_enrolment_invitation E q"
| "support E q List_Enrolment_Invitations = list_enrolment_invitations E"
| "support E q (Revoke_Enrolment_Invitation h) = revoke_enrolment_invitation E q h"
| "support E q List_Enrolments = list_enrolments E"
| "support E q (Revoke_Enrolment i) = revoke_enrolment E q i"
| "support E q This_Tenant = this_tenant E"

lemmas support_defs =
  list_support_requests_def approve_support_request_def reject_support_request_def list_support_grants_def
  revoke_support_grant_def get_standing_consent_def enable_standing_consent_def disable_standing_consent_def
  list_notifications_def create_enrolment_invitation_def list_enrolment_invitations_def
  revoke_enrolment_invitation_def list_enrolments_def revoke_enrolment_def this_tenant_def

lemma support_guarded:
  obtains m where "support E q c = depends E [admin_session] m"
  by (cases c; simp only: support.simps support_defs)

text \<open>Every support route is the admin's: without a session it answers 401, and a password session
  of any other role gets 403, with nothing sent and nothing recorded.\<close>

theorem support_refuses:
  assumes "known_session E s = None
    \<or> (\<exists>r. password_role (known_session E s) = Some r \<and> r \<noteq> JStr ''admin'')"
  shows "refused_locally E s (support E q c s) \<and> trace (snd (support E q c s)) = trace s
    \<and> audit (snd (support E q c s)) = audit s \<and> sink (snd (support E q c s)) = sink s"
proof -
  obtain m where m: "support E q c = depends E [admin_session] m" by (rule support_guarded)
  have "refused_locally E s (depends E [admin_session] m s)"
    using assms refuses_strangers [of E s "[admin_session]" m] refuses_viewers [of E s _ "[admin_session]" m] by auto
  then show ?thesis unfolding m by (simp add: refused_locally_def loaded_fields)
qed

theorem support_refuses_witness:
  "trace (snd (support (demo_env (answer 200 ''{}'')) demo_call This_Tenant (demo_world [] []))) = []"
proof -
  have "known_session (demo_env (answer 200 ''{}'')) (demo_world [] []) = None" by code_simp
  from support_refuses [OF disjI1 [OF this], of demo_call This_Tenant]
  have "trace (snd (support (demo_env (answer 200 ''{}'')) demo_call This_Tenant (demo_world [] []))) = trace (demo_world [] [])"
    by blast
  then show ?thesis by (simp add: demo_world_def)
qed

end
