(* ===== verification/Enrolment.thy ===== *)
theory Enrolment
  imports Provider
begin

text \<open>
  Redeeming a tenant's invitation on the provider console (\<open>app/routers/enrolment.py\<close>): the tenant
  is recorded in the catalog with a new credential, the invitation is redeemed at the tenant's
  gateway, the gateway's report is compared with the tenant the credential was made for, and
  the credential it returned is recorded.

  What a redemption guarantees is in \<open>Enrolment_Access\<close>. An address that \<open>httpx\<close> cannot parse is not
  modelled apart: every failure of the exchange is a transport failure.
\<close>

section \<open>The form\<close>

record enrolment_form =
  ef_code :: string
  ef_gateway_url :: string
  ef_tenant_id :: string
  ef_label :: string
  ef_display_name :: string

definition form_text :: "dict \<Rightarrow> string \<Rightarrow> string" where
  "form_text body k = py_strip (py_str (dict_get_or body k (JStr '''')))"

definition enrolment_form_of :: "dict \<Rightarrow> enrolment_form" where
  "enrolment_form_of body =
     \<lparr>ef_code = form_text body ''code'',
      ef_gateway_url = rstrip_by (\<lambda>c. c = CHR ''/'') (form_text body ''gateway_url''),
      ef_tenant_id = form_text body ''tenant_id'',
      ef_label = (if form_text body ''label'' = [] then ''enrolment'' else form_text body ''label''),
      ef_display_name = form_text body ''display_name''\<rparr>"

definition missing_fields :: "enrolment_form \<Rightarrow> string list" where
  "missing_fields f = map fst (filter (\<lambda>(n, v). v = [])
     [(''code'', ef_code f), (''gateway_url'', ef_gateway_url f), (''tenant_id'', ef_tenant_id f)])"

definition incomplete_form :: "string list \<Rightarrow> exc" where
  "incomplete_form missing = bad_request (''enrolment requires: '' @ join_with '', '' missing)"

definition no_public_catalog :: exc where
  "no_public_catalog = HTTPException 503 (JObj [(''error_code'', JStr ''ERR_PUBLIC_CATALOG_URL_NOT_SET''),
     (''message'', JStr (''PUBLIC_CATALOG_URL is not set on this console, so it cannot tell a tenant ''
        @ ''where to reach the catalog. It must be the address a TENANT can resolve, ''
        @ ''which is not CATALOG_SERVICE_URL - that one is this console's own ''
        @ ''in-cluster address. Nothing was enrolled (ADR-0024 '' @ [CHR 0xA7] @ ''10).''))]) []"

section \<open>The steps\<close>

text \<open>Step 1: the tenant and its credential.\<close>

definition enrol_in_catalog :: "env \<Rightarrow> enrolment_form \<Rightarrow> (world, string) act" where
  "enrol_in_catalog E f =
     andthen (catalog_request E ''POST'' ''/tenants'' (Some (JObj
        [(''tenant_id'', JStr (ef_tenant_id f)),
         (''display_name'', JStr (if ef_display_name f = [] then ef_tenant_id f else ef_display_name f)),
         (''gateway_url'', JStr (ef_gateway_url f)), (''label'', JStr (ef_label f))]))) (\<lambda>resp.
       if r_status resp \<noteq> 201
       then throw (HTTPException 502 (JStr (''the catalog would not enrol '' @ quoted (ef_tenant_id f) @ '' (''
              @ show_int (r_status resp) @ '')'')) [])
       else andthen (body_object resp) (\<lambda>b.
            andthen (lift_result (jindex b ''credential'')) (\<lambda>c. ret (py_str c))))"

definition try_enrol :: "env \<Rightarrow> enrolment_form \<Rightarrow> (world, string) act" where
  "try_enrol E f =
     catch (enrol_in_catalog E f)
       (\<lambda>e. case e of
          CatalogUnavailable why \<Rightarrow> throw (service_unavailable why)
        | CatalogMisconfigured why \<Rightarrow> throw (service_unavailable why)
        | _ \<Rightarrow> throw e)"

text \<open>The withdrawal: its answer is not looked at, and an unavailable catalog is passed over.\<close>

definition withdraw_from_catalog :: "env \<Rightarrow> string \<Rightarrow> (world, unit) act" where
  "withdraw_from_catalog E tid =
     catch (andthen (catalog_request E ''DELETE'' (''/tenants/'' @ tid) None) (\<lambda>_. ret ()))
       (\<lambda>e. if is_unavailable e then ret () else throw e)"

text \<open>Step 2: the invitation is presented to the tenant's gateway; the client carries the
  correlation hook and nothing else.\<close>

definition redeem_wire :: "settings \<Rightarrow> enrolment_form \<Rightarrow> string \<Rightarrow> string \<Rightarrow> wire" where
  "redeem_wire st f subject credential =
     \<lparr>w_method = ''POST'', w_url = ef_gateway_url f @ ''/v1/enrolments/redeem'',
      w_headers = [(''Authorization'', ''Bearer '' @ ef_code f)],
      w_json = Some (JObj [(''provider_subject'', JStr subject), (''catalog_url'', JStr (public_catalog_url st)),
                           (''catalog_credential'', JStr credential)]),
      w_form = [], w_basic = None\<rparr>"

definition failure_outcome :: string where
  "failure_outcome = ''failure''"

definition undo_enrolment :: "env \<Rightarrow> http_request \<Rightarrow> string \<Rightarrow> string \<Rightarrow> exc \<Rightarrow> (world, 'a) act" where
  "undo_enrolment E q action tid e =
     andthen (withdraw_from_catalog E tid) (\<lambda>_.
     andthen (record_request E q action failure_outcome (Some tid) []) (\<lambda>_. throw e))"

definition redeem_action :: string where
  "redeem_action = ''provider.enrolment.redeem''"

definition present_invitation :: "env \<Rightarrow> http_request \<Rightarrow> enrolment_form \<Rightarrow> string \<Rightarrow> string \<Rightarrow> (world, response) act" where
  "present_invitation E q f subject credential =
     catch (send_hooked E (redeem_wire (cfg E) f subject credential))
       (\<lambda>e. case e of
          HTTPError why \<Rightarrow> undo_enrolment E q redeem_action (ef_tenant_id f)
            (HTTPException 502 (JStr (''could not reach the tenant's gateway: '' @ why)) [])
        | _ \<Rightarrow> throw e)"

text \<open>A refusal is passed on after the withdrawal; its detail is read only then.\<close>

definition refuse_redeemed :: "env \<Rightarrow> http_request \<Rightarrow> enrolment_form \<Rightarrow> response \<Rightarrow> (world, 'a) act" where
  "refuse_redeemed E q f resp =
     andthen (withdraw_from_catalog E (ef_tenant_id f)) (\<lambda>_.
     andthen (record_request E q redeem_action failure_outcome (Some (ef_tenant_id f)) []) (\<lambda>_.
     andthen (lift_result (upstream_detail resp)) (\<lambda>detail.
       throw (HTTPException (r_status resp) detail []))))"

definition tenant_mismatch :: "enrolment_form \<Rightarrow> string \<Rightarrow> exc" where
  "tenant_mismatch f reported = HTTPException 409 (JObj [(''error_code'', JStr ''ERR_ENROLMENT_TENANT_MISMATCH''),
     (''message'', JStr (''the gateway at '' @ ef_gateway_url f @ '' reports tenant '' @ quoted reported
        @ '', but the credential was minted for '' @ quoted (ef_tenant_id f)
        @ ''. Nothing was enrolled and the credential has been revoked - check the tenant id you were given (ADR-0024 ''
        @ [CHR 0xA7] @ ''10).''))]) []"

text \<open>Step 4: the provider's own credential is recorded.\<close>

definition record_credential :: "env \<Rightarrow> string \<Rightarrow> dict \<Rightarrow> string \<Rightarrow> (world, bool) act" where
  "record_credential E tid enrolled enrolment_id =
     catch (andthen (catalog_request E ''PUT'' (''/tenants/'' @ tid @ ''/gateway-credential'') (Some (JObj
              [(''gateway_credential'', py_or (dict_get enrolled ''credential'') (JStr '''')),
               (''enrolment_id'', JStr enrolment_id)]))) (\<lambda>resp. ret (r_status resp = 200)))
       (\<lambda>e. if is_unavailable e then ret False else throw e)"

definition not_recorded :: "string \<Rightarrow> exc" where
  "not_recorded tid = HTTPException 502 (JObj [(''error_code'', JStr ''ERR_ENROLMENT_NOT_RECORDED''),
     (''message'', JStr (''tenant '' @ quoted tid @ '' was enrolled on its gateway, but the catalog would not ''
        @ ''record the credential it returned. The tenant is listed and unreachable ''
        @ ''until it is enrolled again with a fresh invitation (ADR-0024 '' @ [CHR 0xA7] @ ''11).''))]) []"

definition complete_enrolment :: "env \<Rightarrow> http_request \<Rightarrow> enrolment_form \<Rightarrow> dict \<Rightarrow> (world, reply) act" where
  "complete_enrolment E q f enrolled =
     (let enrolment_id = py_str (py_or (dict_get enrolled ''enrolment_id'') (JStr '''')) in
      andthen (record_credential E (ef_tenant_id f) enrolled enrolment_id) (\<lambda>completed.
        if \<not> completed
        then andthen (record_request E q ''provider.enrolment.incomplete'' failure_outcome (Some (ef_tenant_id f)) []) (\<lambda>_.
               throw (not_recorded (ef_tenant_id f)))
        else andthen (pool_invalidate (ef_tenant_id f)) (\<lambda>_.
             andthen (directory_refresh E) (\<lambda>_.
             andthen (record_request E q redeem_action outcome_success (Some (ef_tenant_id f)) []) (\<lambda>_.
               ret (Json_Body (JObj
                 [(''tenant_id'', JStr (ef_tenant_id f)), (''enrolment_id'', JStr enrolment_id),
                  (''approved_by'', dict_get enrolled ''approved_by''), (''approved_at'', dict_get enrolled ''approved_at''),
                  (''gateway_url'', JStr (ef_gateway_url f)), (''recorded'', JBool True)])))))))"

text \<open>Steps 3 and 4, on the gateway's report.\<close>

definition verify_tenant :: "env \<Rightarrow> http_request \<Rightarrow> enrolment_form \<Rightarrow> dict \<Rightarrow> (world, reply) act" where
  "verify_tenant E q f enrolled =
     (let reported = py_str (dict_get_or enrolled ''tenant_id'' (JStr '''')) in
      if reported \<noteq> ef_tenant_id f
      then undo_enrolment E q ''provider.enrolment.misdelivered'' (ef_tenant_id f) (tenant_mismatch f reported)
      else complete_enrolment E q f enrolled)"

definition redeem_form :: "env \<Rightarrow> http_request \<Rightarrow> dict \<Rightarrow> enrolment_form \<Rightarrow> (world, reply) act" where
  "redeem_form E q session f =
     (if missing_fields f \<noteq> [] then throw (incomplete_form (missing_fields f))
      else if catalog_service_url (cfg E) = []
      then throw (service_unavailable ''this console has no catalog configured, so it cannot issue the tenant's credential'')
      else if public_catalog_url (cfg E) = [] then throw no_public_catalog
      else andthen (try_enrol E f) (\<lambda>credential.
           andthen (present_invitation E q f (provider_subject session) credential) (\<lambda>redeemed.
             if r_status redeemed \<noteq> 201 then refuse_redeemed E q f redeemed
             else andthen (body_object redeemed) (\<lambda>v.
                  andthen (lift_result (as_object v)) (verify_tenant E q f)))))"

text \<open>The body: none at all is an empty form. The request tells an empty body from a malformed one.\<close>

definition redeem :: "env \<Rightarrow> http_request \<Rightarrow> bool \<Rightarrow> (world, reply) act" where
  "redeem E q has_body =
     with_session E provider_admin (\<lambda>session.
       andthen (if has_body then request_json q else ret (JObj [])) (\<lambda>v.
       andthen (lift_result (as_object v)) (\<lambda>body.
         redeem_form E q session (enrolment_form_of body))))"

end
