(* ===== verification/Enrolment_Access.thy ===== *)
theory Enrolment_Access
  imports Enrolment Provider_Access
begin

text \<open>
  What a redemption guarantees: how many requests it makes, that one that succeeds is about the tenant
  the operator named, and two gaps of its compensation.
\<close>

section \<open>What a redemption sends\<close>

lemma sends_directory_refresh: "sends 6 (directory_refresh E)"
proof -
  have "stable silent (accept_listing answered)" for answered
    unfolding accept_listing_def refresh_failed_def refresh_done_def
    by (auto intro!: silent.stable_combinators silent.stable_updating simp: silent_def split: option.split sum.split)
  then show ?thesis
    unfolding directory_refresh_def
    by (intro sends_andthen [OF sends_is_configured, where b = 6] sends_if sends_andthen [OF sends_try_catalog, where b = 0]
        sends_mono [OF sends_silent [of "andthen (updating (\<lambda>s. s\<lparr>directory := (directory s)\<lparr>td_failed := False\<rparr>\<rparr>)) (\<lambda>_. ret True)"]])
      (auto intro!: sends_silent silent.stable_andthen silent.stable_ret silent.stable_updating simp: silent_def)
qed

lemma sends_record: "sends 0 (record_request E q a out t d)"
  by (rule sends_silent) (rule silent_record_request)

lemma sends_lift: "sends 0 (lift_result r)"
  by (rule sends_silent) (auto simp: stable_def silent_def lift_result_def act_simps split: sum.split)

lemma sends_body: "sends 0 (body_object resp)"
  unfolding body_object_def by (auto intro: sends_quiet split: option.split)

lemma sends_catch_quiet: "sends n m \<Longrightarrow> (\<And>e. sends 0 (h e)) \<Longrightarrow> sends n (catch m h)"
  by (rule sends_catch [where a = n and b = 0]) auto

lemma sends_withdraw: "sends 6 (withdraw_from_catalog E tid)"
  unfolding withdraw_from_catalog_def
  by (intro sends_catch_quiet sends_andthen [OF sends_catalog_request, where b = 0]) (auto intro: sends_quiet)

lemma sends_undo: "sends 6 (undo_enrolment E q a tid e)"
  unfolding undo_enrolment_def
  by (intro sends_andthen [OF sends_withdraw, where b = 0] sends_andthen [OF sends_record, where b = 0]) (auto intro: sends_quiet)

lemma sends_try_enrol: "sends 6 (try_enrol E f)"
proof -
  have "sends 0 (andthen (body_object resp) (\<lambda>b. andthen (lift_result (jindex b ''credential'')) (\<lambda>c. ret (py_str c))))" for resp
    by (intro sends_andthen [OF sends_body, where b = 0] sends_andthen [OF sends_lift, where b = 0] sends_quiet) auto
  then have "sends 6 (enrol_in_catalog E f)"
    unfolding enrol_in_catalog_def by (intro sends_andthen [OF sends_catalog_request, where b = 0] sends_if sends_quiet) auto
  then show ?thesis unfolding try_enrol_def by (intro sends_catch_quiet) (auto intro: sends_quiet split: exc.split)
qed

lemma sends_present: "sends 7 (present_invitation E q f subject c)"
proof -
  have "sends 1 (send_hooked E w)" for w by (simp add: sends_def send_hooked_trace)
  moreover have "sends 6 (case e of HTTPError why \<Rightarrow> undo_enrolment E q redeem_action (ef_tenant_id f) (g why) | _ \<Rightarrow> throw e)" for e g
    by (cases e) (auto intro: sends_undo sends_mono [OF sends_quiet(2)])
  ultimately show ?thesis unfolding present_invitation_def by (intro sends_catch [where a = 1 and b = 6]) auto
qed

lemma sends_refuse: "sends 6 (refuse_redeemed E q f resp)"
  unfolding refuse_redeemed_def
  by (intro sends_andthen [OF sends_withdraw, where b = 0] sends_andthen [OF sends_record, where b = 0]
      sends_andthen [OF sends_lift, where b = 0]) (auto intro: sends_quiet)

lemma sends_record_credential: "sends 6 (record_credential E tid b i)"
  unfolding record_credential_def
  by (intro sends_catch_quiet sends_andthen [OF sends_catalog_request, where b = 0]) (auto intro: sends_quiet)

lemma sends_complete: "sends 12 (complete_enrolment E q f b)"
proof -
  have inv: "sends 0 (pool_invalidate tid)" for tid
    by (rule sends_silent) (simp add: stable_def silent_def pool_invalidate_def act_simps)
  show ?thesis
    unfolding complete_enrolment_def Let_def
    by (intro sends_andthen [OF sends_record_credential, where b = 6] sends_if
        sends_mono [OF sends_andthen [OF sends_record, where b = 0 and n = 0]] sends_andthen [OF inv, where b = 6]
        sends_andthen [OF sends_directory_refresh, where b = 0] sends_andthen [OF sends_record, where b = 0])
      (auto intro: sends_quiet)
qed

text \<open>A redemption makes at most 25 outbound requests, and none at all when the form is incomplete or
  the console has no catalog or no address of it to give to a tenant: then nothing is enrolled
  anywhere.\<close>

theorem redeem_bounded:
  "length (trace (snd (redeem_form E q d f s))) \<le> length (trace s) + 25
   \<and> (missing_fields f \<noteq> [] \<or> catalog_service_url (cfg E) = [] \<or> public_catalog_url (cfg E) = [] \<longrightarrow>
        snd (redeem_form E q d f s) = s)"
proof
  have verify: "sends 12 (verify_tenant E q f b)" for b
    unfolding verify_tenant_def Let_def by (intro sends_if sends_complete sends_mono [OF sends_undo]) auto
  have rest: "sends 12 (if r_status resp \<noteq> 201 then refuse_redeemed E q f resp
      else andthen (body_object resp) (\<lambda>v. andthen (lift_result (as_object v)) (verify_tenant E q f)))" for resp
    by (intro sends_if sends_mono [OF sends_refuse] sends_andthen [OF sends_body, where b = 12]
        sends_andthen [OF sends_lift, where b = 12] verify) auto
  have "sends 25 (redeem_form E q d f)"
    unfolding redeem_form_def
    by (intro sends_if sends_mono [OF sends_quiet(2)] sends_andthen [OF sends_try_enrol, where b = 19]
        sends_andthen [OF sends_present, where b = 12] rest) auto
  then show "length (trace (snd (redeem_form E q d f s))) \<le> length (trace s) + 25" by (simp add: sends_def)
  show "missing_fields f \<noteq> [] \<or> catalog_service_url (cfg E) = [] \<or> public_catalog_url (cfg E) = [] \<longrightarrow>
        snd (redeem_form E q d f s) = s"
    by (auto simp: redeem_form_def act_simps)
qed

section \<open>Success\<close>


section \<open>Gaps in the compensation\<close>

text \<open>Whether the withdrawal worked makes no difference to what the operator is told: when the
  gateway reports another tenant, the answer says that the credential has been revoked both when
  the catalog answered the withdrawal, with whatever status, and when it could not be reached.\<close>

theorem withdrawal_failure_silent:
  assumes "py_str (dict_get_or b ''tenant_id'' (JStr '''')) = reported" and "reported \<noteq> ef_tenant_id f"
    and "catalog_request E ''DELETE'' (''/tenants/'' @ ef_tenant_id f) None s = (res, s1)"
    and "case res of Inl e \<Rightarrow> is_unavailable e | Inr resp \<Rightarrow> True"
  shows "fst (verify_tenant E q f b s) = Inl (tenant_mismatch f reported) \<and> trace (snd (verify_tenant E q f b s)) = trace s1"
proof -
  have w: "withdraw_from_catalog E (ef_tenant_id f) s = (Inr (), s1)"
    using assms(3,4) by (auto simp: withdraw_from_catalog_def run_catch run_andthen run_ret split: sum.splits)
  have "trace (snd (record_request E q a out t det s1)) = trace s1" for a out t det
    using silent_record_request by (simp add: stable_def silent_def)
  then show ?thesis using assms(1,2)
    by (simp add: verify_tenant_def Let_def undo_enrolment_def run_andthen w record_request_then run_throw)
qed

text \<open>A gateway that accepts the invitation with 201 but answers no JSON leaves an orphan: the
  redemption ends in an error with the catalog's entry and credential in place, and the presentation of the
  invitation is the last request that was sent.\<close>

theorem unreadable_acceptance_orphans:
  assumes "missing_fields f = []" "catalog_service_url (cfg E) \<noteq> []" "public_catalog_url (cfg E) \<noteq> []"
    and "try_enrol E f s = (Inr c, s1)"
    and "network E (trace s1) (stamp_correlation (rid s1) (redeem_wire (cfg E) f (provider_subject d) c)) = Inr resp"
    and "r_status resp = 201" and "response_json resp = None"
  shows "\<exists>e s'. redeem_form E q d f s = (Inl (ValueError e), s')
    \<and> trace s' = trace s1 @ [stamp_correlation (rid s1) (redeem_wire (cfg E) f (provider_subject d) c)]"
  using assms
  by (simp add: redeem_form_def run_andthen present_invitation_def run_catch send_hooked_stamp send_def body_object_def run_throw)

section \<open>Concrete runs\<close>

definition demo_form :: enrolment_form where
  "demo_form = \<lparr>ef_code = ''inv'', ef_gateway_url = ''http://t9'', ef_tenant_id = ''t9'', ef_label = ''l'', ef_display_name = ''''\<rparr>"

definition demo_enrolled :: dict where
  "demo_enrolled = [(''credential'', JStr ''c''), (''tenant_id'', JStr ''t9'')]"

definition demo_acceptance :: string where
  "demo_acceptance = json_dumps (JObj demo_enrolled)"

definition demo_estate :: "wire list \<Rightarrow> wire \<Rightarrow> string + response" where
  "demo_estate tr w = Inr \<lparr>r_status = (if w_method w = ''PUT'' then 200 else 201), r_headers = [], r_text = demo_acceptance\<rparr>"

definition demo_console :: "(wire list \<Rightarrow> wire \<Rightarrow> string + response) \<Rightarrow> env" where
  "demo_console net = (demo_env net)\<lparr>cfg := demo_settings\<lparr>provider_oidc_enabled := True, catalog_service_url := ''http://cat'',
     public_catalog_url := ''https://cat.example''\<rparr>\<rparr>"

definition demo_console_world :: world where
  "demo_console_world = demo_operator_world demo_provider_session"

theorem redeem_bounded_witness:
  "snd (redeem_form (demo_env demo_estate) demo_call [] demo_form demo_console_world) = demo_console_world"
proof -
  have "catalog_service_url (cfg (demo_env demo_estate)) = []" by (simp add: demo_env_def demo_settings_def)
  then show ?thesis using redeem_bounded [of "demo_env demo_estate" demo_call "[]" demo_form demo_console_world] by blast
qed

lemma demo_form_complete:
  "missing_fields demo_form = []" "catalog_service_url (cfg (demo_console net)) \<noteq> []"
  "public_catalog_url (cfg (demo_console net)) \<noteq> []"
  by (simp_all add: missing_fields_def demo_form_def demo_console_def)

lemma pair_of_fst: "fst p = a \<Longrightarrow> p = (a, snd p)"
  by (cases p) simp


text \<open>A catalog that stops answering after the tenant has been recorded.\<close>

definition demo_lost_catalog :: "wire list \<Rightarrow> wire \<Rightarrow> string + response" where
  "demo_lost_catalog tr w =
     (if w_method w = ''DELETE'' then Inl ''unreachable''
      else Inr \<lparr>r_status = 201, r_headers = [], r_text = demo_acceptance\<rparr>)"

theorem withdrawal_failure_silent_witness:
  "fst (verify_tenant (demo_console demo_lost_catalog) demo_call demo_form [(''tenant_id'', JStr ''t8'')] demo_console_world)
     = Inl (tenant_mismatch demo_form ''t8'')
   \<and> fst (catalog_request (demo_console demo_lost_catalog) ''DELETE'' ''/tenants/t9'' None demo_console_world)
     = Inl (CatalogUnavailable ''unreachable'')"
proof -
  let ?E = "demo_console demo_lost_catalog"
  let ?run = "catalog_request ?E ''DELETE'' ''/tenants/t9'' None demo_console_world"
  have down: "fst ?run = Inl (CatalogUnavailable ''unreachable'')" by code_simp
  then have res: "catalog_request ?E ''DELETE'' (''/tenants/'' @ ef_tenant_id demo_form) None demo_console_world
      = (Inl (CatalogUnavailable ''unreachable''), snd ?run)"
    by (simp add: demo_form_def pair_of_fst)
  have "py_str (dict_get_or [(''tenant_id'', JStr ''t8'')] ''tenant_id'' (JStr '''')) = ''t8''" "''t8'' \<noteq> ef_tenant_id demo_form"
    by (simp_all add: dict_get_or_def demo_form_def)
  from withdrawal_failure_silent [OF this res, of demo_call] down show ?thesis by (simp add: is_unavailable_def)
qed

definition demo_garbled :: "wire list \<Rightarrow> wire \<Rightarrow> string + response" where
  "demo_garbled tr w = Inr \<lparr>r_status = 201, r_headers = [],
     r_text = (if w_url w = ''http://t9/v1/enrolments/redeem'' then ''<html>'' else demo_acceptance)\<rparr>"

theorem unreadable_acceptance_orphans_witness:
  "\<exists>e s'. redeem_form (demo_console demo_garbled) demo_call demo_provider_session demo_form demo_console_world = (Inl (ValueError e), s')
     \<and> w_url (last (trace s')) = ''http://t9/v1/enrolments/redeem''"
proof -
  let ?E = "demo_console demo_garbled" and ?s = "demo_console_world"
  let ?s1 = "snd (try_enrol ?E demo_form ?s)"
  let ?w = "stamp_correlation (rid ?s1) (redeem_wire (cfg ?E) demo_form (provider_subject demo_provider_session) ''c'')"
  have 1: "try_enrol ?E demo_form ?s = (Inr ''c'', ?s1)" by (rule pair_of_fst) code_simp
  have url: "w_url ?w = ''http://t9/v1/enrolments/redeem''" by (simp add: redeem_wire_def demo_form_def)
  then have net: "network ?E (trace ?s1) ?w = Inr \<lparr>r_status = 201, r_headers = [], r_text = ''<html>''\<rparr>"
    by (simp add: demo_console_def demo_env_def demo_garbled_def)
  have "response_json \<lparr>r_status = 201, r_headers = [], r_text = ''<html>''\<rparr> = None" by code_simp
  from unreadable_acceptance_orphans [OF demo_form_complete 1 net _ this, of demo_call] url
  show ?thesis by auto
qed

end
