(* ===== verification/Bootstrap.thy ===== *)
theory Bootstrap
  imports Enrolment_Access Support
begin

text \<open>
  First-run secrets of the lite deployment (\<open>app/bootstrap.py\<close>).

  The state file is modelled by the JSON value it parses to; the four secrets are named by the
  keys they are stored under, and its path is taken as pathlib prints it. \<open>fresh\<close> gives the value that would be generated for a key. A
  write that fails anywhere leaves the settings of the environment.

  Results: what the operator set always wins, a second start with the file of the first one
  generates nothing and ends in the same settings, and a working state directory never leaves
  the public session secret or an empty admin password.
\<close>

section \<open>The state file\<close>

record state_dir =
  sd_path :: string
  sd_ready :: bool
  sd_file :: "json option"
  sd_writable :: bool

type_synonym stored = "(string \<times> string) list"

definition state_filename :: string where
  "state_filename = ''bootstrap.json''"

text \<open>A missing, unreadable or malformed file, and one that is not an object, count as empty.\<close>

fun text_items :: "dict \<Rightarrow> stored" where
  "text_items [] = []"
| "text_items ((k, v) # d) = (case v of JStr t \<Rightarrow> (k, t) # text_items d | _ \<Rightarrow> text_items d)"

definition load_state :: "state_dir \<Rightarrow> stored" where
  "load_state sd = (case sd_file sd of Some (JObj d) \<Rightarrow> text_items d | _ \<Rightarrow> [])"

section \<open>Choosing a secret\<close>

datatype choice =
    Supplied
  | Persisted string
  | Generated string

definition pick_secret :: "bool \<Rightarrow> stored \<Rightarrow> (string \<Rightarrow> string) \<Rightarrow> string \<Rightarrow> choice" where
  "pick_secret supplied st fresh key =
     (if supplied then Supplied
      else (case map_of st key of
              Some (c # cs) \<Rightarrow> Persisted (c # cs)
            | _ \<Rightarrow> Generated (fresh key)))"

definition chosen :: "choice \<Rightarrow> string \<Rightarrow> string" where
  "chosen c given = (case c of Supplied \<Rightarrow> given | Persisted v \<Rightarrow> v | Generated v \<Rightarrow> v)"

definition persist_choice :: "string \<Rightarrow> choice \<Rightarrow> stored \<Rightarrow> stored" where
  "persist_choice key c st = (case c of Generated v \<Rightarrow> AList.update key v st | _ \<Rightarrow> st)"

text \<open>Which secrets the operator supplied.\<close>

definition supplies_session_secret :: "settings \<Rightarrow> bool" where
  "supplies_session_secret s \<longleftrightarrow> session_secret s \<noteq> [] \<and> session_secret s \<noteq> default_session_secret"

definition session_choice :: "settings \<Rightarrow> stored \<Rightarrow> (string \<Rightarrow> string) \<Rightarrow> choice" where
  "session_choice s st fresh = pick_secret (supplies_session_secret s) st fresh ''session_secret''"

definition admin_choice :: "settings \<Rightarrow> stored \<Rightarrow> (string \<Rightarrow> string) \<Rightarrow> choice" where
  "admin_choice s st fresh = pick_secret (ui_admin_password s \<noteq> []) st fresh ''admin_password''"

definition content_choice :: "settings \<Rightarrow> stored \<Rightarrow> (string \<Rightarrow> string) \<Rightarrow> choice" where
  "content_choice s st fresh = pick_secret (audit_content_key s \<noteq> []) st fresh ''audit_content_key''"

definition pseudonym_choice :: "settings \<Rightarrow> stored \<Rightarrow> (string \<Rightarrow> string) \<Rightarrow> choice" where
  "pseudonym_choice s st fresh = pick_secret (audit_pseudonym_key s \<noteq> []) st fresh ''audit_pseudonym_key''"

definition state_to_persist :: "settings \<Rightarrow> stored \<Rightarrow> (string \<Rightarrow> string) \<Rightarrow> stored" where
  "state_to_persist s st fresh =
     persist_choice ''audit_pseudonym_key'' (pseudonym_choice s st fresh)
       (persist_choice ''audit_content_key'' (content_choice s st fresh)
         (persist_choice ''admin_password'' (admin_choice s st fresh)
           (persist_choice ''session_secret'' (session_choice s st fresh) st)))"

definition bootstrapped :: "settings \<Rightarrow> stored \<Rightarrow> (string \<Rightarrow> string) \<Rightarrow> string \<Rightarrow> settings" where
  "bootstrapped s st fresh dir =
     s\<lparr>session_secret := chosen (session_choice s st fresh) (session_secret s),
       ui_admin_password := chosen (admin_choice s st fresh) (ui_admin_password s),
       audit_content_key := chosen (content_choice s st fresh) (audit_content_key s),
       audit_pseudonym_key := chosen (pseudonym_choice s st fresh) (audit_pseudonym_key s),
       audit_path := (if audit_path s = [] then rstrip_by (\<lambda>c. c = CHR ''/'') dir @ ''/audit.log'' else audit_path s)\<rparr>"

definition announced :: "choice \<Rightarrow> string option" where
  "announced c = (case c of Generated v \<Rightarrow> Some v | _ \<Rightarrow> None)"

section \<open>The bootstrap\<close>

record bootstrap_result =
  br_settings :: settings
  br_file :: "json option"
  br_login :: "string option"

definition kept_as_is :: "settings \<Rightarrow> state_dir \<Rightarrow> bootstrap_result" where
  "kept_as_is s sd = \<lparr>br_settings = s, br_file = sd_file sd, br_login = None\<rparr>"

definition run_bootstrap :: "settings \<Rightarrow> state_dir \<Rightarrow> (string \<Rightarrow> string) \<Rightarrow> bootstrap_result" where
  "run_bootstrap s sd fresh =
     (let st = load_state sd; keep = state_to_persist s st fresh in
      if \<not> sd_ready sd \<or> keep \<noteq> st \<and> \<not> sd_writable sd then kept_as_is s sd
      else \<lparr>br_settings = bootstrapped s st fresh (sd_path sd),
            br_file = (if keep \<noteq> st then Some (JObj (map (\<lambda>(k, v). (k, JStr v)) keep)) else sd_file sd),
            br_login = announced (admin_choice s st fresh)\<rparr>)"

definition apply_first_run_bootstrap :: "settings \<Rightarrow> state_dir \<Rightarrow> (string \<Rightarrow> string) \<Rightarrow> bootstrap_result" where
  "apply_first_run_bootstrap s sd fresh =
     (if py_strip (sd_path sd) = [] then kept_as_is s sd
      else run_bootstrap s (sd\<lparr>sd_path := py_strip (sd_path sd)\<rparr>) fresh)"

section \<open>Starting again\<close>

lemma text_items_map: "text_items (map (\<lambda>(k, v). (k, JStr v)) st) = st"
  by (induction st) auto

lemma pick_secret_stable:
  assumes "map_of st' key = (case pick_secret supplied st fresh key of Generated v \<Rightarrow> Some v | _ \<Rightarrow> map_of st key)"
    and "fresh key \<noteq> []"
  shows "chosen (pick_secret supplied st' fresh' key) given = chosen (pick_secret supplied st fresh key) given
    \<and> announced (pick_secret supplied st' fresh' key) = None \<and> persist_choice key (pick_secret supplied st' fresh' key) x = x"
  using assms by (auto simp: pick_secret_def chosen_def announced_def persist_choice_def neq_Nil_conv split: option.splits list.splits)

lemma map_of_persist:
  "map_of (persist_choice key c st) k = (if k = key then (case c of Generated v \<Rightarrow> Some v | _ \<Rightarrow> map_of st k) else map_of st k)"
  by (auto simp: persist_choice_def map_of_update split: choice.split)

lemma state_lookup:
  "map_of (state_to_persist s st fresh) ''session_secret'' =
     (case session_choice s st fresh of Generated v \<Rightarrow> Some v | _ \<Rightarrow> map_of st ''session_secret'')"
  "map_of (state_to_persist s st fresh) ''admin_password'' =
     (case admin_choice s st fresh of Generated v \<Rightarrow> Some v | _ \<Rightarrow> map_of st ''admin_password'')"
  "map_of (state_to_persist s st fresh) ''audit_content_key'' =
     (case content_choice s st fresh of Generated v \<Rightarrow> Some v | _ \<Rightarrow> map_of st ''audit_content_key'')"
  "map_of (state_to_persist s st fresh) ''audit_pseudonym_key'' =
     (case pseudonym_choice s st fresh of Generated v \<Rightarrow> Some v | _ \<Rightarrow> map_of st ''audit_pseudonym_key'')"
  by (simp_all add: state_to_persist_def map_of_persist split: choice.split)

text \<open>Starting twice is starting once: when a start could write its state, a later start from the
  same environment and the file it left ends in the very same settings, writes nothing, and
  announces no login, whatever would have been generated then.\<close>

theorem bootstrap_restart:
  assumes r: "r = apply_first_run_bootstrap s sd fresh" and ready: "sd_ready sd" "sd_writable sd"
    and fresh: "\<forall>k. fresh k \<noteq> []"
  shows "apply_first_run_bootstrap s (sd\<lparr>sd_file := br_file r\<rparr>) fresh' = r\<lparr>br_login := None\<rparr>"
proof (cases "py_strip (sd_path sd) = []")
  case True
  then show ?thesis by (simp add: r apply_first_run_bootstrap_def kept_as_is_def)
next
  case False
  let ?sd = "sd\<lparr>sd_path := py_strip (sd_path sd)\<rparr>" and ?st = "load_state sd"
  let ?keep = "state_to_persist s ?st fresh"
  have st: "load_state ?sd = ?st" by (simp add: load_state_def)
  have r': "r = \<lparr>br_settings = bootstrapped s ?st fresh (py_strip (sd_path sd)),
      br_file = (if ?keep \<noteq> ?st then Some (JObj (map (\<lambda>(k, v). (k, JStr v)) ?keep)) else sd_file sd),
      br_login = announced (admin_choice s ?st fresh)\<rparr>"
    using False ready by (simp add: r apply_first_run_bootstrap_def run_bootstrap_def st Let_def)
  then have left: "load_state (sd\<lparr>sd_file := br_file r, sd_path := p\<rparr>) = ?keep" for p
    by (auto simp: load_state_def text_items_map)
  have same: "chosen (session_choice s ?keep fresh') (session_secret s) = chosen (session_choice s ?st fresh) (session_secret s)"
    "chosen (admin_choice s ?keep fresh') (ui_admin_password s) = chosen (admin_choice s ?st fresh) (ui_admin_password s)"
    "chosen (content_choice s ?keep fresh') (audit_content_key s) = chosen (content_choice s ?st fresh) (audit_content_key s)"
    "chosen (pseudonym_choice s ?keep fresh') (audit_pseudonym_key s) = chosen (pseudonym_choice s ?st fresh) (audit_pseudonym_key s)"
    "announced (admin_choice s ?keep fresh') = None"
    and none: "\<And>x. persist_choice ''session_secret'' (session_choice s ?keep fresh') x = x"
    "\<And>x. persist_choice ''admin_password'' (admin_choice s ?keep fresh') x = x"
    "\<And>x. persist_choice ''audit_content_key'' (content_choice s ?keep fresh') x = x"
    "\<And>x. persist_choice ''audit_pseudonym_key'' (pseudonym_choice s ?keep fresh') x = x"
    using pick_secret_stable [OF state_lookup(1) [unfolded session_choice_def]] pick_secret_stable [OF state_lookup(2) [unfolded admin_choice_def]]
      pick_secret_stable [OF state_lookup(3) [unfolded content_choice_def]] pick_secret_stable [OF state_lookup(4) [unfolded pseudonym_choice_def]] fresh
    by (simp_all add: session_choice_def admin_choice_def content_choice_def pseudonym_choice_def)
  have "state_to_persist s ?keep fresh' = ?keep" by (simp add: state_to_persist_def [of s ?keep fresh'] none)
  moreover have "bootstrapped s ?keep fresh' p = bootstrapped s ?st fresh p" for p by (simp add: bootstrapped_def same)
  moreover have "br_settings r = bootstrapped s ?st fresh (py_strip (sd_path sd))" by (simp add: r')
  ultimately show ?thesis
    using False ready(1) by (simp add: apply_first_run_bootstrap_def run_bootstrap_def left same(5) Let_def)
qed

text \<open>What the operator supplied is never replaced, and where a state directory works the console
  starts with a session secret and an admin password of its own: neither is empty, and the
  session secret is not the public default.\<close>

lemma bootstrap_secures:
  assumes "br_settings (apply_first_run_bootstrap s sd fresh) = s'"
  shows "(supplies_session_secret s \<longrightarrow> session_secret s' = session_secret s)
    \<and> (ui_admin_password s \<noteq> [] \<longrightarrow> ui_admin_password s' = ui_admin_password s)
    \<and> (audit_content_key s \<noteq> [] \<longrightarrow> audit_content_key s' = audit_content_key s)
    \<and> (audit_pseudonym_key s \<noteq> [] \<longrightarrow> audit_pseudonym_key s' = audit_pseudonym_key s)
    \<and> (audit_path s \<noteq> [] \<longrightarrow> audit_path s' = audit_path s)
    \<and> (py_strip (sd_path sd) \<noteq> [] \<and> sd_ready sd \<and> sd_writable sd
        \<and> (\<forall>k. fresh k \<noteq> [] \<and> fresh k \<noteq> default_session_secret)
        \<and> map_of (load_state sd) ''session_secret'' \<noteq> Some default_session_secret
        \<longrightarrow> session_secret s' \<notin> {[], default_session_secret} \<and> ui_admin_password s' \<noteq> []
          \<and> audit_content_key s' \<noteq> [] \<and> audit_pseudonym_key s' \<noteq> [] \<and> audit_path s' \<noteq> [])"
proof -
  let ?st = "load_state sd"
  have st: "load_state (sd\<lparr>sd_path := p\<rparr>) = ?st" for p by (simp add: load_state_def)
  have supplied: "chosen (pick_secret True ?st fresh k) x = x" for k x by (simp add: pick_secret_def chosen_def)
  have new: "chosen (pick_secret b ?st fresh k) x \<noteq> []" if "b \<longrightarrow> x \<noteq> []" "\<forall>k. fresh k \<noteq> []" for b k x
    using that by (auto simp: pick_secret_def chosen_def split: option.splits list.splits)
  have public: "chosen (session_choice s ?st fresh) (session_secret s) \<noteq> default_session_secret"
    if "\<forall>k. fresh k \<noteq> default_session_secret" "map_of ?st ''session_secret'' \<noteq> Some default_session_secret"
    using that by (auto simp: session_choice_def pick_secret_def chosen_def supplies_session_secret_def split: option.splits list.splits)
  consider "s' = s" "py_strip (sd_path sd) = [] \<or> \<not> sd_ready sd \<or> \<not> sd_writable sd"
    | "s' = bootstrapped s ?st fresh (py_strip (sd_path sd))"
    using assms by (auto simp: apply_first_run_bootstrap_def run_bootstrap_def kept_as_is_def st Let_def split: if_splits)
  then show ?thesis
  proof cases
    case 1
    then show ?thesis by auto
  next
    case 2
    then show ?thesis
      using public new [of "supplies_session_secret s" "session_secret s" "''session_secret''"]
        new [of "ui_admin_password s \<noteq> []" "ui_admin_password s" "''admin_password''"]
        new [of "audit_content_key s \<noteq> []" "audit_content_key s" "''audit_content_key''"]
        new [of "audit_pseudonym_key s \<noteq> []" "audit_pseudonym_key s" "''audit_pseudonym_key''"]
      by (simp add: bootstrapped_def session_choice_def admin_choice_def content_choice_def pseudonym_choice_def supplied
          supplies_session_secret_def)
  qed
qed

definition demo_state_dir :: state_dir where
  "demo_state_dir = \<lparr>sd_path = ''/state'', sd_ready = True, sd_file = None, sd_writable = True\<rparr>"

definition demo_home :: settings where
  "demo_home = demo_settings\<lparr>session_secret := default_session_secret, ui_admin_password := '''', audit_path := ''''\<rparr>"

definition demo_fresh :: "string \<Rightarrow> string" where
  "demo_fresh key = ''new-'' @ key"

theorem bootstrap_restart_witness:
  "let first = apply_first_run_bootstrap demo_home demo_state_dir demo_fresh;
       second = apply_first_run_bootstrap demo_home (demo_state_dir\<lparr>sd_file := br_file first\<rparr>) (\<lambda>k. ''other'')
   in br_login first = Some ''new-admin_password'' \<and> br_login second = None \<and> br_settings second = br_settings first"
proof -
  have ok: "sd_ready demo_state_dir" "sd_writable demo_state_dir" "\<forall>k. demo_fresh k \<noteq> []"
    by (simp_all add: demo_state_dir_def demo_fresh_def)
  have login: "br_login (apply_first_run_bootstrap demo_home demo_state_dir demo_fresh) = Some ''new-admin_password''"
    by code_simp
  show ?thesis
    using bootstrap_restart [OF refl ok, of demo_home "\<lambda>k. ''other''"] login by (simp add: Let_def)
qed

lemma bootstrap_secures_demo:
  "session_secret (br_settings (apply_first_run_bootstrap demo_home demo_state_dir demo_fresh)) \<noteq> default_session_secret
   \<and> audit_content_key (br_settings (apply_first_run_bootstrap demo_home demo_state_dir demo_fresh)) \<noteq> []"
proof -
  have "py_strip (sd_path demo_state_dir) \<noteq> []" by code_simp
  moreover have "sd_ready demo_state_dir" "sd_writable demo_state_dir"
    "\<forall>k. demo_fresh k \<noteq> [] \<and> demo_fresh k \<noteq> default_session_secret"
    "map_of (load_state demo_state_dir) ''session_secret'' \<noteq> Some default_session_secret"
    by (simp_all add: demo_state_dir_def demo_fresh_def default_session_secret_def load_state_def)
  ultimately show ?thesis using bootstrap_secures [OF refl, of demo_home demo_state_dir demo_fresh] by blast
qed

end
