(* ===== verification/App.thy ===== *)
theory App
  imports Bootstrap
begin

text \<open>
  The application (\<open>app/main.py\<close>): what it refuses to start with, the state it builds, which
  routes a deployment has, and how one request is served.

  \<open>create_app\<close> takes the surroundings of an \<open>env\<close> and puts the settings and what is derived from
  them into it. The store of the world is the in-process one; with a Redis URL the routes use
  the Redis store instead, which implements the same contract (\<open>Sessions\<close>), so the backend is
  only named. A request comes with the cookie the session middleware has verified; the
  correlation middleware binds its id, and a route that is not mounted answers 404.
\<close>

section \<open>Refusals\<close>

definition insecure_secret :: exc where
  "insecure_secret = RuntimeError (''SESSION_SECRET is the insecure default while COOKIE_SECURE is enabled. ''
     @ ''Set SESSION_SECRET to a strong random value (e.g. `openssl rand -hex 32`) - ''
     @ ''it signs the session-id cookie and the OIDC login transaction.'')"

definition both_planes :: exc where
  "both_planes = RuntimeError (''Both OIDC_ENABLED (tenant plane) and PROVIDER_OIDC_ENABLED (provider plane) are set. ''
     @ ''A tenant-stack BFF must not carry the provider IdP (ADR-0013 '' @ [CHR 0xA7] @ ''2/'' @ [CHR 0xA7] @ ''5). Deploy the ''
     @ ''provider console separately: it sets PROVIDER_OIDC_* and leaves OIDC_* unset. ''
     @ ''Break-glass password login stays available in both.'')"

definition shared_cookie :: "string \<Rightarrow> exc" where
  "shared_cookie domain = RuntimeError (''COOKIE_DOMAIN is set ('' @ repr_str domain @ ''). The BFF session cookie is ''
     @ ''deliberately host-scoped: under per-tenant subdomains a parent-domain cookie is ''
     @ ''sent to every tenant's console, so one tenant's browser session reaches another's ''
     @ ''portal while everything appears to work. Unset it. If you are trying to share a ''
     @ ''session across hostnames, that is the boundary this refuses to cross.'')"

definition startup_refusal :: "settings \<Rightarrow> exc option" where
  "startup_refusal st =
     (if cookie_secure st \<and> session_secret st = default_session_secret then Some insecure_secret
      else if oidc_enabled st \<and> provider_oidc_enabled st then Some both_planes
      else if cookie_domain st \<noteq> [] then Some (shared_cookie (cookie_domain st))
      else None)"

definition registry_of :: "settings \<Rightarrow> exc + (string \<times> tenant_entry) list" where
  "registry_of st =
     (case load_tenant_registry (provider_tenant_registry st) of
        Inl (ValueError why) \<Rightarrow> Inl (RuntimeError why)
      | r \<Rightarrow> r)"

section \<open>The state\<close>

datatype session_backend =
    Memory_Backend int
  | Redis_Backend string int string

definition session_namespace :: "settings \<Rightarrow> string" where
  "session_namespace st = (if provider_oidc_enabled st then ''provider'' else ''tenant:'' @ audit_tenant st)"

definition sessions_of :: "settings \<Rightarrow> session_backend" where
  "sessions_of st =
     (if session_redis_url st = [] then Memory_Backend (session_ttl_seconds st)
      else Redis_Backend (session_redis_url st) (session_ttl_seconds st) (session_namespace st))"

definition oidc_client_of :: "settings \<Rightarrow> exc + oidc_client option" where
  "oidc_client_of st =
     (if oidc_enabled st then bind_result (new_oidc_client (tenant_view st)) (\<lambda>c. Inr (Some c)) else Inr None)"

definition provider_client_of :: "settings \<Rightarrow> exc + oidc_client option" where
  "provider_client_of st =
     (if provider_oidc_enabled st then bind_result (oidc_for_provider st) (\<lambda>c. Inr (Some c)) else Inr None)"

definition keyring_of :: "crypto \<Rightarrow> settings \<Rightarrow> exc + keyring" where
  "keyring_of c st =
     (if audit_content_key st = [] then Inr []
      else if \<not> is_ascii (audit_content_key st) then Inl (ValueError ''ordinal not in range(128)'')
      else keyring_add c (audit_tenant st) (audit_content_key st) [])"

text \<open>The dash of the notice is a hyphen here.\<close>

definition clear_notice :: string where
  "clear_notice = ''[audit] AUDIT_CONTENT_KEY is not set - audit content is written in the clear ''
     @ ''and this tenant cannot be crypto-shredded on offboarding (ADR-0013 '' @ [CHR 0xA7] @ ''10).''"

text \<open>The audit log a process finds on its disk.\<close>

record audit_disk =
  ad_instance :: string
  ad_lines :: "string list"
  ad_writable :: bool

definition audit_log_of :: "settings \<Rightarrow> keyring \<Rightarrow> audit_disk \<Rightarrow> audit_log" where
  "audit_log_of st ks disk =
     new_audit_log (audit_path st \<noteq> []) (audit_tenant st) ks
       (if audit_pseudonym_key st = [] then None else Some (audit_pseudonym_key st)) (ad_instance disk) True (ad_lines disk)"

definition app_env :: "env \<Rightarrow> settings \<Rightarrow> ip_net list \<Rightarrow> env" where
  "app_env E st nets =
     E\<lparr>cfg := st, own_gateway := new_gateway_client (gateway_url st) (gateway_token st) (gateway_api_prefix st),
       trusted_nets := nets\<rparr>"

definition app_world ::
  "settings \<Rightarrow> (string \<times> tenant_entry) list \<Rightarrow> oidc_client option \<Rightarrow> oidc_client option \<Rightarrow> keyring \<Rightarrow> audit_disk \<Rightarrow> world" where
  "app_world st registry tenant_rp provider_rp ks disk =
     \<lparr>ticks = 0, draws = 0, trace = [], store = new_mem_store (session_ttl_seconds st),
      throttle_state = new_throttle (login_max_failures st) (login_window_seconds st),
      audit = audit_log_of st ks disk,
      sink = \<lparr>file_lines = ad_lines disk, writable = ad_writable disk,
              printed = (if audit_content_key st = [] then [clear_notice] else [])\<rparr>,
      oidc = tenant_rp, provider_oidc = provider_rp,
      directory = new_tenant_directory registry,
      pool = \<lparr>gp_prefix = gateway_api_prefix st, gp_clients = []\<rparr>,
      catalog = new_catalog_client st (\<not> provider_oidc_enabled st),
      cookie = [], cached = None, rid = ''''\<rparr>"

definition create_app :: "env \<Rightarrow> settings \<Rightarrow> audit_disk \<Rightarrow> exc + env \<times> world \<times> session_backend" where
  "create_app E st disk =
     (case startup_refusal st of
        Some e \<Rightarrow> Inl e
      | None \<Rightarrow>
          bind_result (registry_of st) (\<lambda>registry.
          bind_result (oidc_client_of st) (\<lambda>tenant_rp.
          bind_result (provider_client_of st) (\<lambda>provider_rp.
          bind_result (parse_trusted_proxy_cidrs (trusted_proxy_cidrs st)) (\<lambda>nets.
          bind_result (keyring_of (crypt E) st) (\<lambda>ks.
            Inr (app_env E st nets, app_world st registry tenant_rp provider_rp ks disk, sessions_of st)))))))"

text \<open>
  From the environment on: the settings are loaded, the first-run bootstrap fills in what is
  missing, and the console is built.
\<close>

definition start_app ::
  "env \<Rightarrow> host \<Rightarrow> state_dir \<Rightarrow> (string \<Rightarrow> string) \<Rightarrow> audit_disk \<Rightarrow> exc + env \<times> world \<times> session_backend" where
  "start_app E h sd fresh disk =
     bind_result (load_settings h) (\<lambda>st.
       create_app E (br_settings (apply_first_run_bootstrap st
         (sd\<lparr>sd_path := getenv h ''BFF_STATE_DIR'' ''''\<rparr>) fresh)) disk)"

section \<open>The routes of a deployment\<close>

datatype call =
    Auth_Config
  | Login string
  | Logout
  | Me
  | Oidc_Login
  | Oidc_Callback callback
  | Provider_Login
  | Provider_Callback callback
  | Api api_call
  | Support_Route support_call
  | Provider_Route provider_call
  | Redeem bool
  | Healthz

fun mounted :: "settings \<Rightarrow> call \<Rightarrow> bool" where
  "mounted st (Support_Route c) = (\<not> provider_oidc_enabled st)"
| "mounted st (Provider_Route c) = provider_oidc_enabled st"
| "mounted st (Redeem b) = provider_oidc_enabled st"
| "mounted st _ = True"

definition healthz :: "(world, reply) act" where
  "healthz = ret (Json_Body (JObj [(''status'', JStr ''ok'')]))"

fun route :: "env \<Rightarrow> http_request \<Rightarrow> call \<Rightarrow> (world, reply) act" where
  "route E q Auth_Config = auth_config E"
| "route E q (Login password) = login E q password"
| "route E q Logout = logout E q"
| "route E q Me = me E"
| "route E q Oidc_Login = oidc_login E"
| "route E q (Oidc_Callback cb) = oidc_callback E q cb"
| "route E q Provider_Login = provider_login E"
| "route E q (Provider_Callback cb) = provider_callback E q cb"
| "route E q (Api c) = api E q c"
| "route E q (Support_Route c) = support E q c"
| "route E q (Provider_Route c) = provider E q c"
| "route E q (Redeem b) = redeem E q b"
| "route E q Healthz = healthz"

definition not_found :: exc where
  "not_found = HTTPException 404 (JStr ''Not Found'') []"

section \<open>One request\<close>

record incoming =
  in_request :: http_request
  in_cookie :: dict
  in_call :: call

text \<open>The id of the request: the caller's, or a new one when that is absent or empty.\<close>

definition request_rid :: "env \<Rightarrow> http_request \<Rightarrow> (world, string) act" where
  "request_rid E q =
     (case header_get (q_headers q) correlation_header of
        Some (c # cs) \<Rightarrow> ret (c # cs)
      | _ \<Rightarrow> draw E)"

definition dispatch :: "env \<Rightarrow> http_request \<Rightarrow> call \<Rightarrow> (world, reply) act" where
  "dispatch E q c = (if mounted (cfg E) c then route E q c else throw not_found)"

text \<open>
  \<open>correlate\<close>: the route runs with the id bound, the previous one comes back, and the answer
  carries the id in a header. A new request starts with its own cookie and nothing cached.
\<close>

definition serve :: "env \<Rightarrow> incoming \<Rightarrow> world \<Rightarrow> (string \<times> (exc + reply)) \<times> world" where
  "serve E i s =
     (let before = rid s; s0 = s\<lparr>cookie := in_cookie i, cached := None\<rparr> in
      (case request_rid E (in_request i) s0 of
         (Inl e, s1) \<Rightarrow> (('''', Inl e), s1)
       | (Inr r, s1) \<Rightarrow>
           (case dispatch E (in_request i) (in_call i) (s1\<lparr>rid := r\<rparr>) of
              (answered, s2) \<Rightarrow> ((r, answered), s2\<lparr>rid := before\<rparr>))))"

definition serve_all :: "env \<Rightarrow> incoming list \<Rightarrow> world \<Rightarrow> world" where
  "serve_all E is s = fold (\<lambda>i s. snd (serve E i s)) is s"

section \<open>What a deployment can be\<close>

text \<open>C10. A console that starts is of one plane: it never holds both identity providers' clients, only a
  provider console mounts the provider's routes, it has no tenant's own credential to learn a catalog with
  and declares no tenant to it, and its sessions live in a namespace of their own; no console starts
  with the public secret behind TLS or with a cookie shared across hosts.\<close>

theorem deployment_is_one_plane:
  assumes "create_app E st disk = Inr (E', s, backend)"
  shows "\<not> (oidc s \<noteq> None \<and> provider_oidc s \<noteq> None) \<and> (provider_oidc s \<noteq> None \<longleftrightarrow> provider_oidc_enabled (cfg E'))
    \<and> (\<forall>c. mounted (cfg E') (Provider_Route c) = (provider_oidc s \<noteq> None) \<and> mounted (cfg E') (Redeem b) = (provider_oidc s \<noteq> None))
    \<and> (\<forall>c. mounted (cfg E') (Support_Route c) = (provider_oidc s = None))
    \<and> (provider_oidc s \<noteq> None \<longrightarrow> \<not> cc_has_resolver (catalog s) \<and> declares s = [])
    \<and> (case backend of Redis_Backend u t ns \<Rightarrow> (ns = ''provider'') = (provider_oidc s \<noteq> None) | Memory_Backend t \<Rightarrow> True)
    \<and> \<not> (cookie_secure (cfg E') \<and> session_secret (cfg E') = default_session_secret) \<and> cookie_domain (cfg E') = []"
proof -
  obtain registry tenant_rp provider_rp nets ks where
    ok: "startup_refusal st = None" and parts: "oidc_client_of st = Inr tenant_rp" "provider_client_of st = Inr provider_rp"
    and E': "E' = app_env E st nets" and s: "s = app_world st registry tenant_rp provider_rp ks disk" and b: "backend = sessions_of st"
    using assms by (auto simp: create_app_def bind_result_Inr split: option.splits)
  have t: "tenant_rp \<noteq> None \<longleftrightarrow> oidc_enabled st" and p: "provider_rp \<noteq> None \<longleftrightarrow> provider_oidc_enabled st"
    using parts by (auto simp: oidc_client_of_def provider_client_of_def bind_result_Inr split: if_splits)
  have safe: "\<not> (cookie_secure st \<and> session_secret st = default_session_secret)" "\<not> (oidc_enabled st \<and> provider_oidc_enabled st)"
    "cookie_domain st = []"
    using ok by (auto simp: startup_refusal_def split: if_splits)
  have decl: "declares s = (if provider_oidc_enabled st \<or> tenant_id st = [] then [] else [tenant_id st])"
    unfolding declares_def s app_world_def by (simp add: new_catalog_declaration)
  have res: "cc_has_resolver (catalog s) = (\<not> provider_oidc_enabled st)"
    by (simp add: s app_world_def new_catalog_client_def Let_def)
  have f: "cfg E' = st" "oidc s = tenant_rp" "provider_oidc s = provider_rp"
    by (simp_all add: E' app_env_def s app_world_def)
  show ?thesis
    using t p safe decl res by (auto simp: f b sessions_of_def session_namespace_def)
qed

definition demo_disk :: audit_disk where
  "demo_disk = \<lparr>ad_instance = ''i'', ad_lines = [], ad_writable = True\<rparr>"

theorem deployment_is_one_plane_witness:
  "\<exists>E s b. create_app (demo_env (answer 200 ''{}'')) demo_settings demo_disk = Inr (E, s, b)
     \<and> provider_oidc s = None \<and> mounted (cfg E) (Support_Route This_Tenant)"
proof -
  let ?run = "create_app (demo_env (answer 200 ''{}'')) demo_settings demo_disk"
  have "(case ?run of Inr (E, s, b) \<Rightarrow> provider_oidc s = None | Inl e \<Rightarrow> False)" by code_simp
  then obtain E s b where run: "?run = Inr (E, s, b)" and none: "provider_oidc s = None"
    by (cases ?run) auto
  from deployment_is_one_plane [OF run] none run show ?thesis by auto
qed

text \<open>C40. A console started with a working state directory is never an open one, whatever its environment
  left out: it has a session secret that is neither empty nor the public default, an admin password,
  and an audit trail in a file, sealed with a key and with pseudonyms for the provider's operators.\<close>

theorem started_console_secured:
  assumes run: "start_app E h sd fresh disk = Inr (E', s, backend)"
    and dir: "py_strip (getenv h ''BFF_STATE_DIR'' '''') \<noteq> []" "sd_ready sd" "sd_writable sd"
    and fresh: "\<forall>k. fresh k \<noteq> [] \<and> fresh k \<noteq> default_session_secret"
    and stored: "map_of (load_state sd) ''session_secret'' \<noteq> Some default_session_secret"
  shows "session_secret (cfg E') \<notin> {[], default_session_secret} \<and> ui_admin_password (cfg E') \<noteq> []
    \<and> has_path (audit s) \<and> log_keys (audit s) \<noteq> [] \<and> pseudonym_key (audit s) \<noteq> None"
proof -
  let ?sd = "sd\<lparr>sd_path := getenv h ''BFF_STATE_DIR'' ''''\<rparr>"
  obtain st where created: "create_app E (br_settings (apply_first_run_bootstrap st ?sd fresh)) disk = Inr (E', s, backend)"
    using run by (auto simp: start_app_def bind_result_Inr)
  define st' where "st' = br_settings (apply_first_run_bootstrap st ?sd fresh)"
  have "load_state ?sd = load_state sd" by (simp add: load_state_def)
  then have secure: "session_secret st' \<notin> {[], default_session_secret}" "ui_admin_password st' \<noteq> []"
    "audit_content_key st' \<noteq> []" "audit_pseudonym_key st' \<noteq> []" "audit_path st' \<noteq> []"
    using bootstrap_secures [of st ?sd fresh st'] dir fresh stored by (simp_all add: st'_def)
  obtain registry tenant_rp provider_rp nets ks where ks: "keyring_of (crypt E) st' = Inr ks"
    and app: "E' = app_env E st' nets" "s = app_world st' registry tenant_rp provider_rp ks disk"
    using created by (auto simp: create_app_def bind_result_Inr st'_def [symmetric] split: option.splits)
  have "ks \<noteq> []"
    using ks secure(3) by (auto simp: keyring_of_def keyring_add_def split: if_splits)
  then show ?thesis
    using secure by (simp add: app app_env_def app_world_def audit_log_of_def new_audit_log_fields)
qed

definition demo_box :: host where
  "demo_box = bare_host\<lparr>env_var := [''BFF_STATE_DIR'' \<mapsto> ''/state'']\<rparr>"

lemma demo_box_loads:
  obtains st where "load_settings demo_box = Inr st" "\<not> oidc_enabled st" "\<not> provider_oidc_enabled st" "\<not> cookie_secure st"
    "cookie_domain st = []" "provider_tenant_registry st = []" "trusted_proxy_cidrs st = []" "audit_content_key st = []"
proof -
  have "env_int demo_box n d = (case py_int d of Some i \<Rightarrow> Inr i | None \<Rightarrow> Inl (ValueError ''invalid literal for int()''))"
    if "n \<noteq> ''BFF_STATE_DIR''" for n d
    using that by (simp add: env_int_def getenv_def demo_box_def bare_host_def)
  moreover have "py_int ''28800'' = Some 28800" "py_int ''5'' = Some 5" "py_int ''60'' = Some 60" by code_simp+
  moreover have proxies: "trusted_proxy_values demo_box = Inr []" and "json_map demo_box ''PROVIDER_GROUP_SCOPES'' = Inr []"
    by code_simp+
  ultimately obtain st where st: "load_settings demo_box = Inr st" by (simp add: load_settings_def bind_result_def)
  have "oidc_enabled st = env_flag demo_box ''OIDC_ENABLED''"
    "provider_oidc_enabled st = env_flag demo_box ''PROVIDER_OIDC_ENABLED''"
    "cookie_secure st = env_flag demo_box ''COOKIE_SECURE''"
    "cookie_domain st = py_strip (getenv demo_box ''COOKIE_DOMAIN'' '''')"
    "provider_tenant_registry st = secret demo_box ''PROVIDER_TENANT_REGISTRY'' ''PROVIDER_TENANT_REGISTRY_FILE''"
    "audit_content_key st = secret demo_box ''AUDIT_CONTENT_KEY'' ''AUDIT_CONTENT_KEY_FILE''"
    "trusted_proxy_cidrs st = []"
    using st proxies by (auto simp: load_settings_def bind_result_Inr)
  moreover have "\<not> env_flag demo_box ''OIDC_ENABLED''" "\<not> env_flag demo_box ''PROVIDER_OIDC_ENABLED''"
    "\<not> env_flag demo_box ''COOKIE_SECURE''" "py_strip (getenv demo_box ''COOKIE_DOMAIN'' '''') = []"
    "secret demo_box ''PROVIDER_TENANT_REGISTRY'' ''PROVIDER_TENANT_REGISTRY_FILE'' = []"
    "secret demo_box ''AUDIT_CONTENT_KEY'' ''AUDIT_CONTENT_KEY_FILE'' = []"
    by code_simp+
  ultimately show ?thesis using that [OF st] by simp
qed

lemma demo_box_starts:
  obtains E s b where "start_app (demo_env (answer 200 ''{}'')) demo_box demo_state_dir demo_fresh demo_disk = Inr (E, s, b)"
proof -
  obtain st where st: "load_settings demo_box = Inr st" and off: "\<not> oidc_enabled st" "\<not> provider_oidc_enabled st"
    "\<not> cookie_secure st" "cookie_domain st = []" "provider_tenant_registry st = []" "trusted_proxy_cidrs st = []"
    "audit_content_key st = []"
    by (rule demo_box_loads)
  define st' where "st' = bootstrapped st [] demo_fresh ''/state''"
  have dir: "getenv demo_box ''BFF_STATE_DIR'' '''' = ''/state''" "py_strip ''/state'' = ''/state''" by code_simp+
  have boot: "br_settings (apply_first_run_bootstrap st (demo_state_dir\<lparr>sd_path := ''/state''\<rparr>) demo_fresh) = st'"
    by (simp add: apply_first_run_bootstrap_def run_bootstrap_def dir demo_state_dir_def load_state_def st'_def Let_def)
  have "audit_content_key st' = ''new-audit_content_key''"
    using off(7) by (simp add: st'_def bootstrapped_def content_choice_def pick_secret_def chosen_def demo_fresh_def)
  then have key: "\<exists>ks. keyring_of demo_crypto st' = Inr ks"
    by (simp add: keyring_of_def keyring_add_def demo_crypto_def is_ascii_def)
  have "startup_refusal st' = None" "registry_of st' = Inr []" "oidc_client_of st' = Inr None" "provider_client_of st' = Inr None"
    "parse_trusted_proxy_cidrs (trusted_proxy_cidrs st') = Inr []"
    using off by (simp_all add: st'_def bootstrapped_def startup_refusal_def registry_of_def load_tenant_registry_def
        oidc_client_of_def provider_client_of_def py_strip_def lstrip_by_def rstrip_by_def)
  with key have "\<exists>v. create_app (demo_env (answer 200 ''{}'')) st' demo_disk = Inr v"
    by (auto simp: create_app_def bind_result_def demo_env_def)
  then show ?thesis using that by (auto simp: start_app_def bind_result_def st dir boot)
qed

theorem started_console_secured_witness:
  "\<exists>E s b. start_app (demo_env (answer 200 ''{}'')) demo_box demo_state_dir demo_fresh demo_disk = Inr (E, s, b)
     \<and> session_secret (cfg E) \<noteq> default_session_secret \<and> log_keys (audit s) \<noteq> []"
proof -
  obtain E s b where run: "start_app (demo_env (answer 200 ''{}'')) demo_box demo_state_dir demo_fresh demo_disk = Inr (E, s, b)"
    by (rule demo_box_starts)
  have "py_strip (getenv demo_box ''BFF_STATE_DIR'' '''') \<noteq> []" by code_simp
  moreover have "sd_ready demo_state_dir" "sd_writable demo_state_dir"
    "\<forall>k. demo_fresh k \<noteq> [] \<and> demo_fresh k \<noteq> default_session_secret"
    "map_of (load_state demo_state_dir) ''session_secret'' \<noteq> Some default_session_secret"
    by (simp_all add: demo_state_dir_def demo_fresh_def default_session_secret_def load_state_def)
  ultimately show ?thesis using started_console_secured [OF run] run by blast
qed

end
