(* ===== verification/Invariants.thy ===== *)
theory Invariants
  imports App
begin

text \<open>
  What every request of the application keeps. The locale \<open>session_invariant\<close> says what an
  invariant has to tolerate of the primitive steps (a read and a write of the session store, a lock
  taken and given back, a record of the audit log, whatever touches none of these) and which
  sessions it lets through; inside it, every handler of the application is shown to keep it. Its
  interpretations are in \<open>Whole_App\<close>.
\<close>

section \<open>Keeping an invariant\<close>

definition keeps :: "(world \<Rightarrow> bool) \<Rightarrow> ('a \<Rightarrow> bool) \<Rightarrow> (world, 'a) act \<Rightarrow> bool" where
  "keeps I Q m \<longleftrightarrow> (\<forall>s. I s \<longrightarrow> I (snd (m s)) \<and> (\<forall>x. fst (m s) = Inr x \<longrightarrow> Q x))"

lemma keepsD: "keeps I Q m \<Longrightarrow> I s \<Longrightarrow> m s = (r, s') \<Longrightarrow> I s' \<and> (\<forall>x. r = Inr x \<longrightarrow> Q x)"
  unfolding keeps_def by (metis fst_conv snd_conv)

lemma keepsI: "(\<And>s r s'. I s \<Longrightarrow> m s = (r, s') \<Longrightarrow> I s' \<and> (\<forall>x. r = Inr x \<longrightarrow> Q x)) \<Longrightarrow> keeps I Q m"
  unfolding keeps_def by (metis prod.collapse)

lemma keeps_weaken: "keeps I Q m \<Longrightarrow> keeps I (\<lambda>_. True) m"
  by (simp add: keeps_def)

lemma keeps_ret: "Q x \<Longrightarrow> keeps I Q (ret x)"
  by (simp add: keeps_def act_simps)

lemma keeps_throw: "keeps I Q (throw e)"
  by (simp add: keeps_def act_simps)

lemma keeps_reading: "(\<And>s. I s \<Longrightarrow> Q (f s)) \<Longrightarrow> keeps I Q (reading f)"
  by (simp add: keeps_def act_simps)

lemma keeps_updating: "(\<And>s. I s \<Longrightarrow> I (f s)) \<Longrightarrow> keeps I (\<lambda>_. True) (updating f)"
  by (simp add: keeps_def act_simps)

lemma keeps_andthen: "keeps I Q m \<Longrightarrow> (\<And>x. Q x \<Longrightarrow> keeps I P (k x)) \<Longrightarrow> keeps I P (andthen m k)"
proof (rule keepsI)
  fix s r s'
  assume m: "keeps I Q m" and k: "\<And>x. Q x \<Longrightarrow> keeps I P (k x)" and "I s" "andthen m k s = (r, s')"
  then show "I s' \<and> (\<forall>x. r = Inr x \<longrightarrow> P x)"
    using keepsD [OF m \<open>I s\<close>] keepsD [OF k] by (auto simp: act_simps split: prod.splits sum.splits)
qed

lemma keeps_catch: "keeps I P m \<Longrightarrow> (\<And>e. keeps I P (h e)) \<Longrightarrow> keeps I P (catch m h)"
proof (rule keepsI)
  fix s r s'
  assume m: "keeps I P m" and h: "\<And>e. keeps I P (h e)" and "I s" "catch m h s = (r, s')"
  then show "I s' \<and> (\<forall>x. r = Inr x \<longrightarrow> P x)"
    using keepsD [OF m \<open>I s\<close>] keepsD [OF h] by (auto simp: act_simps split: prod.splits sum.splits)
qed

lemma keeps_finally: "keeps I P m \<Longrightarrow> keeps I (\<lambda>_. True) f \<Longrightarrow> keeps I P (finally_do m f)"
proof (rule keepsI)
  fix s r s'
  assume m: "keeps I P m" and f: "keeps I (\<lambda>_. True) f" and "I s" "finally_do m f s = (r, s')"
  then show "I s' \<and> (\<forall>x. r = Inr x \<longrightarrow> P x)"
    using keepsD [OF m \<open>I s\<close>] keepsD [OF f] by (auto simp: finally_do_def split: prod.splits sum.splits)
qed

lemma keeps_if: "(c \<Longrightarrow> keeps I P a) \<Longrightarrow> (\<not> c \<Longrightarrow> keeps I P b) \<Longrightarrow> keeps I P (if c then a else b)"
  by simp

lemma keeps_option: "(v = None \<Longrightarrow> keeps I P a) \<Longrightarrow> (\<And>x. v = Some x \<Longrightarrow> keeps I P (f x)) \<Longrightarrow>
    keeps I P (case v of None \<Rightarrow> a | Some x \<Rightarrow> f x)"
  by (cases v) auto

lemma keeps_pair: "(\<And>a b. v = (a, b) \<Longrightarrow> keeps I P (f a b)) \<Longrightarrow> keeps I P (case v of (a, b) \<Rightarrow> f a b)"
  by (cases v) auto

lemma keeps_let: "keeps I P (f v) \<Longrightarrow> keeps I P (let x = v in f x)"
  by (simp add: Let_def)

lemmas keeps_combinators =
  keeps_ret keeps_throw keeps_andthen keeps_catch keeps_finally keeps_if keeps_option keeps_pair keeps_let

section \<open>What no session depends on\<close>

definition same_core :: "world \<Rightarrow> world \<Rightarrow> bool" where
  "same_core s s' \<longleftrightarrow> store s' = store s \<and> cached s' = cached s \<and> audit s' = audit s \<and> sink s' = sink s
     \<and> cookie s' = cookie s \<and> map_option oc_view (oidc s') = map_option oc_view (oidc s)
     \<and> map_option oc_view (provider_oidc s') = map_option oc_view (provider_oidc s)"

interpretation core: step_order same_core
  by unfold_locales (auto simp: same_core_def)

lemma net_frame_core: "net_frame s s' \<Longrightarrow> same_core s s'"
  by (auto simp: net_frame_def same_core_def)

lemma idp_frame_core: "idp_frame s s' \<Longrightarrow> same_core s s'"
  by (cases s; cases s') (simp add: idp_frame_def same_core_def)

lemma core_net: "stable net_frame m \<Longrightarrow> stable same_core m"
  using net_frame_core by (simp add: stable_def)

lemma core_idp: "stable idp_frame m \<Longrightarrow> stable same_core m"
  using idp_frame_core by (simp add: stable_def)

lemma core_updating: "(\<And>s. same_core s (f s)) \<Longrightarrow> stable same_core (updating f)"
  by (rule core.stable_updating)

lemma core_tick [stable_intros]: "stable same_core (tick f)"
  by (simp add: stable_def same_core_def tick_def)

lemma core_draw [stable_intros]: "stable same_core (draw E)"
  by (simp add: stable_def same_core_def draw_def)

lemma core_send [stable_intros]: "stable same_core (send E w)"
  by (simp add: stable_def same_core_def send_def split: sum.split)

lemma core_lift [stable_intros]: "stable same_core (lift_result r)"
  by (rule core_idp) (rule stable_intros)


lemma core_quiet:
  "stable same_core (request_json q)" "stable same_core (body_object resp)" "stable same_core (require_key d k)"
  "stable same_core (json_object resp)"
  by (auto simp: request_json_def body_object_def require_key_def json_object_def
      intro: core.stable_combinators split: option.split json.split)

lemma core_pool_get: "stable same_core (pool_get E tid)"
proof -
  have "stable same_core (token_for E tid e)" for e
    unfolding token_for_def
    by (auto intro!: core.stable_combinators core_net [OF net_gateway_credential] split: option.split)
  moreover have "stable same_core (add_client tid gc)" for gc
    unfolding add_client_def by (intro core.stable_combinators core_updating) (simp add: same_core_def)
  ultimately have "stable same_core (case directory_get (directory s) tid of
         Inl e \<Rightarrow> throw e
       | Inr entry \<Rightarrow>
           (case map_of (gp_clients (pool s)) tid of
              Some gc \<Rightarrow> ret gc
            | None \<Rightarrow>
                andthen (token_for E tid entry) (\<lambda>token.
                  add_client tid (new_gateway_client (te_gateway_url entry) token (gp_prefix (pool s))))))" for s
    by (auto intro!: core.stable_combinators split: sum.split option.split)
  then show ?thesis unfolding pool_get_def by (intro core.stable_andthen core.stable_reading)
qed

lemma core_directory_refresh: "stable same_core (directory_refresh E)"
proof -
  have dir: "stable same_core (updating (\<lambda>s. s\<lparr>directory := f s\<rparr>))" for f
    by (rule core_updating) (simp add: same_core_def)
  have "stable same_core (accept_listing answered)" for answered
    unfolding accept_listing_def refresh_failed_def refresh_done_def
    by (auto intro!: core.stable_combinators dir split: option.split sum.split)
  then show ?thesis
    unfolding directory_refresh_def
    by (intro core.stable_combinators core_net [OF net_is_configured] core_net [OF net_try_catalog] dir)
qed

lemma core_pool_invalidate: "stable same_core (pool_invalidate tid)"
  unfolding pool_invalidate_def by (rule core_updating) (simp add: same_core_def)

lemma core_gateway_for_tenant: "stable same_core (grant_gateway E tid)" "stable same_core (tenant_gateway E tid)"
proof -
  have 1: "stable same_core (catch (pool_get E t) h)" if "\<And>e. stable same_core (h e)" for t h
    by (intro core.stable_catch core_pool_get that)
  show "stable same_core (grant_gateway E tid)" "stable same_core (tenant_gateway E tid)"
    unfolding grant_gateway_def tenant_gateway_def
    by (auto intro!: 1 intro: core.stable_throw split: json.split exc.split)
qed

lemma core_catalog_or: "stable same_core (catalog_or E meth path body f)"
  unfolding catalog_or_def
  by (intro core.stable_catch core_net [OF net_catalog_request]) (auto intro: core.stable_throw split: exc.split)

lemma core_call_tenant: "stable same_core (call_tenant E gw meth path tid body)"
  unfolding call_tenant_def
  by (intro core.stable_catch core_net [OF net_gateway(2)]) (auto intro: core.stable_throw split: exc.split)

lemma core_enrolment:
  "stable same_core (try_enrol E f)" "stable same_core (withdraw_from_catalog E tid)" "stable same_core (record_credential E tid b i)"
proof -
  note cat = core_net [OF net_catalog_request]
  have "stable same_core (enrol_in_catalog E f)"
    unfolding enrol_in_catalog_def by (intro core.stable_combinators cat core_quiet core_lift)
  then show "stable same_core (try_enrol E f)"
    unfolding try_enrol_def by (intro core.stable_catch) (auto intro: core.stable_throw split: exc.split)
  show "stable same_core (withdraw_from_catalog E tid)" "stable same_core (record_credential E tid b i)"
    unfolding withdraw_from_catalog_def record_credential_def by (intro core.stable_combinators cat)+
qed

lemma core_throttle:
  "stable same_core (throttle_retry_after E ip)" "stable same_core (throttle_record_failure E ip)"
  "stable same_core (throttle_record_success ip)"
proof -
  show "stable same_core (throttle_retry_after E ip)"
    unfolding throttle_retry_after_def
    by (intro core.stable_andthen core_tick) (simp add: stable_def same_core_def split: prod.split)
  show "stable same_core (throttle_record_failure E ip)"
    unfolding throttle_record_failure_def
    by (intro core.stable_andthen core_tick) (simp add: stable_def same_core_def split: sum.split)
  show "stable same_core (throttle_record_success ip)"
    unfolding throttle_record_success_def by (rule core_updating) (simp add: same_core_def)
qed

lemma core_exchange: "stable same_core (exchange_and_validate E p c tx)"
  unfolding exchange_and_validate_def
  by (intro core.stable_combinators core_quiet core_idp [OF idp_frame_exchange_code] core_idp [OF idp_frame_validate_id_token])

section \<open>The contract of an invariant\<close>

definition good_opt :: "(dict \<Rightarrow> bool) \<Rightarrow> dict option \<Rightarrow> bool" where
  "good_opt good d \<longleftrightarrow> (\<forall>x. d = Some x \<longrightarrow> good x)"

lemma good_opt_simps [simp]: "good_opt good None" "good_opt good (Some d) = good d"
  by (simp_all add: good_opt_def)

text \<open>The keys of the login transactions in the cookie, and what a login puts there.\<close>

definition tx_keys :: "string list" where
  "tx_keys = [''oidc_tx'', ''provider_oidc_tx'']"

definition login_tx :: "string \<Rightarrow> string \<Rightarrow> string \<Rightarrow> json" where
  "login_tx state nonce verifier = JObj [(''state'', JStr state), (''nonce'', JStr nonce), (''verifier'', JStr verifier)]"

locale session_invariant =
  fixes E :: env and I :: "nat list \<Rightarrow> world \<Rightarrow> bool" and good :: "dict \<Rightarrow> bool"
  assumes core: "I held s \<Longrightarrow> same_core s s' \<Longrightarrow> I held s'"
    and cached_good: "I held s \<Longrightarrow> cached s = Some v \<Longrightarrow> good_opt good v"
    and caching: "I held s \<Longrightarrow> good_opt good v \<Longrightarrow> I held (s\<lparr>cached := Some v\<rparr>)"
    and forgetting: "I held s \<Longrightarrow> I held (s\<lparr>cached := None\<rparr>)"
    and reads: "I held s \<Longrightarrow> mem_get sid now (store s) = (v, st) \<Longrightarrow> I held (s\<lparr>store := st\<rparr>) \<and> good_opt good v"
    and writes: "I held s \<Longrightarrow> good d \<Longrightarrow> I held (s\<lparr>store := mem_set sid d now now' (store s)\<rparr>)"
    and deletes: "I held s \<Longrightarrow> I held (s\<lparr>store := mem_delete sid (store s)\<rparr>)"
    and locks: "I held s \<Longrightarrow> mem_lock sid (store s) = (l, st) \<Longrightarrow> I (l # held) (s\<lparr>store := st\<lparr>mheld := l # mheld st\<rparr>\<rparr>)"
    and releases: "I (l # held) s \<Longrightarrow> I held (s\<lparr>store := mem_release l (store s)\<rparr>)"
    and records: "I held s \<Longrightarrow> e_tenant e = None \<Longrightarrow> record_entry (crypt E) e (audit s, sink s) = (u, lg, snk) \<Longrightarrow> I held (s\<lparr>audit := lg, sink := snk\<rparr>)"
    and password_sessions: "good (password_session r)"
    and oidc_sessions: "I held s \<Longrightarrow> oidc s \<noteq> None \<Longrightarrow> good (oidc_session tokens claims)"
    and provider_sessions: "I held s \<Longrightarrow> provider_oidc s \<noteq> None \<Longrightarrow> good (provider_session tokens claims scopes)"
    and changes: "good d \<Longrightarrow> k \<noteq> ''kind'' \<Longrightarrow> k \<noteq> ''plane'' \<Longrightarrow> good (dict_set k val d) \<and> good (dict_pop k d)"
    and cookie_sid: "I held s \<Longrightarrow> I held (s\<lparr>cookie := [(cookie_sid_key, JStr (random_token E n))]\<rparr>)"
    and cookie_clear: "I held s \<Longrightarrow> I held (s\<lparr>cookie := []\<rparr>)"
    and cookie_pop: "I held s \<Longrightarrow> k \<in> set tx_keys \<Longrightarrow> I held (s\<lparr>cookie := dict_pop k (cookie s)\<rparr>)"
    and cookie_tx: "I held s \<Longrightarrow> k \<in> set tx_keys \<Longrightarrow>
      I held (s\<lparr>cookie := dict_set k (login_tx (random_token E l) (random_token E m) (random_token E n)) (cookie s)\<rparr>)"
begin

lemma keeps_core: "stable same_core m \<Longrightarrow> keeps (I held) (\<lambda>_. True) m"
  using core by (simp add: keeps_def stable_def)

lemma keeps_cache: "good_opt good d \<Longrightarrow> keeps (I held) (\<lambda>_. True) (cache_session d)"
  unfolding cache_session_def by (rule keeps_updating) (rule caching)

lemma keeps_store_get: "keeps (I held) (good_opt good) (store_get E sid)"
proof -
  have "keeps (I held) (good_opt good) (\<lambda>s. case mem_get sid now (store s) of (d, st) \<Rightarrow> (Inr d, s\<lparr>store := st\<rparr>))" for now
    by (rule keepsI) (auto split: prod.splits dest: reads)
  then show ?thesis
    unfolding store_get_def by (intro keeps_andthen [OF keeps_core [OF core_tick]])
qed

lemma keeps_store_set: "good d \<Longrightarrow> keeps (I held) (\<lambda>_. True) (store_set E sid d)"
  unfolding store_set_def
  by (intro keeps_andthen [OF keeps_core [OF core_tick]] keeps_updating) (rule writes)

lemma keeps_store_delete: "keeps (I held) (\<lambda>_. True) (store_delete sid)"
  unfolding store_delete_def by (intro keeps_updating) (rule deletes)

lemma keeps_load: "keeps (I held) (good_opt good) (load E)"
proof (rule keepsI)
  fix s r s'
  assume s: "I held s" and run: "load E s = (r, s')"
  show "I held s' \<and> (\<forall>x. r = Inr x \<longrightarrow> good_opt good x)"
  proof (cases "cached s")
    case (Some d)
    then show ?thesis using run s cached_good [OF s Some] by (auto simp: load_def act_simps)
  next
    case None
    have 1: "keeps (I held) (good_opt good) (andthen (store_get E sid) (\<lambda>d. andthen (cache_session d) (\<lambda>_. ret d)))" for sid
      by (intro keeps_andthen [OF keeps_store_get] keeps_andthen [OF keeps_cache] keeps_ret)
    have 2: "keeps (I held) (good_opt good) (andthen (cache_session None) (\<lambda>_. ret None))"
      by (intro keeps_andthen [OF keeps_cache] keeps_ret) auto
    show ?thesis
      using run keepsD [OF 1 s] keepsD [OF 2 s] None by (auto simp: load_def split: option.splits)
  qed
qed

lemma keeps_draw: "keeps (I held) (\<lambda>x. \<exists>n. x = random_token E n) (draw E)"
  using core by (auto simp: keeps_def draw_def same_core_def)

lemma keeps_pop_cookie: "k \<in> set tx_keys \<Longrightarrow> keeps (I held) (\<lambda>_. True) (pop_cookie k)"
  unfolding pop_cookie_def
  by (intro keeps_andthen [where Q = "\<lambda>_. True"] keeps_reading keeps_updating keeps_ret) (auto intro: cookie_pop)

lemma keeps_sid_delete: "keeps (I held) (\<lambda>_. True) (case old of None \<Rightarrow> ret () | Some sid \<Rightarrow> store_delete sid)"
  by (intro keeps_option keeps_ret keeps_store_delete) simp

lemma keeps_any_reading: "keeps (I held) (\<lambda>_. True) (reading f)"
  by (rule keeps_reading) simp

lemma keeps_establish: "good d \<Longrightarrow> keeps (I held) (\<lambda>_. True) (establish E d)"
  unfolding establish_def
  by (intro keeps_andthen [OF keeps_any_reading] keeps_andthen [OF keeps_sid_delete] keeps_andthen [OF keeps_draw]
      keeps_andthen [OF keeps_store_set] keeps_andthen [OF keeps_updating] keeps_andthen [OF keeps_cache] keeps_ret)
    (auto intro: cookie_sid)

lemma keeps_destroy: "keeps (I held) (\<lambda>_. True) destroy"
  unfolding destroy_def
  by (intro keeps_andthen [OF keeps_any_reading] keeps_andthen [OF keeps_sid_delete] keeps_andthen [OF keeps_updating] keeps_cache)
    (auto intro: cookie_clear)

lemma keeps_with_lock: "(\<And>held. keeps (I held) Q m) \<Longrightarrow> keeps (I held) Q (with_lock sid m)"
proof (rule keepsI)
  fix s r s'
  assume m: "\<And>held. keeps (I held) Q m" and s: "I held s" and run: "with_lock sid m s = (r, s')"
  obtain l st where l: "mem_lock sid (store s) = (l, st)" by (cases "mem_lock sid (store s)")
  obtain r1 s1 where m1: "m (s\<lparr>store := st\<lparr>mheld := l # mheld st\<rparr>\<rparr>) = (r1, s1)"
    by (cases "m (s\<lparr>store := st\<lparr>mheld := l # mheld st\<rparr>\<rparr>)")
  have "I (l # held) s1 \<and> (\<forall>x. r1 = Inr x \<longrightarrow> Q x)" by (rule keepsD [OF m locks [OF s l] m1])
  then show "I held s' \<and> (\<forall>x. r = Inr x \<longrightarrow> Q x)" using run releases by (auto simp: with_lock_def l m1)
qed

lemma keeps_current_session: "keeps (I held) (good_opt good) (current_session E)"
  unfolding current_session_def
  by (intro keeps_andthen [OF keeps_load] keeps_ret) (auto split: option.splits)

lemma keeps_persist: "good d \<Longrightarrow> keeps (I held) (\<lambda>_. True) (persist_session E d)"
  unfolding persist_session_def
  by (intro keeps_andthen [OF keeps_any_reading] keeps_option keeps_ret keeps_andthen [OF keeps_with_lock [OF keeps_store_set]] keeps_cache)
    auto

lemma keeps_save: "good d \<Longrightarrow> keeps (I held) (\<lambda>_. True) (save_session E d)"
  unfolding save_session_def by (intro keeps_andthen [OF keeps_cache] keeps_persist) auto

lemma keeps_record_request: "keeps (I held) (\<lambda>_. True) (record_request E q a out t det)"
proof -
  have entry: "I held (case record_entry (crypt E) e (audit s, sink s) of (_, l, k) \<Rightarrow> s\<lparr>audit := l, sink := k\<rparr>)"
    if "I held s" "e_tenant e = None" for e s
    using records [OF that] by (auto split: prod.split)
  show ?thesis
    unfolding record_request_def Let_def
    by (intro keeps_andthen [OF keeps_current_session] keeps_andthen [OF keeps_core [OF core_tick]]
        keeps_andthen [OF keeps_core [OF core_draw]] keeps_updating entry) simp_all
qed

end

section \<open>The relay\<close>

context session_invariant
begin

lemmas keeps_control = keeps_throw keeps_if keeps_option keeps_pair keeps_let

lemmas after_core = keeps_andthen [OF keeps_core]
lemmas after_session = keeps_andthen [OF keeps_current_session]
lemmas after_record = keeps_andthen [OF keeps_record_request]
lemmas after_reading = keeps_andthen [OF keeps_any_reading]

lemma keeps_done: "keeps (I held) (\<lambda>_. True) (ret x)"
  by (rule keeps_ret) simp

lemma good_store_tokens: "good d \<Longrightarrow> good (store_tokens tokens d)"
  using changes by (simp add: store_tokens_def Let_def)

lemma keeps_exchange_and_store: "good d \<Longrightarrow> keeps (I held) (\<lambda>_. True) (exchange_and_store E sid d t)"
proof -
  assume d: "good d"
  have tries: "stable same_core (try_refresh_tokens E t)"
    unfolding try_refresh_tokens_def by (intro core.stable_combinators core_idp [OF idp_frame_refresh_tokens])
  have 1: "keeps (I held) (\<lambda>_. True) (andthen (store_set E sid (store_tokens tk d)) (\<lambda>_.
        andthen (cache_session (Some (store_tokens tk d))) (\<lambda>_. ret v)))" for tk v
    using good_store_tokens [OF d]
    by (intro keeps_andthen [OF keeps_store_set] keeps_andthen [OF keeps_cache] keeps_done) auto
  show ?thesis
    unfolding exchange_and_store_def
    by (intro after_core [OF tries]) (auto intro: keeps_done keeps_throw 1 split: option.split json.split)
qed

lemma keeps_refresh_under_lock: "keeps (I held) (\<lambda>_. True) (refresh_under_lock E sid sess)"
  unfolding refresh_under_lock_def
  by (intro keeps_andthen [OF keeps_store_get])
    (auto intro!: keeps_done keeps_exchange_and_store keeps_andthen [OF keeps_cache] split: refresh_plan.split option.split)

lemma keeps_refresh: "keeps (I held) (\<lambda>_. True) (refresh_oidc_access_token E)"
  unfolding refresh_oidc_access_token_def
  by (intro keeps_andthen [OF keeps_load] after_reading)
    (auto intro!: keeps_done keeps_with_lock keeps_refresh_under_lock split: option.split)

lemma keeps_drop_dead: "keeps (I held) (\<lambda>_. True) (drop_dead_support_grant E)"
  unfolding drop_dead_support_grant_def
proof (intro keeps_andthen [OF keeps_load] keeps_option keeps_done keeps_if)
  fix x d assume "good_opt good x" "x = Some d"
  then have "good (dict_pop ''support_grant'' d)" using changes [of d "''support_grant''"] by simp
  then show "keeps (I held) (\<lambda>_. True) (andthen (cache_session (Some (dict_pop ''support_grant'' d))) (\<lambda>_.
      persist_session E (dict_pop ''support_grant'' d)))"
    by (intro keeps_andthen [OF keeps_cache] keeps_persist) auto
qed

lemma keeps_gateway_for: "keeps (I held) (\<lambda>_. True) (gateway_for E)"
  unfolding gateway_for_def by (intro after_session keeps_control keeps_done keeps_core [OF core_gateway_for_tenant(1)])

lemma keeps_upstream_bearer: "keeps (I held) (\<lambda>_. True) (upstream_bearer E)"
  unfolding upstream_bearer_def by (intro after_session keeps_control keeps_done)

lemmas core_gateway = core_net [OF net_gateway(1)] core_net [OF net_gateway(2)]

lemma keeps_relay_get: "keeps (I held) (\<lambda>_. True) (relay_get E path)"
  unfolding relay_get_def
  by (intro keeps_andthen [OF keeps_gateway_for] keeps_andthen [OF keeps_upstream_bearer] after_core [OF core_gateway(1)]
      keeps_control keeps_done keeps_andthen [OF keeps_refresh] keeps_core [OF core_gateway(1)] keeps_andthen [OF keeps_drop_dead])

lemma keeps_relay_request: "keeps (I held) (\<lambda>_. True) (relay_request E meth path body hs)"
  unfolding relay_request_def
  by (intro keeps_andthen [OF keeps_gateway_for] keeps_andthen [OF keeps_upstream_bearer] after_core [OF core_gateway(2)]
      keeps_control keeps_done keeps_andthen [OF keeps_refresh] keeps_core [OF core_gateway(2)] keeps_andthen [OF keeps_drop_dead])

lemmas after_relay = keeps_andthen [OF keeps_relay_get] keeps_andthen [OF keeps_relay_request]

end

section \<open>Login, logout and identity\<close>

context session_invariant
begin

lemma keeps_login: "keeps (I held) (\<lambda>_. True) (login E q password)"
proof -
  have 1: "keeps (I held) (\<lambda>_. True) (refuse_locked E q ip k)" for ip k
    unfolding refuse_locked_def by (intro after_record keeps_control)
  have 2: "keeps (I held) (\<lambda>_. True) (refuse_password E q ip)" for ip
    unfolding refuse_password_def by (intro after_core [OF core_throttle(2)] after_record keeps_control)
  have 3: "keeps (I held) (\<lambda>_. True) (accept_password E q ip r)" for ip r
    unfolding accept_password_def
    by (intro after_core [OF core_throttle(3)] keeps_andthen [OF keeps_establish [OF password_sessions]] after_record keeps_done)
  show ?thesis
    unfolding login_def Let_def
    by (intro after_core [OF core_throttle(1)] after_core [OF core_lift] keeps_control 1 2 3)
qed

lemma keeps_logout: "keeps (I held) (\<lambda>_. True) (logout E q)"
proof -
  have "stable same_core (logout_url E sess)" for sess
    unfolding logout_url_def by (intro core.stable_combinators core_idp [OF idp_frame_end_session_url])
  then show ?thesis
    unfolding logout_def
    by (intro after_session after_core after_record keeps_andthen [OF keeps_destroy] keeps_done)
qed

lemma keeps_me: "keeps (I held) (\<lambda>_. True) (me E)"
proof -
  have r: "keeps (I held) (\<lambda>_. True) (me_reply d a b)" for d a b unfolding me_reply_def by (rule keeps_done)
  have tries: "keeps (I held) (\<lambda>_. True) (try_relay_get E path)" for path
    unfolding try_relay_get_def by (intro keeps_catch after_relay keeps_done)
  have o: "keeps (I held) (\<lambda>_. True) (me_oidc E d)" for d
    unfolding me_oidc_def Let_def
    by (intro keeps_andthen [OF tries] keeps_control r keeps_andthen [OF keeps_destroy] after_core [OF core_quiet(4)])
  have p: "keeps (I held) (\<lambda>_. True) (me_provider d)" "keeps (I held) (\<lambda>_. True) (me_password d)" for d
    unfolding me_provider_def me_password_def Let_def by (intro after_core [OF core_lift] keeps_done)+
  show ?thesis unfolding me_def by (intro after_session keeps_control o p)
qed

lemma keeps_start_login:
  assumes "k \<in> set tx_keys"
  shows "keeps (I held) (\<lambda>_. True) (start_login E p k why)"
proof -
  let ?drawn = "\<lambda>x. \<exists>n. x = random_token E n"
  have pkce: "keeps (I held) (\<lambda>v. ?drawn (fst v)) (make_pkce_pair E)"
    unfolding make_pkce_pair_def by (intro keeps_andthen [OF keeps_draw] keeps_ret) simp
  have tx: "keeps (I held) (\<lambda>_. True) (updating (\<lambda>s. s\<lparr>cookie := dict_set k
      (JObj [(''state'', JStr a), (''nonce'', JStr b), (''verifier'', JStr c)]) (cookie s)\<rparr>))"
    if "?drawn a" "?drawn b" "?drawn c" for a b c
    using that cookie_tx [OF _ assms] by (intro keeps_updating) (auto simp: login_tx_def)
  have "keeps (I held) (\<lambda>_. True) (andthen (draw E) (\<lambda>state.
           andthen (draw E) (\<lambda>nonce.
           andthen (make_pkce_pair E) (\<lambda>(verifier, challenge).
           andthen (updating (\<lambda>s. s\<lparr>cookie := dict_set k
              (JObj [(''state'', JStr state), (''nonce'', JStr nonce), (''verifier'', JStr verifier)]) (cookie s)\<rparr>)) (\<lambda>_.
           andthen (authorization_url E p (req state nonce challenge)) (\<lambda>url. ret (Redirect url)))))))" for req
    by (intro keeps_andthen [OF keeps_draw] keeps_andthen [OF pkce] keeps_pair keeps_andthen [OF tx]
        keeps_andthen [OF keeps_core [OF core_idp [OF idp_frame_authorization_url]]] keeps_ret) auto
  then show ?thesis
    unfolding start_login_def by (intro keeps_andthen [OF keeps_any_reading] keeps_option keeps_throw)
qed

lemma keeps_finish_callback: "k \<in> set tx_keys \<Longrightarrow> keeps (I held) (\<lambda>_. True) (finish_callback E q p k a cb)"
proof -
  have 1: "keeps (I held) (\<lambda>_. True) (check_state E q a st tx)" for st tx
    unfolding check_state_def by (intro after_core [OF core_lift] keeps_control keeps_done after_record)
  have 2: "keeps (I held) (\<lambda>_. True) (recorded_exchange E q p a c tx)" for c tx
    unfolding recorded_exchange_def
    by (intro keeps_catch keeps_core [OF core_exchange]) (auto intro: keeps_throw after_record split: exc.split)
  have 3: "keeps (I held) (\<lambda>_. True) (callback_with E q p a cb tx)" for tx
    unfolding callback_with_def
    by (auto intro!: keeps_control keeps_andthen [OF 1] 2 split: json.split)
  assume "k \<in> set tx_keys"
  then show ?thesis unfolding finish_callback_def by (intro keeps_andthen [OF keeps_pop_cookie] 3)
qed

lemma keeps_oidc_callback: "keeps (I held) (\<lambda>_. True) (oidc_callback E q cb)"
  unfolding oidc_callback_def
proof (rule keeps_andthen)
  show "keeps (I held) (\<lambda>c. c = None \<or> (\<forall>t cl. good (oidc_session t cl))) (reading (oidc_of TenantIdp))"
    by (rule keeps_reading) (auto dest: oidc_sessions)
  fix c assume c: "c = None \<or> (\<forall>t cl. good (oidc_session t cl))"
  show "keeps (I held) (\<lambda>_. True) (if c = None then throw (HTTPException 404 (JStr ''OIDC is not enabled'') [])
       else andthen (finish_callback E q TenantIdp ''oidc_tx'' ''auth.oidc_login'' cb) (\<lambda>(tokens, claims).
         andthen (establish E (oidc_session tokens claims)) (\<lambda>_.
         andthen (record_request E q ''auth.oidc_login'' outcome_success None [(''method'', JStr ''oidc'')]) (\<lambda>_.
           ret (post_login (cfg E))))))"
    using c by (intro keeps_control keeps_andthen [OF keeps_finish_callback] keeps_andthen [OF keeps_establish]
        after_record keeps_done) (auto simp: tx_keys_def)
qed

lemma keeps_provider_callback: "keeps (I held) (\<lambda>_. True) (provider_callback E q cb)"
  unfolding provider_callback_def
proof (rule keeps_andthen)
  show "keeps (I held) (\<lambda>c. c = None \<or> (\<forall>t cl sc. good (provider_session t cl sc))) (reading (oidc_of ProviderIdp))"
    by (rule keeps_reading) (auto dest: provider_sessions)
  fix c assume c: "c = None \<or> (\<forall>t cl sc. good (provider_session t cl sc))"
  show "keeps (I held) (\<lambda>_. True) (if c = None then throw (HTTPException 404 (JStr ''The provider plane is not enabled on this BFF'') [])
       else andthen (finish_callback E q ProviderIdp ''provider_oidc_tx'' ''auth.provider_login'' cb) (\<lambda>(tokens, claims).
         andthen (lift_result (scopes_of_claims (cfg E) claims)) (\<lambda>scopes.
         andthen (if scopes = [] then record_request E q ''auth.provider_login'' outcome_denied None
                     [(''reason'', JStr ''no_mapped_group''), (''method'', JStr ''oidc'')] else ret ()) (\<lambda>_.
         andthen (establish E (provider_session tokens claims scopes)) (\<lambda>_.
         andthen (record_request E q ''auth.provider_login'' outcome_success None [(''method'', JStr ''oidc'')]) (\<lambda>_.
           ret (post_login (cfg E))))))))"
  proof (intro keeps_control keeps_andthen [OF keeps_finish_callback] after_core [OF core_lift])
    show "''provider_oidc_tx'' \<in> set tx_keys" by (simp add: tx_keys_def)
  next
    fix r :: "dict \<times> dict" and a b scopes assume "c \<noteq> None"
    then have "good (provider_session a b scopes)" using c by blast
    moreover have "keeps (I held) (\<lambda>_. True) (if scopes = [] then record_request E q ''auth.provider_login'' outcome_denied None
                     [(''reason'', JStr ''no_mapped_group''), (''method'', JStr ''oidc'')] else ret ())"
      by (intro keeps_control keeps_record_request keeps_done)
    ultimately show "keeps (I held) (\<lambda>_. True) (andthen (if scopes = [] then record_request E q ''auth.provider_login'' outcome_denied None
                     [(''reason'', JStr ''no_mapped_group''), (''method'', JStr ''oidc'')] else ret ()) (\<lambda>_.
         andthen (establish E (provider_session a b scopes)) (\<lambda>_.
         andthen (record_request E q ''auth.provider_login'' outcome_success None [(''method'', JStr ''oidc'')]) (\<lambda>_.
           ret (post_login (cfg E))))))"
      by (intro keeps_andthen [where Q = "\<lambda>_. True"] keeps_establish keeps_record_request keeps_done)
  qed
qed

end

section \<open>The routes\<close>

context session_invariant
begin

lemma keeps_check_guard: "keeps (I held) (\<lambda>_. True) (check_guard E g)"
proof -
  have "keeps (I held) (\<lambda>_. True) (require_role E xs)" "keeps (I held) (\<lambda>_. True) (require_provider_scope E xs)"
    "keeps (I held) (\<lambda>_. True) (deny_password_session E)" for xs
    unfolding require_role_def require_provider_scope_def deny_password_session_def
    by (intro after_session keeps_control keeps_done)+
  then show ?thesis
    by (cases g) (auto intro!: keeps_andthen [where Q = "\<lambda>_. True"] keeps_done)
qed

lemma keeps_depends: "keeps (I held) (\<lambda>_. True) m \<Longrightarrow> keeps (I held) (\<lambda>_. True) (depends E gs m)"
  by (induction gs) (auto simp: depends.simps intro: keeps_andthen [OF keeps_check_guard])

lemma keeps_with_session:
  "(\<And>d. good d \<Longrightarrow> keeps (I held) (\<lambda>_. True) (m d)) \<Longrightarrow> keeps (I held) (\<lambda>_. True) (with_session E g m)"
  unfolding with_session_def by (intro keeps_depends after_session keeps_option keeps_throw) auto

lemma keeps_audited: "keeps (I held) (\<lambda>_. True) (audited E q resp a t)"
  unfolding audited_def by (intro after_record keeps_done)

lemma keeps_read_route: "keeps (I held) (\<lambda>_. True) (read_route E path)"
  unfolding read_route_def by (intro after_relay keeps_done)

lemma keeps_write_route: "keeps (I held) (\<lambda>_. True) (write_route E q meth path body a t)"
  unfolding write_route_def by (intro after_relay keeps_audited)

lemmas keeps_route =
  keeps_depends keeps_control keeps_done keeps_read_route keeps_write_route keeps_audited after_relay
  after_core [OF core_quiet(1)] after_core [OF core_quiet(2)] after_core [OF core_quiet(3)] after_core [OF core_lift]
  after_core [OF core_catalog_or] after_core [OF core_tick] after_core [OF core_draw] after_core [OF core_send]
  after_record

lemma keeps_tenant_id: "(\<And>tid. keeps (I held) (\<lambda>_. True) (k tid)) \<Longrightarrow> keeps (I held) (\<lambda>_. True) (andthen (tenant_id_of E) k)"
  by (rule after_core) (auto simp: tenant_id_of_def intro: core.stable_combinators)

lemma core_assigned_types: "stable same_core (assigned_types E tid)"
  unfolding assigned_types_def by (intro core.stable_combinators core_catalog_or core_lift core_quiet)

lemmas after_assigned = after_core [OF core_assigned_types]

lemma keeps_assigned_ids: "(\<And>ids. keeps (I held) (\<lambda>_. True) (k ids)) \<Longrightarrow> keeps (I held) (\<lambda>_. True) (andthen (assigned_ids E tid) k)"
  unfolding assigned_ids_def by (rule after_core) (intro core.stable_combinators core_assigned_types core_lift)

lemma keeps_claim: "keeps (I held) (\<lambda>_. True) (claim_with E q t tid current body)"
proof -
  have 1: "keeps (I held) (\<lambda>_. True) (claim_pin E q t tid h v)" for h v
    unfolding claim_pin_def
    by (intro keeps_catch after_core [OF core_net [OF net_catalog_request]])
      (auto intro: keeps_done keeps_throw keeps_record_request split: exc.split)
  show ?thesis
    unfolding claim_with_def
    by (intro keeps_route keeps_andthen [OF keeps_audited] keeps_andthen [where Q = "\<lambda>_. True"] 1)
qed

lemma keeps_mcp: "keeps (I held) (\<lambda>_. True) (mcp E h p sid)"
  unfolding mcp_def by (rule keeps_relay_request)

lemma keeps_invoke_in_session: "keeps (I held) (\<lambda>_. True) (invoke_in_session E q h t a sid)"
  unfolding invoke_in_session_def mcp_close_def
  by (rule keeps_andthen [where Q = "\<lambda>_. True"])
    (intro keeps_finally keeps_mcp keeps_catch keeps_route)+

lemma keeps_monitoring_get: "keeps (I held) (\<lambda>_. True) (monitoring_get E b p ps)"
  unfolding monitoring_get_def by (intro keeps_route)

lemma good_dict_set: "good d \<Longrightarrow> k \<noteq> ''kind'' \<Longrightarrow> k \<noteq> ''plane'' \<Longrightarrow> good (dict_set k v d)"
  and good_dict_pop: "good d \<Longrightarrow> k \<noteq> ''kind'' \<Longrightarrow> k \<noteq> ''plane'' \<Longrightarrow> good (dict_pop k d)"
  using changes by blast+

lemma keeps_stage_backup: "keeps (I held) (\<lambda>_. True) (stage_backup E q kind resp)"
proof -
  have "good d \<Longrightarrow> keeps (I held) (\<lambda>_. True) (save_session E (dict_set pending_backup v d))" for d v
    by (intro keeps_save good_dict_set) (simp_all add: pending_backup_def)
  then show ?thesis
    unfolding stage_backup_def Let_def
    by (intro after_session after_core [OF core_draw] after_core [OF core_tick] keeps_option keeps_throw
        keeps_andthen [where Q = "\<lambda>_. True" and m = "save_session E d" for d] after_record keeps_done) auto
qed

lemma keeps_download: "keeps (I held) (\<lambda>_. True) (download_backup E q token)"
proof -
  have r: "keeps (I held) (\<lambda>_. True) (refuse_download E q why e)" for why e
    unfolding refuse_download_def by (intro keeps_route)
  have s: "good d \<Longrightarrow> keeps (I held) (\<lambda>_. True) (save_session E (dict_pop pending_backup d))" for d
    by (intro keeps_save good_dict_pop) (simp_all add: pending_backup_def)
  have "good d \<Longrightarrow> keeps (I held) (\<lambda>_. True) (serve_download E q d p)" for d p
    unfolding serve_download_def by (intro keeps_andthen [OF s] keeps_route)
  moreover have same: "keeps (I held) (\<lambda>_. True) (if token = [] then ret False else lift_result v)" for v
    by (intro keeps_control keeps_done keeps_core core_lift)
  ultimately have "good d \<Longrightarrow> keeps (I held) (\<lambda>_. True) (claim_download E q token now d p)" for now d p
    unfolding claim_download_def
    by (intro keeps_andthen [OF same] keeps_control r after_core [OF core_lift] keeps_andthen [OF s])
  then show ?thesis
    unfolding download_backup_def
    by (intro keeps_depends after_session after_core [OF core_tick]) (auto intro: r split: option.split json.split)
qed

lemma keeps_api: "keeps (I held) (\<lambda>_. True) (api E q c)"
proof (cases c)
  case (Claim_Device_Type t)
  show ?thesis unfolding Claim_Device_Type api.simps claim_device_type_def
    by (intro keeps_depends keeps_tenant_id keeps_assigned_ids keeps_route keeps_claim)
next
  case (Invoke_Tool h t)
  have "keeps (I held) (\<lambda>_. True) (invoke_opened E q h t opened)" for opened
    unfolding invoke_opened_def
    by (auto intro: keeps_audited keeps_done keeps_invoke_in_session split: option.split list.split)
  then show ?thesis unfolding Invoke_Tool api.simps invoke_tool_def
    by (intro keeps_depends keeps_if keeps_done keeps_andthen [OF keeps_mcp])
next
  case (Export_Backup_With_Body)
  show ?thesis unfolding Export_Backup_With_Body api.simps export_backup_with_body_def
    by (intro keeps_route keeps_stage_backup)
next
  case (Download_Backup token) then show ?thesis by (simp add: keeps_download)
qed (simp_all only: api.simps overview_def list_devices_def get_device_def device_diagnostics_def device_tools_def
    device_tools_diff_def register_device_def update_device_def delete_device_def tenant_catalog_def
    tenant_catalog_detail_def upgrade_offers_def accept_upgrade_def approve_fingerprint_def deadletter_list_def
    deadletter_replay_def deadletter_drain_def monitoring_meta_def metrics_summary_def prometheus_query_def logs_def
    export_backup_def restore_backup_def,
    (intro keeps_tenant_id keeps_assigned_ids after_assigned keeps_route keeps_monitoring_get)+)

lemma keeps_support: "keeps (I held) (\<lambda>_. True) (support E q c)"
  by (cases c; simp only: support.simps support_defs; (intro keeps_route)+)

end

section \<open>The provider's routes\<close>

context session_invariant
begin

lemma keeps_list_tenants: "keeps (I held) (\<lambda>_. True) (list_tenants E)"
  unfolding list_tenants_def
  by (intro keeps_with_session after_core [OF core_directory_refresh] after_reading keeps_done)

lemma keeps_raise: "keeps (I held) (\<lambda>_. True) (raise_support_request E q b)"
proof -
  have 1: "keeps (I held) (\<lambda>_. True) (check_requested E q d b)" for d
    unfolding check_requested_def by (intro keeps_control keeps_done after_record)
  have 2: "keeps (I held) (\<lambda>_. True) (send_raise E q sub b gw)" for sub gw
    unfolding send_raise_def
    by (intro keeps_catch keeps_core [OF core_call_tenant]) (auto intro: keeps_throw after_record split: exc.split)
  have 3: "keeps (I held) (\<lambda>_. True) (object_reply v)" for v
    unfolding object_reply_def by (intro keeps_control keeps_done)
  show ?thesis
    unfolding raise_support_request_def
    by (intro keeps_with_session keeps_andthen [OF 1] after_core [OF core_gateway_for_tenant(2)] keeps_andthen [OF 2]
        keeps_route 3)
qed

lemma keeps_poll: "keeps (I held) (\<lambda>_. True) (poll_support_request E request_id tid)"
proof -
  have "good d \<Longrightarrow> keeps (I held) (\<lambda>_. True) (save_session E (dict_set ''support_grant'' v d))" for d v
    by (intro keeps_save good_dict_set) simp_all
  then have 1: "keeps (I held) (\<lambda>_. True) (keep_grant E t b)" for t b
    unfolding keep_grant_def by (intro keeps_if after_session keeps_option keeps_done) auto
  show ?thesis
    unfolding poll_support_request_def
    by (intro keeps_with_session after_core [OF core_gateway_for_tenant(2)] after_core [OF core_call_tenant] keeps_control
        after_core [OF core_quiet(2)] after_core [OF core_lift] keeps_andthen [OF 1] keeps_done)
qed

lemma keeps_release: "keeps (I held) (\<lambda>_. True) (release_support_grant E q)"
proof -
  have 1: "keeps (I held) (\<lambda>_. True) (revoke_grant E g t)" for g t
    unfolding revoke_grant_def
    by (intro keeps_if after_core [OF core_gateway_for_tenant(2)] after_core [OF core_call_tenant] keeps_done)
  have "good d \<Longrightarrow> good (dict_pop ''support_grant'' d)" for d by (rule good_dict_pop) simp_all
  then have 2: "keeps (I held) (\<lambda>_. True) (forget_grant E)"
    unfolding forget_grant_def by (intro after_session keeps_option keeps_if keeps_done keeps_save keeps_cache) auto
  show ?thesis
    unfolding release_support_grant_def
    by (intro keeps_with_session keeps_andthen [OF 1] keeps_andthen [OF 2] after_record keeps_done)
qed

lemma core_catalog_relay: "stable same_core (catalog_relay E meth path body)"
  unfolding catalog_relay_def by (rule core_catalog_or)

lemma keeps_relay_audited: "keeps (I held) (\<lambda>_. True) (relay_audited E q meth path a body)"
  unfolding relay_audited_def by (intro after_core [OF core_catalog_relay] keeps_audited)

lemma keeps_provider: "keeps (I held) (\<lambda>_. True) (provider E q c)"
proof (cases c)
  case Current_Support_Grant
  have "keeps (I held) (\<lambda>_. True) (case v of JObj g \<Rightarrow>
           (if \<not> truthy (dict_get g ''credential'') then ret a
            else ret (b g))
       | _ \<Rightarrow> ret a)" for v a b
    by (auto intro: keeps_done split: json.split)
  then show ?thesis unfolding Current_Support_Grant provider.simps current_support_grant_def
    by (intro keeps_with_session)
next
  case (Raise_Support_Request b) show ?thesis unfolding Raise_Support_Request provider.simps by (rule keeps_raise)
next
  case (Poll_Support_Request a b) show ?thesis unfolding Poll_Support_Request provider.simps by (rule keeps_poll)
next
  case Release_Support_Grant show ?thesis unfolding Release_Support_Grant provider.simps by (rule keeps_release)
next
  case List_Tenants show ?thesis unfolding List_Tenants provider.simps by (rule keeps_list_tenants)
qed (simp_all only: provider.simps create_device_type_def add_device_type_version_def list_device_types_def
    get_device_type_def assign_device_type_def revoke_assignment_def tenant_assignments_def,
    (intro keeps_with_session after_core [OF core_catalog_relay] keeps_relay_audited keeps_route)+)

lemma keeps_redeem: "keeps (I held) (\<lambda>_. True) (redeem E q b)"
proof -
  have undo: "keeps (I held) (\<lambda>_. True) (undo_enrolment E q a t e)" for a t e
    unfolding undo_enrolment_def by (intro after_core [OF core_enrolment(2)] after_record keeps_throw)
  have 1: "keeps (I held) (\<lambda>_. True) (present_invitation E q f sub c)" for f sub c
    unfolding present_invitation_def
    by (intro keeps_catch keeps_core [OF core_net [OF net_send_hooked]]) (auto intro: keeps_throw undo split: exc.split)
  have 2: "keeps (I held) (\<lambda>_. True) (refuse_redeemed E q f resp)" for f resp
    unfolding refuse_redeemed_def
    by (intro after_core [OF core_enrolment(2)] after_record after_core [OF core_lift] keeps_throw)
  have 3: "keeps (I held) (\<lambda>_. True) (complete_enrolment E q f enrolled)" for f enrolled
    unfolding complete_enrolment_def Let_def
    by (intro after_core [OF core_enrolment(3)] keeps_if after_record keeps_throw after_core [OF core_pool_invalidate]
        after_core [OF core_directory_refresh] keeps_done)
  have 4: "keeps (I held) (\<lambda>_. True) (verify_tenant E q f enrolled)" for f enrolled
    unfolding verify_tenant_def Let_def by (intro keeps_if undo 3)
  have 5: "keeps (I held) (\<lambda>_. True) (redeem_form E q d f)" for d f
    unfolding redeem_form_def
    by (intro keeps_if keeps_throw after_core [OF core_enrolment(1)] keeps_andthen [OF 1] 2 after_core [OF core_quiet(2)]
        after_core [OF core_lift] 4)
  have 6: "keeps (I held) (\<lambda>_. True) (if b then request_json q else ret v)" for v
    by (intro keeps_if keeps_core [OF core_quiet(1)] keeps_done)
  show ?thesis
    unfolding redeem_def by (intro keeps_with_session keeps_andthen [OF 6] after_core [OF core_lift] 5)
qed

end

section \<open>Every request\<close>

lemma core_auth_config: "stable same_core (auth_config E)"
  unfolding auth_config_def by (intro core.stable_combinators)

context session_invariant
begin

lemma keeps_route_of: "keeps (I held) (\<lambda>_. True) (route E q c)"
  by (cases c)
    (simp_all add: keeps_login keeps_logout keeps_me keeps_oidc_callback keeps_provider_callback keeps_api keeps_support
      keeps_provider keeps_redeem healthz_def keeps_done oidc_login_def provider_login_def keeps_core keeps_start_login
      core_auth_config tx_keys_def)

lemma keeps_dispatch: "keeps (I held) (\<lambda>_. True) (dispatch E q c)"
  unfolding dispatch_def by (intro keeps_if keeps_route_of keeps_throw)

lemma keeps_request:
  assumes s0: "I held (s\<lparr>cookie := in_cookie i, cached := None\<rparr>)"
  shows "I held (snd (serve E i s))"
proof -
  have c: "I held (t\<lparr>rid := b\<rparr>)" if "I held t" for t b
    using core [OF that] by (simp add: same_core_def)
  have r: "keeps (I held) (\<lambda>_. True) (request_rid E (in_request i))"
    unfolding request_rid_def by (auto intro: keeps_done keeps_core core_draw split: option.split list.split)
  show ?thesis
    using keepsD [OF r s0] keepsD [OF keeps_dispatch c] c
    by (fastforce simp: serve_def Let_def split: prod.split sum.split)
qed

end

text \<open>An invariant of the console itself does not depend on the cookie a request brings.\<close>

locale console_invariant = session_invariant +
  assumes incoming: "I held s \<Longrightarrow> I held (s\<lparr>cookie := c\<rparr>)"
begin

lemma keeps_serve: "I held s \<Longrightarrow> I held (snd (serve E i s))"
  using forgetting [OF incoming] by (intro keeps_request) fastforce

lemma keeps_serve_all: "I held s \<Longrightarrow> I held (serve_all E is s)"
  unfolding serve_all_def by (induction "is" arbitrary: s) (simp_all add: keeps_serve)

end

end
