(* ===== verification/Whole_App.thy ===== *)
theory Whole_App
  imports Invariants
begin

text \<open>
  What holds of the whole application after any sequence of requests: the session store is well
  formed, the sessions are of the console's own plane, the audit file has only grown. Each is an
  interpretation of \<open>session_invariant\<close>.
\<close>

section \<open>The session store\<close>

text \<open>The representation of the store with the given locks held: \<open>mem_ok\<close> when none is.\<close>

definition mem_rep :: "mem_store \<Rightarrow> bool" where
  "mem_rep st \<longleftrightarrow> distinct (map fst (mdata st)) \<and> distinct (map snd (mlocks st))
     \<and> (\<forall>l \<in> snd ` set (mlocks st) \<union> set (mheld st). l < mfresh st)"

lemma mem_rep_ok: "mheld st = [] \<Longrightarrow> mem_rep st = mem_ok st"
  by (simp add: mem_rep_def mem_ok_def)

lemma mem_rep_delete: "mem_rep st \<Longrightarrow> mem_rep (mem_delete sid st)"
  by (auto simp: mem_rep_def mem_delete_def drop_free_lock_def distinct_delete distinct_snd_delete set_alist_delete
      split: option.splits)

lemma mem_rep_get: "mem_rep st \<Longrightarrow> mem_rep (snd (mem_get sid now st))"
  by (auto simp: mem_rep_def mem_get_def distinct_delete split: option.splits)

lemma mem_rep_set: "mem_rep st \<Longrightarrow> mem_rep (mem_set sid d now now' st)"
proof -
  assume "mem_rep st"
  then have "mem_rep (fold mem_delete sids st)" for sids
    by (induction sids arbitrary: st) (simp_all add: mem_rep_delete)
  then have "mem_rep (mem_prune now st)" by (simp add: mem_prune_fold)
  then show ?thesis by (simp add: mem_set_def Let_def mem_rep_def distinct_update)
qed

lemma mem_rep_lock: "mem_rep st \<Longrightarrow> mem_lock sid st = (l, st') \<Longrightarrow> mem_rep (st'\<lparr>mheld := l # mheld st'\<rparr>) \<and> mheld st' = mheld st"
proof (cases "map_of (mlocks st) sid")
  case None
  assume st: "mem_rep st" and "mem_lock sid st = (l, st')"
  then have l: "l = mfresh st" "st' = st\<lparr>mlocks := AList.update sid l (mlocks st), mfresh := Suc l\<rparr>"
    using None by (auto simp: mem_lock_def)
  have "map_of al sid = None \<Longrightarrow> AList.update sid l al = al @ [(sid, l)]" for al :: "(string \<times> nat) list"
    by (induction al) (auto split: if_splits)
  from this [OF None] show ?thesis using st by (force simp: mem_rep_def l less_Suc_eq)
next
  case (Some l')
  assume "mem_rep st" and "mem_lock sid st = (l, st')"
  then show ?thesis using Some map_of_SomeD [OF Some] by (force simp: mem_rep_def mem_lock_def)
qed

lemma mem_rep_release: "mem_rep st \<Longrightarrow> mem_rep (mem_release l st)"
  by (auto simp: mem_rep_def mem_release_def dest: notin_set_remove1)

lemma mem_held:
  "mheld (snd (mem_get sid now st)) = mheld st" "mheld (mem_set sid d now now' st) = mheld st"
  by (auto simp: mem_get_def mem_set_def Let_def split: option.splits)

interpretation stores: console_invariant E "\<lambda>held s. mem_rep (store s) \<and> mheld (store s) = held" "\<lambda>_. True" for E
proof (unfold_locales, goal_cases)
  case (5 held s sid now v st)
  then show ?case using mem_rep_get [of "store s" sid now] mem_held(1) [of sid now "store s"]
    by (simp add: good_opt_def)
next
  case (9 l held s)
  then show ?case using mem_rep_release [of "store s" l] by (simp add: mem_release_def)
qed (auto simp: same_core_def good_opt_def mem_rep_set mem_held mem_rep_delete dest: mem_rep_lock)

section \<open>The plane of a session\<close>

text \<open>Which sessions a console with these identity providers hands out.\<close>

definition session_for :: "bool \<Rightarrow> bool \<Rightarrow> dict \<Rightarrow> bool" where
  "session_for tenant_rp provider_rp d \<longleftrightarrow>
     dict_get d ''kind'' = JStr ''password'' \<and> dict_get d ''plane'' = JStr plane_tenant
     \<or> tenant_rp \<and> dict_get d ''kind'' = JStr ''oidc'' \<and> dict_get d ''plane'' = JStr plane_tenant
     \<or> provider_rp \<and> dict_get d ''kind'' = JStr ''oidc'' \<and> dict_get d ''plane'' = JStr plane_provider"

definition sessions_for :: "bool \<Rightarrow> bool \<Rightarrow> world \<Rightarrow> bool" where
  "sessions_for t p s \<longleftrightarrow> (oidc s \<noteq> None) = t \<and> (provider_oidc s \<noteq> None) = p
     \<and> (\<forall>x \<in> set (mdata (store s)). session_for t p (snd (snd x)))
     \<and> (\<forall>v. cached s = Some v \<longrightarrow> good_opt (session_for t p) v)"

lemma dict_get_changed: "k \<noteq> i \<Longrightarrow> dict_get (dict_set k v d) i = dict_get d i" "k \<noteq> i \<Longrightarrow> dict_get (dict_pop k d) i = dict_get d i"
  by (simp_all add: dict_get_def dict_set_def dict_pop_def map_of_update map_of_delete)

lemma session_for_change:
  "session_for t p d \<Longrightarrow> k \<noteq> ''kind'' \<Longrightarrow> k \<noteq> ''plane'' \<Longrightarrow> session_for t p (dict_set k v d) \<and> session_for t p (dict_pop k d)"
  by (simp add: session_for_def dict_get_changed)

lemma set_alist_update: "set (AList.update k v al) \<subseteq> insert (k, v) (set al)"
  by (induction al) auto

lemma mem_delete_entries: "set (mdata (mem_delete sid st)) \<subseteq> set (mdata st)"
  by (auto simp: set_alist_delete)

lemma mem_get_entries:
  "set (mdata (snd (mem_get sid now st))) \<subseteq> set (mdata st)"
  "fst (mem_get sid now st) = Some d \<Longrightarrow> \<exists>x. (sid, x, d) \<in> set (mdata st)"
  by (auto simp: mem_get_def set_alist_delete split: option.splits if_splits) (meson map_of_SomeD)

lemma mem_set_entries: "set (mdata (mem_set sid d now now' st)) \<subseteq> insert (sid, now' + of_int (mttl st), d) (set (mdata st))"
proof -
  have "set (mdata (fold mem_delete sids st)) \<subseteq> set (mdata st)" for sids
    by (induction sids arbitrary: st) (use mem_delete_entries in \<open>fastforce+\<close>)
  then show ?thesis
    using set_alist_update by (fastforce simp: mem_set_def Let_def mem_prune_fold)
qed

interpretation planes: console_invariant E "\<lambda>held. sessions_for t p" "session_for t p" for E t p
proof (unfold_locales, goal_cases)
  case (1 held s s')
  then have "(oidc s' = None) = (oidc s = None)" "(provider_oidc s' = None) = (provider_oidc s = None)"
    unfolding same_core_def by (metis option.map_disc_iff)+
  then show ?case using 1 by (simp only: sessions_for_def same_core_def) simp
next
  case (5 held s sid now v st)
  then show ?case using mem_get_entries [of sid now "store s"]
    by (cases v) (fastforce simp: sessions_for_def good_opt_def)+
next
  case (6 held s d sid now now')
  then show ?case using mem_set_entries [of sid d now now' "store s"] by (fastforce simp: sessions_for_def)
next
  case (7 held s sid)
  then show ?case using mem_delete_entries [of sid "store s"] by (fastforce simp: sessions_for_def)
next
  case (8 held s sid l st)
  then show ?case by (auto simp: sessions_for_def mem_lock_def split: option.splits)
qed (auto simp: sessions_for_def good_opt_def mem_release_def session_for_def password_session_def oidc_session_def
    provider_session_def dict_get_changed)

section \<open>The audit file\<close>

text \<open>What the log has written since it had the given lines, sequence number and keys.\<close>

definition grown :: "string list \<Rightarrow> audit_log \<Rightarrow> world \<Rightarrow> bool" where
  "grown lines0 l s \<longleftrightarrow>
     (\<exists>new. file_lines (sink s) = lines0 @ new \<and> writable (sink s) \<and> chain_seq (audit s) = chain_seq l + int (length new))
     \<and> has_path (audit s) \<and> log_keys (audit s) = log_keys l \<and> instance_id (audit s) = instance_id l
     \<and> pseudonym_key (audit s) = pseudonym_key l"

lemma grown_record:
  assumes "grown lines0 l s" and "record_entry c e (audit s, sink s) = (u, lg, snk)"
  shows "grown lines0 l (s\<lparr>audit := lg, sink := snk\<rparr>)"
proof -
  obtain new where "file_lines (sink s) = lines0 @ new" "chain_seq (audit s) = chain_seq l + int (length new)"
    using assms(1) by (auto simp: grown_def)
  moreover have "file_lines snk = file_lines (sink s) @ [json_dumps_sorted (JObj (written c (audit s) e))]"
    "writable snk" "chain_seq lg = chain_seq (audit s) + 1" "has_path lg" "log_keys lg = log_keys (audit s)"
    "instance_id lg = instance_id (audit s)" "pseudonym_key lg = pseudonym_key (audit s)"
    using assms by (auto simp: grown_def record_entry_eq emit_def Let_def)
  ultimately show ?thesis using assms(1)
    by (auto simp: grown_def intro!: exI [of _ "new @ [json_dumps_sorted (JObj (written c (audit s) e))]"])
qed

interpretation trail: console_invariant E "\<lambda>held. grown lines0 l" "\<lambda>_. True" for E lines0 l
proof (unfold_locales, goal_cases)
  case (10 held s e u lg snk) then show ?case by (blast intro: grown_record)
qed (auto simp: grown_def same_core_def good_opt_def)

text \<open>The file verifies and the log stands at the end of its sub-chain, with a key for what it writes.\<close>

definition trail_ok :: "crypto \<Rightarrow> world \<Rightarrow> bool" where
  "trail_ok c s \<longleftrightarrow>
     verifies c (file_lines (sink s)) \<and> instances_ok (file_lines (sink s)) \<and> at_tail (file_lines (sink s)) (audit s)
     \<and> has_path (audit s) \<and> writable (sink s) \<and> map_of (log_keys (audit s)) (log_tenant (audit s)) \<noteq> None"

text \<open>Sealed content is text, whatever it was.\<close>

lemma sealed_text_ok:
  assumes "map_of (log_keys l) (entry_tenant l e) \<noteq> None"
  shows "text_ok (JObj (written c l e))"
  using assms by (auto simp: written_def framed_def Let_def seal_def)

lemma trail_ok_record:
  assumes trail: "trail_ok c s" and own: "e_tenant e = None"
    and run: "record_entry c e (audit s, sink s) = (u, lg, snk)"
  shows "trail_ok c (s\<lparr>audit := lg, sink := snk\<rparr>)"
proof -
  have "text_ok (JObj (written c (audit s) e))"
    using trail own by (intro sealed_text_ok) (simp add: trail_ok_def entry_tenant_def)
  note app = append_written [OF this]
  have "lg = advanced c (audit s) e" "writable snk"
    "file_lines snk = file_lines (sink s) @ [json_dumps_sorted (JObj (written c (audit s) e))]"
    using trail run by (auto simp: trail_ok_def record_entry_eq emit_def Let_def advanced_def)
  then show ?thesis using trail app by (simp add: trail_ok_def advanced_def)
qed

interpretation sealed_trail: console_invariant E "\<lambda>held. trail_ok (crypt E)" "\<lambda>_. True" for E
proof (unfold_locales, goal_cases)
  case (10 held s e u lg snk) then show ?case by (rule trail_ok_record)
qed (auto simp: trail_ok_def same_core_def good_opt_def)

section \<open>What holds after any requests\<close>

lemma created_app:
  assumes "create_app E0 st disk = Inr (E, s, b)"
  obtains tenant_rp provider_rp nets ks registry where "E = app_env E0 st nets"
    and "s = app_world st registry tenant_rp provider_rp ks disk" and "(tenant_rp \<noteq> None) = oidc_enabled st"
    and "(provider_rp \<noteq> None) = provider_oidc_enabled st" and "\<not> (oidc_enabled st \<and> provider_oidc_enabled st)"
proof -
  obtain registry tenant_rp provider_rp nets ks where
    ok: "startup_refusal st = None" and rps: "oidc_client_of st = Inr tenant_rp" "provider_client_of st = Inr provider_rp"
    and app: "E = app_env E0 st nets" "s = app_world st registry tenant_rp provider_rp ks disk"
    using assms by (auto simp: create_app_def bind_result_Inr split: option.splits)
  have "(tenant_rp \<noteq> None) = oidc_enabled st" "(provider_rp \<noteq> None) = provider_oidc_enabled st"
    using rps by (auto simp: oidc_client_of_def provider_client_of_def bind_result_Inr split: if_splits)
  moreover have "\<not> (oidc_enabled st \<and> provider_oidc_enabled st)"
    using ok by (auto simp: startup_refusal_def split: if_splits)
  ultimately show ?thesis by (rule that [OF app])
qed


text \<open>C1. A console's sessions are of its own plane: after any requests, every stored session is a password
  session of the tenant's or one the console's own identity provider vouched for, and on a tenant's console
  no cookie whatsoever leads to a provider session.\<close>

theorem sessions_of_one_plane:
  assumes "create_app E0 st disk = Inr (E, s, b)"
  shows "list_all (\<lambda>(sid, expires, d). dict_get d ''kind'' = JStr ''password'' \<and> session_plane (Some d) = plane_tenant
      \<or> oidc_enabled st \<and> dict_get d ''kind'' = JStr ''oidc'' \<and> session_plane (Some d) = plane_tenant
      \<or> provider_oidc_enabled st \<and> dict_get d ''kind'' = JStr ''oidc'' \<and> session_plane (Some d) = plane_provider)
      (mdata (store (serve_all E is s)))
    \<and> (\<not> provider_oidc_enabled st \<longrightarrow>
         session_plane (known_session E ((serve_all E is s)\<lparr>cookie := ck, cached := None\<rparr>)) = plane_tenant)"
proof -
  let ?t = "oidc_enabled st" and ?p = "provider_oidc_enabled st" and ?s = "serve_all E is s"
  have "sessions_for ?t ?p s"
    by (rule created_app [OF assms]) (simp add: app_world_def new_mem_store_def sessions_for_def)
  then have after: "sessions_for ?t ?p ?s" by (rule planes.keeps_serve_all)
  have plane: "session_plane (Some d) = (if dict_get d ''plane'' = JStr plane_provider then plane_provider else plane_tenant)" for d
    by (simp add: session_plane_def get_or_def)
  have "sessions_for ?t ?p (?s\<lparr>cookie := ck, cached := None\<rparr>)" using after by (simp add: sessions_for_def)
  from keepsD [OF planes.keeps_current_session this current_session_loaded]
  have "good_opt (session_for ?t ?p) (known_session E (?s\<lparr>cookie := ck, cached := None\<rparr>))" by blast
  then have "session_plane (known_session E (?s\<lparr>cookie := ck, cached := None\<rparr>)) = plane_tenant" if "\<not> ?p"
    using that by (cases "known_session E (?s\<lparr>cookie := ck, cached := None\<rparr>)")
      (auto simp: plane session_for_def session_plane_def get_or_def plane_tenant_def plane_provider_def)
  moreover have "dict_get d ''kind'' = JStr ''password'' \<and> session_plane (Some d) = plane_tenant
      \<or> ?t \<and> dict_get d ''kind'' = JStr ''oidc'' \<and> session_plane (Some d) = plane_tenant
      \<or> ?p \<and> dict_get d ''kind'' = JStr ''oidc'' \<and> session_plane (Some d) = plane_provider"
    if "(sid, e, d) \<in> set (mdata (store ?s))" for sid e d
  proof -
    have "session_for ?t ?p d" using after that by (force simp: sessions_for_def)
    then show ?thesis by (auto simp: session_for_def plane plane_tenant_def plane_provider_def)
  qed
  ultimately show ?thesis unfolding list_all_iff by blast
qed

text \<open>C22. The audit trail only grows: while its file can be written, no request changes or removes a line,
  takes back a sequence number, or touches the keys; the sequence number advances by the lines
  written.\<close>

theorem audit_file_grows:
  assumes "has_path (audit s)" and "writable (sink s)"
  shows "\<exists>new. file_lines (sink (serve_all E is s)) = file_lines (sink s) @ new
      \<and> chain_seq (audit (serve_all E is s)) = chain_seq (audit s) + int (length new)
      \<and> log_keys (audit (serve_all E is s)) = log_keys (audit s)
      \<and> pseudonym_key (audit (serve_all E is s)) = pseudonym_key (audit s)"
proof -
  have "grown (file_lines (sink s)) (audit s) s" using assms by (simp add: grown_def)
  then have "grown (file_lines (sink s)) (audit s) (serve_all E is s)" by (rule trail.keeps_serve_all)
  then show ?thesis by (auto simp: grown_def)
qed


text \<open>A tenant's console, and two requests to it: a login and a call of the API.\<close>

definition demo_requests :: "incoming list" where
  "demo_requests =
     [\<lparr>in_request = demo_call, in_cookie = [], in_call = Login ''pw''\<rparr>,
      \<lparr>in_request = demo_call, in_cookie = [(''sid'', JStr ''s1'')], in_call = Api Overview\<rparr>]"

lemma demo_tenant_app:
  obtains E s b where "create_app (demo_env (answer 200 ''{}'')) demo_settings demo_disk = Inr (E, s, b)"
proof -
  have "(case create_app (demo_env (answer 200 ''{}'')) demo_settings demo_disk of Inr v \<Rightarrow> True | Inl e \<Rightarrow> False)"
    by code_simp
  then show ?thesis by (cases "create_app (demo_env (answer 200 ''{}'')) demo_settings demo_disk") (auto intro: that)
qed


theorem sessions_of_one_plane_witness:
  "\<exists>E s b. create_app (demo_env (answer 200 ''{}'')) demo_settings demo_disk = Inr (E, s, b)
     \<and> session_plane (known_session E ((serve_all E demo_requests s)\<lparr>cookie := [(''sid'', JStr ''s1'')], cached := None\<rparr>)) = plane_tenant"
proof -
  obtain E s b where run: "create_app (demo_env (answer 200 ''{}'')) demo_settings demo_disk = Inr (E, s, b)" by (rule demo_tenant_app)
  have "\<not> provider_oidc_enabled demo_settings" by code_simp
  with sessions_of_one_plane [OF run, of demo_requests] run show ?thesis by blast
qed


theorem audit_file_grows_witness:
  "\<exists>E s b new. create_app (demo_env (answer 200 ''{}'')) (demo_settings\<lparr>audit_path := ''a''\<rparr>) demo_disk = Inr (E, s, b)
     \<and> file_lines (sink (serve_all E demo_requests s)) = new \<and> chain_seq (audit (serve_all E demo_requests s)) = int (length new)"
proof -
  let ?run = "create_app (demo_env (answer 200 ''{}'')) (demo_settings\<lparr>audit_path := ''a''\<rparr>) demo_disk"
  have "(case ?run of Inr (E, s, b) \<Rightarrow> has_path (audit s) \<and> writable (sink s) \<and> file_lines (sink s) = [] \<and> chain_seq (audit s) = 0
       | Inl e \<Rightarrow> False)" by code_simp
  then obtain E s b where run: "?run = Inr (E, s, b)" and start: "has_path (audit s)" "writable (sink s)"
      "file_lines (sink s) = []" "chain_seq (audit s) = 0"
    by (cases ?run) auto
  from audit_file_grows [OF start(1,2), of E demo_requests] run start show ?thesis by auto
qed

end
