(* ===== verification/Outsiders.thy ===== *)
theory Outsiders
  imports Whole_App
begin

text \<open>
  What a console does for browsers that have not logged in. The requests are those of
  \<open>App\<close>, with any cookies and bodies; the one condition is that no login among them succeeds.

  Results: no session comes into being, every route behind a gate refuses, and the console
  sends nothing but the two plain requests of the login protocol.
\<close>

section \<open>Requests without a credential\<close>

text \<open>No header, so no bearer credential, and no JSON body: the metadata and token requests of \<open>app/oidc.py\<close>.\<close>

definition bare :: "wire \<Rightarrow> bool" where
  "bare w \<longleftrightarrow> w_headers w = [] \<and> w_json w = None"

definition bare_sends :: "world \<Rightarrow> world \<Rightarrow> bool" where
  "bare_sends s s' \<longleftrightarrow> (\<exists>ws. trace s' = trace s @ ws \<and> list_all bare ws)"

interpretation bare_sends: step_order bare_sends
proof
  show "bare_sends s s" for s by (simp add: bare_sends_def)
  show "bare_sends s u" if "bare_sends s t" "bare_sends t u" for s t u
    using that by (auto simp: bare_sends_def)
qed

lemma bare_silent: "stable silent m \<Longrightarrow> stable bare_sends m"
  by (simp add: stable_def silent_def bare_sends_def)

lemma bare_send: "bare w \<Longrightarrow> stable bare_sends (send E w)"
  by (simp add: stable_def bare_sends_def send_trace)

lemma bare_plain_wire: "bare (plain_wire m u)"
  by (simp add: bare_def plain_wire_def)

lemma bare_token_wire: "bare (token_wire v meta form)"
  by (simp add: bare_def token_wire_def)

lemma bare_the_client [stable_intros]: "stable bare_sends (the_client p)"
  by (simp add: stable_def the_client_run bare_sends.R_refl split: option.split)

lemma bare_json_object [stable_intros]: "stable bare_sends (json_object resp)"
  by (auto simp: json_object_def stable_def act_simps bare_sends.R_refl split: option.split json.split)

lemma bare_raise_for_status [stable_intros]: "stable bare_sends (raise_for_status resp)"
  by (auto simp: raise_for_status_def stable_def act_simps bare_sends.R_refl)

lemma bare_accept_metadata [stable_intros]: "stable bare_sends (accept_metadata p c meta)"
proof -
  have "bare_sends s (set_oidc p c' s)" for s c' by (cases p) (simp_all add: bare_sends_def)
  then show ?thesis
    unfolding accept_metadata_def by (intro bare_sends.stable_combinators bare_sends.stable_updating)
qed

lemma bare_discover [stable_intros]: "stable bare_sends (discover E p)"
proof -
  have fetch: "stable bare_sends (andthen (send E (plain_wire m u)) (\<lambda>resp.
      andthen (raise_for_status resp) (\<lambda>_. andthen (json_object resp) (accept_metadata p c))))" for m u c
    by (intro bare_sends.stable_combinators bare_send bare_plain_wire stable_intros)
  show ?thesis
    unfolding discover_def
    by (intro bare_sends.stable_andthen bare_the_client) (auto intro: fetch bare_sends.stable_ret split: option.split)
qed

lemma bare_authorization_url [stable_intros]: "stable bare_sends (authorization_url E p a)"
  unfolding authorization_url_def by (intro bare_sends.stable_combinators stable_intros)

lemma bare_exchange_code [stable_intros]: "stable bare_sends (exchange_code E p c v r)"
  unfolding exchange_code_def by (intro bare_sends.stable_combinators bare_send bare_token_wire stable_intros)

lemma bare_lift_result [stable_intros]: "stable bare_sends (lift_result r)"
  by (auto simp: lift_result_def stable_def act_simps bare_sends.R_refl split: sum.split)

lemma bare_tick [stable_intros]: "stable bare_sends (tick f)"
  by (rule bare_silent) (rule stable_intros)

lemma bare_draw [stable_intros]: "stable bare_sends (draw E)"
  by (rule bare_silent) (rule stable_intros)

lemma bare_record [stable_intros]: "stable bare_sends (record_request E q a out t d)"
  by (rule bare_silent) (rule stable_intros)

lemma bare_establish [stable_intros]: "stable bare_sends (establish E d)"
  by (rule bare_silent) (rule stable_intros)

lemma bare_require_key [stable_intros]: "stable bare_sends (require_key d k)"
  by (auto simp: stable_def require_key_def act_simps bare_sends.R_refl split: option.split)

lemma bare_check_claims [stable_intros]: "stable bare_sends (check_claims E t n a c)"
  unfolding check_claims_def by (intro bare_sends.stable_combinators stable_intros)

lemma bare_validate_id_token [stable_intros]: "stable bare_sends (validate_id_token E p t n a)"
  unfolding validate_id_token_def
  by (intro bare_sends.stable_andthen stable_intros)
    (auto intro: bare_sends.stable_throw bare_check_claims split: sum.split)

lemma bare_exchange [stable_intros]: "stable bare_sends (recorded_exchange E q p a c tx)"
proof -
  have "stable bare_sends (exchange_and_validate E p c tx)"
    unfolding exchange_and_validate_def by (intro bare_sends.stable_combinators stable_intros)
  moreover have "stable bare_sends (case e of
          OIDCError why \<Rightarrow>
            andthen (record_request E q a outcome_denied None [(''reason'', JStr ''token_exchange_failed'')]) (\<lambda>_.
              throw (HTTPException 401 (JStr (''OIDC login failed: '' @ why)) []))
        | _ \<Rightarrow> throw e)" for e
    by (cases e) (auto intro: bare_sends.stable_combinators stable_intros)
  ultimately show ?thesis unfolding recorded_exchange_def by (intro bare_sends.stable_catch)
qed

lemma bare_finish_callback [stable_intros]: "stable bare_sends (finish_callback E q p k a cb)"
proof -
  have pop: "stable bare_sends (pop_cookie k)" by (simp add: stable_def pop_cookie_def act_simps bare_sends_def)
  have "stable bare_sends (check_state E q a state tx)" for state tx
    unfolding check_state_def by (intro bare_sends.stable_combinators stable_intros)
  then have "stable bare_sends (callback_with E q p a cb tx)" for tx
    unfolding callback_with_def
    by (intro bare_sends.stable_if bare_sends.stable_throw)
      (auto intro: bare_sends.stable_combinators bare_exchange split: json.split)
  then show ?thesis unfolding finish_callback_def by (intro bare_sends.stable_andthen pop)
qed

section \<open>The public routes\<close>

lemma bare_login: "stable bare_sends (login E q password)"
proof -
  have t: "stable bare_sends (throttle_retry_after E ip)" "stable bare_sends (throttle_record_failure E ip)"
    "stable bare_sends (throttle_record_success ip)" for ip
    by (auto simp: stable_def throttle_retry_after_def throttle_record_failure_def throttle_record_success_def act_simps tick_def
        bare_sends_def split: prod.split sum.split)
  have "stable bare_sends (case role of None \<Rightarrow> refuse_password E q ip | Some r \<Rightarrow> accept_password E q ip r)" for role ip
    unfolding refuse_password_def accept_password_def
    by (auto intro!: bare_sends.stable_combinators t stable_intros split: option.split)
  moreover have "stable bare_sends (refuse_locked E q ip k)" for ip k
    unfolding refuse_locked_def by (intro bare_sends.stable_combinators stable_intros)
  ultimately show ?thesis
    unfolding login_def Let_def by (intro bare_sends.stable_combinators t bare_lift_result)
qed

lemma bare_start_login: "stable bare_sends (start_login E p k why)"
proof -
  have cookie: "stable bare_sends (updating (\<lambda>s. s\<lparr>cookie := dict_set k v (cookie s)\<rparr>))" for v
    by (rule bare_sends.stable_updating) (simp add: bare_sends_def)
  have "stable bare_sends (make_pkce_pair E)"
    unfolding make_pkce_pair_def by (intro bare_sends.stable_combinators stable_intros)
  then show ?thesis
    unfolding start_login_def
    by (intro bare_sends.stable_andthen bare_sends.stable_reading)
      (auto intro!: bare_sends.stable_combinators stable_intros cookie split: option.split)
qed

lemma bare_oidc_callback: "stable bare_sends (oidc_callback E q cb)"
  unfolding oidc_callback_def
  by (intro bare_sends.stable_combinators stable_intros)
    (auto intro!: bare_sends.stable_combinators stable_intros)

lemma bare_provider_callback: "stable bare_sends (provider_callback E q cb)"
  unfolding provider_callback_def
  by (intro bare_sends.stable_combinators stable_intros)
    (auto intro!: bare_sends.stable_combinators stable_intros)

section \<open>Nobody is logged in\<close>

definition nobody :: "world \<Rightarrow> bool" where
  "nobody s \<longleftrightarrow> (\<forall>t sid. mem_view (store s) t sid = None)"

lemma nobody_kept: "nobody s \<Longrightarrow> no_login s s' \<Longrightarrow> nobody s'"
  by (metis nobody_def no_login_def)

lemma nobody_stable: "nobody s \<Longrightarrow> stable no_login m \<Longrightarrow> nobody (snd (m s))"
  using nobody_kept by (simp add: stable_def)

lemma nobody_known:
  assumes "nobody s" and "cached s = None"
  shows "current_session E s = (Inr None, loaded E s)" and "known_session E s = None"
proof -
  have "fst (mem_get sid now (store s)) = None" for sid now
    using assms(1) by (auto simp: nobody_def mem_view_def mem_get_def split: option.splits prod.splits if_splits)
  then have "fst (load E s) = Inr None"
    using assms(2) by (auto simp: load_def act_simps store_get_def tick_def cache_session_def split: option.split prod.split)
      (metis fst_conv)
  moreover obtain d tk st where "load E s = (Inr d, s\<lparr>ticks := tk, store := st, cached := Some d\<rparr>)"
    using load_run by blast
  ultimately have "current_session E s = (Inr None, s\<lparr>ticks := tk, store := st, cached := Some None\<rparr>)"
    by (simp add: current_session_def act_simps)
  then show "current_session E s = (Inr None, loaded E s)" "known_session E s = None"
    by (simp_all add: loaded_def known_session_def)
qed

lemma loaded_no_login: "no_login s (loaded E s)"
  using no_login_current_session by (simp add: stable_def loaded_def)

lemma refused_outside:
  assumes "refused_locally E s run" and "nobody s"
  shows "nobody (snd run) \<and> bare_sends s (snd run) \<and> (\<exists>e. fst run = Inl e)"
  using assms nobody_kept [OF assms(2) loaded_no_login]
  by (auto simp: refused_locally_def loaded_fields bare_sends_def)

lemma no_login_failed_login:
  assumes "login E q password s = (Inl e, s')"
  shows "no_login s s'"
proof -
  let ?ip = "client_ip (q_client q) (q_headers q) (trusted_nets E)"
  have t: "stable no_login (throttle_retry_after E ip)" "stable no_login (throttle_record_failure E ip)" for ip
    by (auto simp: stable_def throttle_retry_after_def throttle_record_failure_def act_simps tick_def
        intro: no_login_frame split: prod.split sum.split)
  have wrong: "stable no_login (refuse_password E q ?ip)"
    unfolding refuse_password_def by (intro no_login.stable_combinators t stable_intros)
  obtain k s1 where k: "throttle_retry_after E ?ip s = (Inr k, s1)"
    by (cases "throttle_retry_after E ?ip s") (auto simp: throttle_retry_after_def act_simps tick_def split: prod.splits)
  have s1: "no_login s s1" using stableD [OF t(1) k] .
  have "no_login s1 s'"
  proof (cases "k = 0")
    case False
    then show ?thesis using assms stableD [OF no_login_refuse_locked] by (simp add: login_def Let_def act_simps k)
  next
    case True
    then have "(case resolve_role (cfg E) password of Inl x \<Rightarrow> (Inl x, s1)
        | Inr None \<Rightarrow> refuse_password E q ?ip s1 | Inr (Some r) \<Rightarrow> accept_password E q ?ip r s1) = (Inl e, s')"
      using assms by (auto simp: login_def Let_def act_simps k lift_result_def split: sum.splits option.splits)
    moreover have "accept_password E q ?ip r s1 \<noteq> (Inl e, s')" for r
      using accept_password_run [of E q ?ip r s1] by auto
    ultimately show ?thesis using stableD [OF wrong]
      by (auto simp: no_login.R_refl split: sum.splits option.splits)
  qed
  then show ?thesis using s1 by (rule no_login.R_trans [rotated])
qed

lemma no_login_start_login: "k \<noteq> cookie_sid_key \<Longrightarrow> stable no_login (start_login E p k why)"
proof -
  assume k: "k \<noteq> cookie_sid_key"
  have cookie: "stable no_login (updating (\<lambda>s. s\<lparr>cookie := dict_set k v (cookie s)\<rparr>))" for v
    using k by (intro no_login.stable_updating) (simp add: no_login_def dict_simps)
  have "stable no_login (make_pkce_pair E)"
    unfolding make_pkce_pair_def by (intro no_login.stable_combinators stable_intros)
  then show ?thesis
    unfolding start_login_def
    by (intro no_login.stable_andthen no_login.stable_reading)
      (auto intro!: no_login.stable_combinators stable_intros cookie no_login_idp [OF idp_frame_authorization_url]
        split: option.split)
qed

lemma failed_callback_outside:
  assumes "oidc_callback E q cb s = (Inl e, s') \<or> provider_callback E q cb s = (Inl e, s')" and "nobody s"
  shows "nobody s'"
proof -
  have keys: "''oidc_tx'' \<noteq> cookie_sid_key" "''provider_oidc_tx'' \<noteq> cookie_sid_key" by (simp_all add: cookie_sid_key_def)
  note out = nobody_stable [OF assms(2) no_login_finish_callback]
  have off: "oidc s = None \<Longrightarrow> snd (oidc_callback E q cb s) = s" "provider_oidc s = None \<Longrightarrow> snd (provider_callback E q cb s) = s"
    by (simp_all add: oidc_callback_def provider_callback_def act_simps)
  show ?thesis
    using assms(1)
  proof
    assume o: "oidc_callback E q cb s = (Inl e, s')"
    show ?thesis
    proof (cases "oidc s")
      case None
      then show ?thesis using off(1) o assms(2) by simp
    next
      case (Some c)
      then show ?thesis using o out [OF keys(1)] by (metis failed_callback option.distinct(1))
    qed
  next
    assume o: "provider_callback E q cb s = (Inl e, s')"
    show ?thesis
    proof (cases "provider_oidc s")
      case None
      then show ?thesis using off(2) o assms(2) by simp
    next
      case (Some c)
      then show ?thesis using o out [OF keys(2)] by (metis failed_callback option.distinct(1))
    qed
  qed
qed

lemma logout_outside:
  assumes "nobody s" and "cached s = None"
  shows "nobody (snd (logout E q s)) \<and> bare_sends s (snd (logout E q s))"
proof -
  let ?rec = "record_request E q ''auth.logout'' outcome_success None [(''method'', get_or None ''kind'')] (loaded E s)"
  have url: "logout_url E None t = (Inr None, t)" for t
    by (simp add: logout_url_def act_simps get_or_def)
  obtain s' where s': "destroy (snd ?rec) = (Inr (), s')"
    "\<forall>t i. mem_view (store s') t i = (if current_sid (snd ?rec) = Some i then None else mem_view (store (snd ?rec)) t i)"
    using destroy_ends_session by blast
  have "nobody (snd ?rec)"
    using nobody_kept [OF assms(1) loaded_no_login] by (rule nobody_stable) (rule stable_intros)
  then have "nobody s'" using s'(2) by (simp add: nobody_def)
  moreover have "trace s' = trace s"
    using stableD [OF silent_destroy s'(1)] silent_record_request by (simp add: silent_def stable_def loaded_fields)
  moreover have "snd (logout E q s) = s'"
    using s'(1) by (simp add: logout_def act_simps nobody_known [OF assms] url)
  ultimately show ?thesis by (simp add: bare_sends_def)
qed

section \<open>Requests from outside\<close>

fun logs_in :: "call \<Rightarrow> bool" where
  "logs_in (Login password) = True"
| "logs_in (Oidc_Callback cb) = True"
| "logs_in (Provider_Callback cb) = True"
| "logs_in c = False"

fun gated :: "call \<Rightarrow> bool" where
  "gated Me = True"
| "gated (Api c) = True"
| "gated (Support_Route c) = True"
| "gated (Provider_Route c) = True"
| "gated (Redeem b) = True"
| "gated c = False"

lemma gated_refuses:
  assumes "gated c" and "known_session E s = None" and "current_session E s = (Inr None, loaded E s)"
  shows "refused_locally E s (route E q c s)"
proof (cases c)
  case Me
  then show ?thesis
    by (simp add: refused_locally_def me_def act_simps assms(3) not_authenticated_def)
next
  case (Api a)
  obtain gs m where "api E q a = depends E gs m" "gs \<in> {[any_session], [admin_session], [any_session, No_Break_Glass], backup_guards}"
    by (rule api_guarded [of E q a]) (cases a; fastforce)
  then show ?thesis using Api refuses_strangers [OF assms(2)] by simp
next
  case (Support_Route a)
  obtain m where "support E q a = depends E [admin_session] m" by (rule support_guarded)
  then show ?thesis using Support_Route refuses_strangers [OF assms(2)] by simp
next
  case (Provider_Route a)
  obtain m where "provider E q a = depends E [if curates a then provider_admin else provider_read] m" by (rule provider_guarded)
  then show ?thesis using Provider_Route assms(2)
    by (auto intro!: depends_refused simp: provider_admin_def provider_read_def not_authenticated_def)
next
  case (Redeem b)
  then show ?thesis using assms(2)
    by (auto intro!: depends_refused simp: redeem_def with_session_def provider_admin_def not_authenticated_def)
qed (use assms(1) in simp_all)

lemma dispatch_outside:
  assumes "nobody s" and "cached s = None" and run: "dispatch E q c s = (r, s')" and failed: "logs_in c \<Longrightarrow> \<exists>e. r = Inl e"
  shows "nobody s' \<and> bare_sends s s' \<and> (gated c \<longrightarrow> (\<exists>e. r = Inl e))"
proof (cases "mounted (cfg E) c")
  case False
  then show ?thesis using run assms(1) by (auto simp: dispatch_def act_simps bare_sends.R_refl)
next
  case True
  then have run: "route E q c s = (r, s')" using run by (simp add: dispatch_def)
  show ?thesis
  proof (cases "gated c")
    case True
    from refused_outside [OF gated_refuses [OF True nobody_known(2) nobody_known(1)] assms(1), OF assms(1,2) assms(1,2), of E q]
    show ?thesis by (simp add: run)
  next
    case False
    have keys: "''oidc_tx'' \<noteq> cookie_sid_key" "''provider_oidc_tx'' \<noteq> cookie_sid_key" by (simp_all add: cookie_sid_key_def)
    have "nobody s' \<and> bare_sends s s'"
    proof (cases c)
      case Auth_Config
      then show ?thesis using run assms(1) by (auto simp: auth_config_def act_simps bare_sends.R_refl)
    next
      case Healthz
      then show ?thesis using run assms(1) by (auto simp: healthz_def act_simps bare_sends.R_refl)
    next
      case (Login p)
      then obtain e where "login E q p s = (Inl e, s')" using run failed by auto
      then show ?thesis
        using nobody_kept [OF assms(1) no_login_failed_login] stableD [OF bare_login] by blast
    next
      case Logout
      then show ?thesis using logout_outside [OF assms(1,2), of E q] run by simp
    next
      case Oidc_Login
      then have "start_login E TenantIdp ''oidc_tx'' ''OIDC is not enabled'' s = (r, s')" using run by (simp add: oidc_login_def)
      then show ?thesis
        using nobody_kept [OF assms(1) stableD [OF no_login_start_login [OF keys(1)]]] stableD [OF bare_start_login] by blast
    next
      case Provider_Login
      then have "start_login E ProviderIdp ''provider_oidc_tx'' ''The provider plane is not enabled on this BFF'' s = (r, s')"
        using run by (simp add: provider_login_def)
      then show ?thesis
        using nobody_kept [OF assms(1) stableD [OF no_login_start_login [OF keys(2)]]] stableD [OF bare_start_login] by blast
    next
      case (Oidc_Callback cb)
      then obtain e where "oidc_callback E q cb s = (Inl e, s')" using run failed by auto
      then show ?thesis using failed_callback_outside assms(1) stableD [OF bare_oidc_callback] by blast
    next
      case (Provider_Callback cb)
      then obtain e where "provider_callback E q cb s = (Inl e, s')" using run failed by auto
      then show ?thesis using failed_callback_outside assms(1) stableD [OF bare_provider_callback] by blast
    qed (use False in simp_all)
    then show ?thesis using False by simp
  qed
qed

text \<open>The requests served, each with its answer.\<close>

fun answers :: "env \<Rightarrow> incoming list \<Rightarrow> world \<Rightarrow> (call \<times> (exc + reply)) list" where
  "answers E [] s = []"
| "answers E (i # is) s = (in_call i, snd (fst (serve E i s))) # answers E is (snd (serve E i s))"

definition outside :: "call \<times> (exc + reply) \<Rightarrow> bool" where
  "outside ca \<longleftrightarrow> (logs_in (fst ca) \<longrightarrow> (\<exists>e. snd ca = Inl e))"

lemma serve_outside:
  assumes "nobody s" and "outside (in_call i, snd (fst (serve E i s)))"
  shows "nobody (snd (serve E i s)) \<and> bare_sends s (snd (serve E i s))
    \<and> (gated (in_call i) \<longrightarrow> (\<exists>e. snd (fst (serve E i s)) = Inl e))"
proof -
  let ?s0 = "s\<lparr>cookie := in_cookie i, cached := None\<rparr>"
  obtain x s1 where x: "request_rid E (in_request i) ?s0 = (Inr x, s1)" and s1: "store s1 = store s" "trace s1 = trace s" "cached s1 = None"
    by (cases "request_rid E (in_request i) ?s0")
      (auto simp: request_rid_def act_simps draw_def split: option.splits list.splits)
  obtain r s2 where r: "dispatch E (in_request i) (in_call i) (s1\<lparr>rid := x\<rparr>) = (r, s2)"
    by (cases "dispatch E (in_request i) (in_call i) (s1\<lparr>rid := x\<rparr>)")
  have run: "serve E i s = ((x, r), s2\<lparr>rid := rid s\<rparr>)" by (simp add: serve_def Let_def x r)
  have "nobody (s1\<lparr>rid := x\<rparr>)" "cached (s1\<lparr>rid := x\<rparr>) = None" using assms(1) s1 by (simp_all add: nobody_def)
  from dispatch_outside [OF this r] have "nobody s2 \<and> bare_sends (s1\<lparr>rid := x\<rparr>) s2 \<and> (gated (in_call i) \<longrightarrow> (\<exists>e. r = Inl e))"
    using assms(2) by (simp add: outside_def run)
  then show ?thesis using s1 by (simp add: run nobody_def bare_sends_def)
qed

lemma serve_all_outside:
  "nobody s \<Longrightarrow> list_all outside (answers E is s) \<Longrightarrow>
     nobody (serve_all E is s) \<and> bare_sends s (serve_all E is s)
     \<and> list_all (\<lambda>(c, a). gated c \<longrightarrow> (\<exists>e. a = Inl e)) (answers E is s)"
proof (induction "is" arbitrary: s)
  case Nil
  then show ?case by (simp add: serve_all_def bare_sends.R_refl)
next
  case (Cons i "is")
  then have step: "nobody (snd (serve E i s)) \<and> bare_sends s (snd (serve E i s))
      \<and> (gated (in_call i) \<longrightarrow> (\<exists>e. snd (fst (serve E i s)) = Inl e))"
    using serve_outside by simp
  have "serve_all E (i # is) s = serve_all E is (snd (serve E i s))" by (simp add: serve_all_def)
  then show ?case using step Cons.IH [of "snd (serve E i s)"] Cons.prems(2) bare_sends.R_trans by auto
qed

text \<open>C2. Without a login nothing happens: as long as no login of a started console has succeeded, whatever else
  its browsers ask for and whatever cookies they bring, there is no session, every route behind a
  gate has refused, and all that was sent are requests without any header or JSON body, which are the
  metadata and token requests of a login; no call carries a credential to a gateway or the catalog.\<close>

theorem nothing_without_login:
  assumes "create_app E0 st disk = Inr (E, s, b)"
    and "\<forall>(c, a) \<in> set (answers E is s). logs_in c \<longrightarrow> (\<exists>e. a = Inl e)"
  shows "(\<forall>t sid. mem_view (store (serve_all E is s)) t sid = None)
    \<and> (\<forall>(c, a) \<in> set (answers E is s). gated c \<longrightarrow> (\<exists>e. a = Inl e))
    \<and> (\<forall>w \<in> set (trace (serve_all E is s)). w_headers w = [] \<and> w_json w = None)"
proof -
  have "nobody s \<and> trace s = []"
    by (rule created_app [OF assms(1)]) (simp add: app_world_def new_mem_store_def nobody_def mem_view_def)
  moreover have "list_all outside (answers E is s)" using assms(2) by (auto simp: outside_def list_all_iff)
  ultimately have "nobody (serve_all E is s) \<and> bare_sends s (serve_all E is s)
      \<and> list_all (\<lambda>(c, a). gated c \<longrightarrow> (\<exists>e. a = Inl e)) (answers E is s)"
    using serve_all_outside by blast
  then show ?thesis using \<open>nobody s \<and> trace s = []\<close>
    by (auto simp: nobody_def bare_sends_def list_all_iff bare_def)
qed

section \<open>At concrete inputs\<close>

lemma wrong_password_fails:
  assumes "resolve_role (cfg E) password = Inr None"
  shows "\<exists>e. fst (login E q password s) = Inl e"
proof -
  let ?ip = "client_ip (q_client q) (q_headers q) (trusted_nets E)"
  obtain k s1 where k: "throttle_retry_after E ?ip s = (Inr k, s1)"
    by (cases "throttle_retry_after E ?ip s") (auto simp: throttle_retry_after_def act_simps tick_def split: prod.splits)
  show ?thesis
  proof (cases "k = 0")
    case False
    then have "fst (login E q password s) = Inl (too_many_attempts k)"
      by (simp add: login_def Let_def run_andthen k) (metis refuse_locked_run fst_conv)
    then show ?thesis by blast
  next
    case True
    then have "login E q password s = refuse_password E q ?ip s1"
      using assms by (simp add: login_def Let_def act_simps k lift_result_def)
    then show ?thesis
      by (auto simp: refuse_password_def act_simps split: prod.split sum.split)
  qed
qed

lemma serve_answer: "\<exists>s1. snd (fst (serve E i s)) = fst (dispatch E (in_request i) (in_call i) s1)"
proof -
  let ?s0 = "s\<lparr>cookie := in_cookie i, cached := None\<rparr>"
  obtain x s1 where "request_rid E (in_request i) ?s0 = (Inr x, s1)"
    by (cases "request_rid E (in_request i) ?s0") (auto simp: request_rid_def act_simps draw_def split: option.splits list.splits)
  then have "snd (fst (serve E i s)) = fst (dispatch E (in_request i) (in_call i) (s1\<lparr>rid := x\<rparr>))"
    by (simp add: serve_def Let_def split: prod.split)
  then show ?thesis by blast
qed

definition demo_stranger :: "incoming list" where
  "demo_stranger = [
     \<lparr>in_request = \<lparr>q_client = Some ''10.0.0.9'', q_headers = [], q_body = None\<rparr>, in_cookie = [], in_call = Login ''guess''\<rparr>,
     \<lparr>in_request = \<lparr>q_client = Some ''10.0.0.9'', q_headers = [], q_body = None\<rparr>,
      in_cookie = [(''sid'', JStr ''forged'')], in_call = Api List_Devices\<rparr>]"

theorem nothing_without_login_witness:
  "\<exists>E s b. create_app (demo_env (answer 200 ''{}'')) demo_settings demo_disk = Inr (E, s, b)
     \<and> mem_view (store (serve_all E demo_stranger s)) 0 ''forged'' = None
     \<and> (\<exists>e. (Api List_Devices, Inl e) \<in> set (answers E demo_stranger s))"
proof -
  obtain E s b where run: "create_app (demo_env (answer 200 ''{}'')) demo_settings demo_disk = Inr (E, s, b)" by (rule demo_tenant_app)
  have cfg: "cfg E = demo_settings" by (rule created_app [OF run]) (simp add: app_env_def)
  have "resolve_role demo_settings ''guess'' = Inr None" by code_simp
  then have "\<exists>e. snd (fst (serve E (hd demo_stranger) s)) = Inl e"
    using serve_answer [of E "hd demo_stranger" s] wrong_password_fails [of E "''guess''"] cfg
    by (auto simp: demo_stranger_def dispatch_def)
  then have "\<forall>(c, a) \<in> set (answers E demo_stranger s). logs_in c \<longrightarrow> (\<exists>e. a = Inl e)"
    by (simp add: demo_stranger_def)
  from nothing_without_login [OF run this] show ?thesis
    using run by (auto simp: demo_stranger_def)
qed

end
