(* ===== verification/Cookie_Content.thy ===== *)
theory Cookie_Content
  imports Whole_App
begin

text \<open>
  What a console writes into the browser's cookie, which is signed but can be read: the session id of
  \<open>app/sessions.py\<close> and the login transactions of \<open>app/routers/auth.py\<close>. A further instance of
  \<open>session_invariant\<close>, about the answer to one request.
\<close>

text \<open>An entry the console makes itself: random text under one of three keys.\<close>

definition own_entry :: "env \<Rightarrow> string \<times> json \<Rightarrow> bool" where
  "own_entry E kv \<longleftrightarrow>
     (\<exists>n. kv = (cookie_sid_key, JStr (random_token E n)))
     \<or> (\<exists>k l m n. k \<in> set tx_keys \<and> kv = (k, login_tx (random_token E l) (random_token E m) (random_token E n)))"

definition cookie_from :: "env \<Rightarrow> dict \<Rightarrow> world \<Rightarrow> bool" where
  "cookie_from E brought s \<longleftrightarrow> (\<forall>kv \<in> set (cookie s). kv \<in> set brought \<or> own_entry E kv)"

lemma set_dict_set: "set (dict_set k v d) \<subseteq> insert (k, v) (set d)"
  unfolding dict_set_def by (rule set_alist_update)

lemma set_dict_pop: "set (dict_pop k d) \<subseteq> set d"
  unfolding dict_pop_def by (auto simp: set_alist_delete)

interpretation cookies: session_invariant E "\<lambda>held. cookie_from E brought" "\<lambda>_. True" for E brought
proof (unfold_locales, goal_cases)
  case (17 held s k)
  then show ?case using set_dict_pop by (fastforce simp: cookie_from_def)
next
  case (18 held s k l m n)
  then have "own_entry E (k, login_tx (random_token E l) (random_token E m) (random_token E n))"
    by (auto simp: own_entry_def)
  then show ?case using 18 set_dict_set by (fastforce simp: cookie_from_def)
qed (auto simp: cookie_from_def same_core_def good_opt_def own_entry_def)

text \<open>C9. The browser's cookie never carries a role, a token or anything else of a session: whatever request
  is served in whatever state, each entry of the cookie that goes back was in the cookie that
  came, or is the session id, a fresh random text, or a login transaction, which is three of them.\<close>

theorem cookie_carries_ids:
  "\<forall>(k, v) \<in> set (cookie (snd (serve E i s))). (k, v) \<in> set (in_cookie i)
     \<or> k = ''sid'' \<and> (\<exists>n. v = JStr (random_token E n))
     \<or> k \<in> {''oidc_tx'', ''provider_oidc_tx''} \<and> (\<exists>l m n. v = JObj [(''state'', JStr (random_token E l)),
         (''nonce'', JStr (random_token E m)), (''verifier'', JStr (random_token E n))])"
proof -
  have "cookie_from E (in_cookie i) (s\<lparr>cookie := in_cookie i, cached := None\<rparr>)" by (simp add: cookie_from_def)
  from cookies.keeps_request [OF this]
  have "cookie_from E (in_cookie i) (snd (serve E i s))" .
  then show ?thesis
    unfolding cookie_from_def own_entry_def tx_keys_def login_tx_def cookie_sid_key_def by fastforce
qed

text \<open>At a concrete input: a browser without a cookie begins a login.\<close>

definition demo_begin :: incoming where
  "demo_begin = \<lparr>in_request = demo_call, in_cookie = [], in_call = Oidc_Login\<rparr>"

theorem cookie_carries_ids_witness:
  "\<exists>v. cookie (snd (serve demo_login_env demo_begin demo_tenant_login)) = [(''oidc_tx'', v)]
     \<and> (\<exists>l m n. v = JObj [(''state'', JStr (random_token demo_login_env l)),
         (''nonce'', JStr (random_token demo_login_env m)), (''verifier'', JStr (random_token demo_login_env n))])"
proof -
  have "map fst (cookie (snd (serve demo_login_env demo_begin demo_tenant_login))) = [''oidc_tx'']" by code_simp
  then obtain v where v: "cookie (snd (serve demo_login_env demo_begin demo_tenant_login)) = [(''oidc_tx'', v)]"
    by (auto simp: map_eq_Cons_conv)
  have "in_cookie demo_begin = []" by (simp add: demo_begin_def)
  then show ?thesis
    using cookie_carries_ids [of demo_login_env demo_begin demo_tenant_login] v by auto
qed

end
