(* ===== verification/Support_Lifecycle.thy ===== *)
theory Support_Lifecycle
  imports Provider_Access
begin

text \<open>
  The life of a support grant on the provider's console, across \<open>app/routers/provider.py\<close>,
  \<open>app/relay.py\<close>, \<open>app/security.py\<close> and \<open>app/routers/api.py\<close>: a poll delivers it, relayed calls present
  it, a release gives it up, and from then on the console is closed to that operator again.
\<close>

section \<open>What a session's steps leave alone\<close>

definition same_estate :: "world \<Rightarrow> world \<Rightarrow> bool" where
  "same_estate s s' \<longleftrightarrow> pool s' = pool s \<and> directory s' = directory s"

interpretation same_estate: step_order same_estate
  by unfold_locales (auto simp: same_estate_def)

lemma estate_pooled: "same_estate s s' \<Longrightarrow> pooled s' t gc = pooled s t gc"
  by (simp add: same_estate_def pooled_def)

lemma estate_loaded: "same_estate s (loaded E s)"
  by (simp add: same_estate_def loaded_fields)

lemma estate_current_session [stable_intros]: "stable same_estate (current_session E)"
  using estate_loaded by (simp add: stable_def current_session_loaded)

lemma estate_save_session [stable_intros]: "stable same_estate (save_session E d)"
  by (auto simp: stable_def save_session_def persist_session_def act_simps cache_session_def with_lock_def store_set_def tick_def
      same_estate_def split: option.split prod.split)

lemma estate_keep_grant [stable_intros]: "stable same_estate (keep_grant E t b)"
  unfolding keep_grant_def
  by (auto intro!: same_estate.stable_combinators stable_intros split: option.split)

lemma estate_call_tenant [stable_intros]: "stable same_estate (call_tenant E gc meth path tid body)"
  by (simp add: stable_def call_tenant_run same_estate_def)

lemma estate_gateway_request: "gateway_request E gc meth path body b hs s = (r, s') \<Longrightarrow> same_estate s s'"
  by (auto simp: gateway_request_def send_hooked_stamp send_def same_estate_def split: sum.splits)

section \<open>The steps of the life\<close>

lemma poll_estate:
  assumes "known_session E s = Some d" and "refusal (Some d) [provider_read] = None" and "pooled s t gc"
    and "poll_support_request E i t s = (r, s')"
  shows "same_estate s s'"
proof -
  let ?k = "\<lambda>resp. if 400 \<le> r_status resp then throw (HTTPException (r_status resp) (error_detail resp) [])
       else andthen (body_object resp) (\<lambda>v. andthen (lift_result (as_object v)) (\<lambda>b.
            andthen (keep_grant E t b) (\<lambda>_. ret (Json_Body v))))"
  have st: "stable same_estate (andthen (call_tenant E gc ''GET'' p (JStr t) None) ?k)" for p
    by (auto intro!: same_estate.stable_combinators stable_intros simp: body_object_def lift_result_def split: option.split sum.split)
  have reach: "pooled (loaded E s) t gc" using assms(3) by (simp add: pooled_loaded)
  have go: "poll_support_request E i t s =
      andthen (call_tenant E gc ''GET'' (poll_path i (provider_subject d)) (JStr t) None) ?k (loaded E s)"
    by (simp add: poll_support_request_def with_session_run [OF assms(1,2)] run_andthen [of "tenant_gateway E (JStr t)"]
        tenant_gateway_pooled [OF reach])
  have "same_estate (loaded E s) s'" by (rule stableD [OF st assms(4) [unfolded go]])
  then show ?thesis using estate_loaded same_estate.R_trans by blast
qed

text \<open>A relayed call with a grant for a tenant of the pool, when it is not refused with a 401.\<close>

lemma granted_relay:
  assumes k: "known_session E s = Some d" and plane: "session_plane (Some d) = plane_provider"
    and none: "\<not> truthy (dict_get d ''refresh_token'')"
    and grant: "grant_tenant (Some d) = JStr t" "t \<noteq> []" "support_grant_credential (Some d) = Some c" and reach: "pooled s t gc"
    and run: "relay_request E meth path body hs s = (Inr resp, s')" and ok: "r_status resp \<noteq> 401"
  shows "gateway_request E gc meth path body (JStr c) hs (loaded E s) = (Inr resp, s')"
proof -
  have "pool_get E t (loaded E s) = (Inr gc, loaded E s)"
    using reach pool_get_cached by (auto simp: pooled_def loaded_fields)
  then have "gateway_for E s = (Inr gc, loaded E s)"
    using grant(2) plane by (simp add: gateway_for_def act_simps current_session_loaded k grant(1) grant_gateway_def)
  moreover have "upstream_bearer E (loaded E s) = (Inr (JStr c), loaded E s)"
    by (simp add: upstream_bearer_def act_simps loaded_loaded k plane grant(3))
  ultimately have step: "relay_request E meth path body hs s =
      andthen (gateway_request E gc meth path body (JStr c) hs) (\<lambda>resp. if r_status resp = 401 then
         andthen (refresh_oidc_access_token E) (\<lambda>refreshed.
           if truthy refreshed then gateway_request E gc meth path body refreshed hs
           else andthen (drop_dead_support_grant E) (\<lambda>_. ret resp))
       else ret resp) (loaded E s)"
    by (simp add: relay_request_def run_andthen)
  obtain r s2 where q: "gateway_request E gc meth path body (JStr c) hs (loaded E s) = (r, s2)"
    by (cases "gateway_request E gc meth path body (JStr c) hs (loaded E s)")
  show ?thesis
  proof (cases r)
    case (Inl e)
    then show ?thesis using run step q by (simp add: run_andthen)
  next
    case (Inr resp0)
    have c2: "cached s2 = Some (Some d)" using gateway_request_keeps [OF q] loaded_cached [OF k] by simp
    have "\<exists>s3. drop_dead_support_grant E s2 = (Inr (), s3)" using drop_dead_support_grant_run [OF c2 plane, of E] by blast
    then have "resp0 = resp"
      using run step q Inr refresh_not_applicable [OF c2 none, of E] by (auto simp: act_simps split: if_splits)
    then show ?thesis using run step q Inr ok by (simp add: run_andthen run_ret)
  qed
qed

lemma api_closed_without_grant:
  assumes "known_session E s = Some d" and "session_plane (Some d) = plane_provider" and "support_grant_credential (Some d) = None"
  shows "refused_locally E s (api E q c s)"
proof -
  obtain gs m where g: "api E q c = depends E gs m" "gs \<in> {[any_session], [admin_session], [any_session, No_Break_Glass], backup_guards}"
    by (rule api_guarded [of E q c]) (cases c; fastforce)
  then have "refusal (known_session E s) gs = Some (forbidden no_grant_detail)"
    using assms by (auto simp: guard_defs)
  then have "refused_locally E s (depends E gs m s)" by (rule depends_refused) (simp add: forbidden_def)
  then show ?thesis using g(1) by simp
qed

lemma granted_refusal:
  "refusal (Some (dict_set ''support_grant'' v d)) [provider_read] = refusal (Some d) [provider_read]"
  by (simp add: provider_read_def session_plane_def get_or_def dict_simps)

section \<open>The life\<close>

text \<open>The session a delivered grant leaves, and the state a poll and a relayed call leave it in.\<close>

abbreviation granted :: "string \<Rightarrow> dict \<Rightarrow> dict \<Rightarrow> dict" where
  "granted t b d \<equiv> dict_set ''support_grant'' (delivered_grant t b) d"

lemma granted_session:
  assumes "dict_get b ''credential'' = JStr c" and "c \<noteq> []"
  shows "grant_tenant (Some (granted t b d)) = JStr t" and "support_grant_credential (Some (granted t b d)) = Some c"
    and "session_plane (Some (granted t b d)) = session_plane (Some d)"
    and "dict_get (granted t b d) ''refresh_token'' = dict_get d ''refresh_token''"
  using assms by (auto simp: grant_tenant_def support_grant_credential_def session_plane_def get_or_def dict_simps
      delivered_grant_def neq_Nil_conv)

lemma polled_session:
  assumes k: "known_session E s = Some d" and adm: "refusal (Some d) [provider_read] = None" and reach: "pooled s t gc"
    and polled: "poll_support_request E i t s = (Inr (Json_Body (JObj b)), s1)"
    and approved: "dict_get b ''status'' = JStr ''approved''" "dict_get b ''credential'' = JStr c" "c \<noteq> []"
  shows "known_session E s1 = Some (granted t b d)" and "pooled s1 t gc"
proof -
  show "known_session E s1 = Some (granted t b d)"
    by (rule poll_outcome [OF k adm reach polled]) (use approved in simp)
  show "pooled s1 t gc" using estate_pooled [OF poll_estate [OF k adm reach polled]] reach by blast
qed

lemma sent_session:
  assumes k: "known_session E s = Some d" and reach: "pooled s t gc"
    and q: "gateway_request E gc' meth path body b hs (loaded E s) = (r, s')"
  shows "known_session E s' = Some d" and "pooled s' t gc"
proof -
  have "cached s' = Some (Some d)" using gateway_request_keeps [OF q] loaded_cached [OF k] by simp
  then show "known_session E s' = Some d" using cached_known known_session_kind [OF k] by simp
  show "pooled s' t gc"
    using reach estate_pooled [OF same_estate.R_trans [OF estate_loaded estate_gateway_request [OF q]]] by blast
qed

text \<open>What a release reads of the grant.\<close>

abbreviation held_grant :: "string \<Rightarrow> dict \<Rightarrow> dict" where
  "held_grant t b \<equiv> [(''tenant_id'', JStr t), (''grant_id'', dict_get b ''grant_id''), (''credential'', dict_get b ''credential'')]"

lemma granted_held:
  "dict_get (granted t b d) ''support_grant'' = JObj (held_grant t b)"
  "dict_get (held_grant t b) ''tenant_id'' = JStr t" "dict_get (held_grant t b) ''grant_id'' = dict_get b ''grant_id''"
  by (simp_all add: dict_simps delivered_grant_def dict_get_def)



end
